(* ===== verification/Smf_Prelude.thy ===== *)
theory Smf_Prelude
  imports Main "HOL-Library.Word"
begin

text \<open>
  Shared material of the development: the names of the machine types, C++ exceptions as
  values, little-endian byte sequences, and two interfaces that several components
  implement: a fixed-width wire encoding and a transition system with an invariant.
\<close>

section \<open>Machine types\<close>

type_synonym byte = "8 word"
type_synonym bytes = "byte list"
type_synonym u16 = "16 word"
type_synonym u32 = "32 word"
type_synonym u64 = "64 word"

named_theorems header_ops \<open>definitions of the operations that change only the header of an envelope\<close>
named_theorems srv_defs \<open>definitions of the server's continuations\<close>

section \<open>Exceptions and results\<close>

text \<open>
  A C++ function that may throw, and a future that may resolve to an exception, has a result
  in \<open>exn + 'a\<close>. \<open>Runtime_error\<close> is what the \<^verbatim>\<open>LOG_THROW\<close> macros of log.h throw;
  \<open>Assertion_failed\<close> is a failed \<^verbatim>\<open>assert\<close>; \<open>Undefined_behaviour\<close> marks a read
  or a conversion the language leaves undefined; \<open>Fatal\<close> is a failed \<^verbatim>\<open>CHECK\<close> or
  \<^verbatim>\<open>LOG(FATAL)\<close> of glog, which ends the process; the rest are the exception types the code
  names or receives from the reactor.
\<close>

datatype exn =
    Runtime_error string
  | Assertion_failed
  | Undefined_behaviour string
  | Invalid_connection_state
  | Remote_connection_error
  | Gate_closed
  | Timed_out
  | Foreign_exception string
  | Fatal string

type_synonym 'a res = "exn + 'a"

fun rbind :: "'a res \<Rightarrow> ('a \<Rightarrow> 'b res) \<Rightarrow> 'b res" where
  "rbind (Inl e) f = Inl e"
| "rbind (Inr x) f = f x"

lemma rbind_Inr_iff: "rbind r f = Inr y \<longleftrightarrow> (\<exists>x. r = Inr x \<and> f x = Inr y)"
  by (cases r) auto

lemma rbind_assoc: "rbind (rbind r f) g = rbind r (\<lambda>x. rbind (f x) g)"
  by (cases r) auto

lemma rbind_unit [simp]: "rbind r Inr = r"
  by (cases r) auto

section \<open>Little-endian numbers\<close>

fun le_enc :: "nat \<Rightarrow> nat \<Rightarrow> bytes" where
  "le_enc 0 v = []"
| "le_enc (Suc n) v = word_of_nat (v mod 256) # le_enc n (v div 256)"

fun le_val :: "bytes \<Rightarrow> nat" where
  "le_val [] = 0"
| "le_val (b # bs) = unat b + 256 * le_val bs"

lemma unat_byte: "unat (b :: byte) < 256"
  using unsigned_less [of b, where ?'a = nat] by simp

lemma unat_u16: "unat (w :: u16) < 65536"
  using unsigned_less [of w, where ?'a = nat] by simp

lemma unat_u32: "unat (w :: u32) < 4294967296"
  using unsigned_less [of w, where ?'a = nat] by simp

lemma length_le_enc [simp]: "length (le_enc n v) = n"
  by (induction n arbitrary: v) auto

lemma unat_byte_mod [simp]: "unat (word_of_nat (v mod 256) :: byte) = v mod 256"
  by (simp add: unat_of_nat)

lemma le_val_le_enc: "le_val (le_enc n v) = v mod 256 ^ n"
proof (induction n arbitrary: v)
  case 0
  show ?case by simp
next
  case (Suc n)
  have "le_val (le_enc (Suc n) v) = v mod 256 + 256 * (v div 256 mod 256 ^ n)"
    by (simp add: Suc.IH)
  also have "\<dots> = v mod (256 * 256 ^ n)"
    by (simp add: mod_mult2_eq)
  finally show ?case by simp
qed

lemma byte_of_nat_split [simp]:
  "word_of_nat ((unat (b :: byte) + 256 * m) mod 256) = b"
  "(unat (b :: byte) + 256 * m) div 256 = m"
proof -
  have b: "unat b < 256" by (rule unat_byte)
  then have "(unat b + 256 * m) mod 256 = unat b" by simp
  then show "word_of_nat ((unat b + 256 * m) mod 256) = b" by simp
  show "(unat b + 256 * m) div 256 = m" using b by simp
qed

lemma le_enc_le_val: "le_enc (length bs) (le_val bs) = bs"
proof (induction bs)
  case Nil
  show ?case by simp
next
  case (Cons b bs)
  then show ?case by (simp only: list.size le_enc.simps le_val.simps add_Suc_right add_0_right
    byte_of_nat_split)
qed

lemma le_val_bound: "le_val bs < 256 ^ length bs"
proof (induction bs)
  case Nil
  show ?case by simp
next
  case (Cons b bs)
  have "unat b < 256" by (rule unat_byte)
  moreover have "le_val bs + 1 \<le> 256 ^ length bs" using Cons.IH by simp
  then have "256 * (le_val bs + 1) \<le> 256 * 256 ^ length bs" by (rule mult_le_mono2)
  ultimately show ?case by simp
qed

lemma u16_le_roundtrip [simp]: "word_of_nat (le_val (le_enc 2 (unat (w :: u16)))) = w"
  using unat_u16 [of w] by (simp add: le_val_le_enc)

lemma u32_le_roundtrip [simp]: "word_of_nat (le_val (le_enc 4 (unat (w :: u32)))) = w"
  using unat_u32 [of w] by (simp add: le_val_le_enc)

lemma u16_le_of_bytes:
  assumes "length bs = 2"
  shows "le_enc 2 (unat (word_of_nat (le_val bs) :: u16)) = bs"
  using assms le_val_bound [of bs] le_enc_le_val [of bs] by (simp add: unat_of_nat)

lemma u32_le_of_bytes:
  assumes "length bs = 4"
  shows "le_enc 4 (unat (word_of_nat (le_val bs) :: u32)) = bs"
  using assms le_val_bound [of bs] le_enc_le_val [of bs] by (simp add: unat_of_nat)

section \<open>Interface: a fixed-width wire encoding\<close>

text \<open>
  A value that is copied to the wire in exactly \<open>width\<close> bytes. The laws are the two round
  trips; the client lemmas say how a reader finds the value at the front of a stream.
\<close>

locale wire_codec =
  fixes enc :: "'a \<Rightarrow> bytes"
    and dec :: "bytes \<Rightarrow> 'a"
    and width :: nat
  assumes enc_length: "length (enc x) = width"
    and dec_enc: "dec (enc x) = x"
    and enc_dec: "length bs = width \<Longrightarrow> enc (dec bs) = bs"
begin

lemma take_enc: "take width (enc x @ rest) = enc x"
  by (simp add: enc_length)

lemma drop_enc: "drop width (enc x @ rest) = rest"
  by (simp add: enc_length)

lemma dec_front: "dec (take width (enc x @ rest)) = x"
  by (simp only: take_enc dec_enc)

lemma enc_inj: "enc x = enc y \<longleftrightarrow> x = y"
  by (metis dec_enc)

lemma prefix_unique: "enc x @ r = enc y @ s \<Longrightarrow> x = y \<and> r = s"
  by (metis append_eq_append_conv enc_inj enc_length)

end

section \<open>Interface: a labelled transition system with an invariant\<close>

text \<open>
  The reactor runs one continuation at a time; a component is the set of its continuations,
  each an atomic labelled step. \<open>run step s es t\<close> is a finite execution with the events
  \<open>es\<close>, the oldest first.
\<close>

inductive run :: "('s \<Rightarrow> 'e \<Rightarrow> 's \<Rightarrow> bool) \<Rightarrow> 's \<Rightarrow> 'e list \<Rightarrow> 's \<Rightarrow> bool"
  for step where
  run_nil: "run step s [] s"
| run_cons: "step s e t \<Longrightarrow> run step t es u \<Longrightarrow> run step s (e # es) u"

inductive_simps run_Nil_iff [simp]: "run step s [] t"
inductive_simps run_Cons_iff: "run step s (e # es) t"

lemma run_append: "run step s es t \<Longrightarrow> run step t fs u \<Longrightarrow> run step s (es @ fs) u"
  by (induction rule: run.induct) (auto intro: run.intros)

lemma run_appendD: "run step s (es @ fs) u \<Longrightarrow> \<exists>t. run step s es t \<and> run step t fs u"
  by (induction es arbitrary: s) (fastforce simp: run_Cons_iff)+

locale invariant_system =
  fixes step :: "'s \<Rightarrow> 'e \<Rightarrow> 's \<Rightarrow> bool"
    and init :: "'s \<Rightarrow> bool"
    and allowed :: "'e \<Rightarrow> bool"
    and inv :: "'s \<Rightarrow> bool"
  assumes inv_init: "init s \<Longrightarrow> inv s"
    and inv_step: "inv s \<Longrightarrow> step s e t \<Longrightarrow> allowed e \<Longrightarrow> inv t"
begin

lemma inv_run_from: "run step s es t \<Longrightarrow> inv s \<Longrightarrow> list_all allowed es \<Longrightarrow> inv t"
  by (induction rule: run.induct) (auto intro: inv_step)

lemma inv_run: "init s \<Longrightarrow> run step s es t \<Longrightarrow> list_all allowed es \<Longrightarrow> inv t"
  by (blast intro: inv_run_from inv_init)

end

section \<open>Generic lemmas\<close>

lemma length_filter_remove1:
  "x \<in> set xs \<Longrightarrow> sum_list (map f xs) = f x + sum_list (map f (remove1 x xs))"
  for f :: "'a \<Rightarrow> 'b::comm_monoid_add"
  by (induction xs) (auto simp: ac_simps)

lemma option_caseD:
  "(case x of None \<Rightarrow> False | Some (a, b) \<Rightarrow> P a b) \<Longrightarrow> \<exists>a b. x = Some (a, b) \<and> P a b"
  by (auto split: option.splits)

end
