(* ===== verification/Rpc_Envelope.thy ===== *)
theory Rpc_Envelope
  imports Smf_Prelude
begin

unbundle bit_operations_syntax

text \<open>
  The message format: the 16-byte header of src/core/rpc.fbs, the checksum helpers of
  rpc_header_utils.h, and the outgoing side: \<^verbatim>\<open>rpc_letter\<close>, \<^verbatim>\<open>rpc_envelope\<close> and
  \<^verbatim>\<open>rpc_typed_envelope\<close>. The flatbuffers packer and xxhash are arguments of the
  definitions that call them; \<open>dbg\<close> is True in a build without \<^verbatim>\<open>NDEBUG\<close>, where the
  \<^verbatim>\<open>DLOG_THROW_IF\<close> macros of log.h throw.
\<close>

section \<open>The header\<close>

definition compression_flags_none :: byte where
  "compression_flags_none = 0"

definition compression_flags_disabled :: byte where
  "compression_flags_disabled = 1"

definition compression_flags_zstd :: byte where
  "compression_flags_zstd = 2"

definition compression_flags_lz4 :: byte where
  "compression_flags_lz4 = 3"

definition compression_flags_MAX :: byte where
  "compression_flags_MAX = compression_flags_lz4"

definition header_bit_flags_has_payload_headers :: byte where
  "header_bit_flags_has_payload_headers = 1"

lemmas compression_flags_defs =
  compression_flags_none_def compression_flags_disabled_def compression_flags_zstd_def
  compression_flags_lz4_def compression_flags_MAX_def

text \<open>The \<^verbatim>\<open>compression\<close> field is a signed byte in the schema: it is read with \<open>sint\<close>.\<close>

record header =
  hdr_compression :: byte
  hdr_bitflags :: byte
  hdr_session :: u16
  hdr_size :: u32
  hdr_checksum :: u32
  hdr_meta :: u32

definition default_header :: header where
  "default_header = \<lparr>hdr_compression = 0, hdr_bitflags = 0, hdr_session = 0,
     hdr_size = 0, hdr_checksum = 0, hdr_meta = 0\<rparr>"

definition kHeaderSize :: nat where
  "kHeaderSize = 16"

text \<open>
  The bytes of the struct: the layout of the comment in rpc.fbs, little-endian as every
  flatbuffers scalar.
\<close>

definition header_bytes :: "header \<Rightarrow> bytes" where
  "header_bytes h = hdr_compression h # hdr_bitflags h # le_enc 2 (unat (hdr_session h)) @
     le_enc 4 (unat (hdr_size h)) @ le_enc 4 (unat (hdr_checksum h)) @ le_enc 4 (unat (hdr_meta h))"

definition header_of_bytes :: "bytes \<Rightarrow> header" where
  "header_of_bytes bs = \<lparr>hdr_compression = bs ! 0, hdr_bitflags = bs ! 1,
     hdr_session = word_of_nat (le_val (take 2 (drop 2 bs))),
     hdr_size = word_of_nat (le_val (take 4 (drop 4 bs))),
     hdr_checksum = word_of_nat (le_val (take 4 (drop 8 bs))),
     hdr_meta = word_of_nat (le_val (take 4 (drop 12 bs)))\<rparr>"

lemma header_of_bytes_header_bytes: "header_of_bytes (header_bytes h) = h"
  by (simp add: header_of_bytes_def header_bytes_def)

lemma split16:
  assumes "length bs = 16"
  shows "bs = bs ! 0 # bs ! 1 # take 2 (drop 2 bs) @ take 4 (drop 4 bs) @ take 4 (drop 8 bs)
    @ take 4 (drop 12 bs)"
  using assms by (auto simp: numeral_eq_Suc length_Suc_conv)

lemma header_bytes_header_of_bytes:
  assumes "length bs = 16"
  shows "header_bytes (header_of_bytes bs) = bs"
  using assms split16 [OF assms]
  by (simp add: header_of_bytes_def header_bytes_def u16_le_of_bytes u32_le_of_bytes)

interpretation hdr: wire_codec header_bytes header_of_bytes kHeaderSize
proof unfold_locales
  show "length (header_bytes h) = kHeaderSize" for h
    by (simp add: header_bytes_def kHeaderSize_def)
qed (simp_all add: header_of_bytes_header_bytes header_bytes_header_of_bytes kHeaderSize_def)

section \<open>Checksums\<close>

text \<open>\<^verbatim>\<open>xxh\<close> stands for \<^verbatim>\<open>XXH64(data, len, seed)\<close> of the xxhash library.\<close>

type_synonym xxh64 = "bytes \<Rightarrow> u64 \<Rightarrow> u64"

definition rpc_checksum_payload :: "xxh64 \<Rightarrow> bytes \<Rightarrow> u32 \<Rightarrow> u32" where
  "rpc_checksum_payload xxh payload sz = ucast (0xFFFFFFFF AND xxh (take (unat sz) payload) 0)"

definition checksum_rpc :: "xxh64 \<Rightarrow> header \<Rightarrow> bytes \<Rightarrow> u32 \<Rightarrow> header" where
  "checksum_rpc xxh hdr payload sz =
     (hdr\<lparr>hdr_checksum := rpc_checksum_payload xxh payload sz\<rparr>)\<lparr>hdr_size := sz\<rparr>"

section \<open>Letters\<close>

record rpc_letter =
  ltr_header :: header
  ltr_dynamic_headers :: "string \<rightharpoonup> string"
  ltr_body :: bytes

definition rpc_letter_empty :: rpc_letter where
  "rpc_letter_empty =
     \<lparr>ltr_header = default_header, ltr_dynamic_headers = Map.empty, ltr_body = []\<rparr>"

definition letter_share :: "rpc_letter \<Rightarrow> rpc_letter" where
  "letter_share l = \<lparr>ltr_header = ltr_header l, ltr_dynamic_headers = ltr_dynamic_headers l,
     ltr_body = ltr_body l\<rparr>"

definition letter_size :: "rpc_letter \<Rightarrow> nat" where
  "letter_size l = kHeaderSize + length (ltr_body l)"

definition letter_empty :: "rpc_letter \<Rightarrow> bool" where
  "letter_empty l \<longleftrightarrow> length (ltr_body l) = 0"

section \<open>Envelopes\<close>

text \<open>
  The calls the code makes on a \<^verbatim>\<open>seastar::output_stream\<close>, in order; \<open>wire_bytes\<close> is
  what a peer reads once they have been flushed.
\<close>

datatype ostream_call = Write bytes | Flush

fun wire_bytes :: "ostream_call list \<Rightarrow> bytes" where
  "wire_bytes [] = []"
| "wire_bytes (Write b # cs) = b @ wire_bytes cs"
| "wire_bytes (Flush # cs) = wire_bytes cs"

lemma wire_bytes_append [simp]: "wire_bytes (cs @ ds) = wire_bytes cs @ wire_bytes ds"
  by (induction cs rule: wire_bytes.induct) auto

record rpc_envelope =
  env_letter :: rpc_letter

definition rpc_envelope_empty :: rpc_envelope where
  "rpc_envelope_empty = \<lparr>env_letter = rpc_letter_empty\<rparr>"

abbreviation env_header :: "rpc_envelope \<Rightarrow> header" where
  "env_header e \<equiv> ltr_header (env_letter e)"

abbreviation env_body :: "rpc_envelope \<Rightarrow> bytes" where
  "env_body e \<equiv> ltr_body (env_letter e)"

definition map_header :: "(header \<Rightarrow> header) \<Rightarrow> rpc_envelope \<Rightarrow> rpc_envelope" where
  "map_header f e = e\<lparr>env_letter := (env_letter e)\<lparr>ltr_header := f (env_header e)\<rparr>\<rparr>"

lemma map_header_simps [simp]:
  "env_header (map_header f e) = f (env_header e)"
  "env_body (map_header f e) = env_body e"
  "ltr_dynamic_headers (env_letter (map_header f e)) = ltr_dynamic_headers (env_letter e)"
  by (simp_all add: map_header_def)

definition set_request_id :: "u32 \<Rightarrow> rpc_envelope \<Rightarrow> rpc_envelope" where
  "set_request_id request_id e = map_header (hdr_meta_update (\<lambda>_. request_id)) e"

definition set_status :: "u32 \<Rightarrow> rpc_envelope \<Rightarrow> rpc_envelope" where
  "set_status status e = map_header (hdr_meta_update (\<lambda>_. status)) e"

definition mutate_session :: "u16 \<Rightarrow> rpc_envelope \<Rightarrow> rpc_envelope" where
  "mutate_session session e = map_header (hdr_session_update (\<lambda>_. session)) e"

definition envelope_size :: "rpc_envelope \<Rightarrow> nat" where
  "envelope_size e = letter_size (env_letter e)"

definition envelope_share :: "rpc_envelope \<Rightarrow> rpc_envelope" where
  "envelope_share e = \<lparr>env_letter = letter_share (env_letter e)\<rparr>"

declare set_request_id_def [header_ops] set_status_def [header_ops] mutate_session_def [header_ops]
  envelope_share_def [header_ops] letter_share_def [header_ops]

text \<open>A \<^verbatim>\<open>const char *\<close> argument is an option, None the null pointer.\<close>

definition add_dynamic_header ::
    "bool \<Rightarrow> string option \<Rightarrow> string option \<Rightarrow> rpc_envelope \<Rightarrow> rpc_envelope res" where
  "add_dynamic_header dbg header value e =
     (if dbg \<and> header \<noteq> None then Inl (Runtime_error ''Cannot add header with empty key'')
      else if dbg \<and> value \<noteq> None then Inl (Runtime_error ''Cannot add header with empty value'')
      else case (header, value) of
        (Some k, Some v) \<Rightarrow>
          let m = ltr_dynamic_headers (env_letter e) in
          Inr (e\<lparr>env_letter := (env_letter e)\<lparr>ltr_dynamic_headers :=
                   (if m k = None then m(k \<mapsto> v) else m)\<rparr>\<rparr>)
      | _ \<Rightarrow> Inl (Undefined_behaviour ''string from a null pointer''))"

text \<open>
  \<^verbatim>\<open>rpc_envelope::send\<close> appends its three calls to those already made on the stream.
\<close>

definition rpc_envelope_send ::
    "bool \<Rightarrow> ostream_call list \<Rightarrow> rpc_envelope \<Rightarrow> ostream_call list res" where
  "rpc_envelope_send dbg out e =
     (if dbg \<and> hdr_size (env_header e) = 0 then Inl (Runtime_error ''Invalid header size'')
      else if dbg \<and> hdr_checksum (env_header e) = 0
        then Inl (Runtime_error ''Invalid header checksum'')
      else Inr (out @ [Write (header_bytes (env_header e)), Write (env_body e), Flush]))"

section \<open>Typed envelopes\<close>

record 'native rpc_typed_envelope =
  te_envelope :: rpc_envelope
  te_data :: "'native option"

definition rpc_typed_envelope_new :: "'native \<Rightarrow> 'native rpc_typed_envelope" where
  "rpc_typed_envelope_new d = \<lparr>te_envelope = rpc_envelope_empty, te_data = Some d\<rparr>"

definition native_table_as_buffer :: "('native \<Rightarrow> bytes) \<Rightarrow> 'native \<Rightarrow> bytes" where
  "native_table_as_buffer pack t = pack t"

text \<open>
  \<^verbatim>\<open>serialize_data\<close> returns the filled envelope and leaves the typed envelope without
  data; a second call dereferences the null \<^verbatim>\<open>data\<close>.
\<close>

definition serialize_data ::
    "xxh64 \<Rightarrow> ('native \<Rightarrow> bytes) \<Rightarrow> 'native rpc_typed_envelope \<Rightarrow>
     (rpc_envelope \<times> 'native rpc_typed_envelope) res" where
  "serialize_data xxh pack te = (case te_data te of
       None \<Rightarrow> Inl (Undefined_behaviour ''null data'')
     | Some d \<Rightarrow>
         let body = native_table_as_buffer pack d;
             e = (te_envelope te)\<lparr>env_letter := (env_letter (te_envelope te))\<lparr>ltr_body := body\<rparr>\<rparr>;
             e' = map_header (\<lambda>h. checksum_rpc xxh h body (word_of_nat (length body))) e
         in Inr (e', te\<lparr>te_envelope := e', te_data := None\<rparr>))"

definition futurize_status_for_type :: "'native \<Rightarrow> u32 \<Rightarrow> 'native rpc_typed_envelope" where
  "futurize_status_for_type d status =
     (let data = rpc_typed_envelope_new d
      in data\<lparr>te_envelope := set_status status (te_envelope data)\<rparr>)"

section \<open>Consistent letters\<close>

text \<open>
  The invariant of a letter ready to be sent: its header describes its body.
\<close>

definition consistent_letter :: "xxh64 \<Rightarrow> rpc_letter \<Rightarrow> bool" where
  "consistent_letter xxh l \<longleftrightarrow>
     length (ltr_body l) < 2 ^ 32 \<and>
     hdr_size (ltr_header l) = word_of_nat (length (ltr_body l)) \<and>
     hdr_checksum (ltr_header l) =
       rpc_checksum_payload xxh (ltr_body l) (word_of_nat (length (ltr_body l)))"

lemma unat_word_of_nat_u32 [simp]: "n < 4294967296 \<Longrightarrow> unat (word_of_nat n :: u32) = n"
  by (simp add: unat_of_nat)

lemma checksum_rpc_simps [simp]:
  "hdr_size (checksum_rpc xxh h p n) = n"
  "hdr_checksum (checksum_rpc xxh h p n) = rpc_checksum_payload xxh p n"
  "hdr_compression (checksum_rpc xxh h p n) = hdr_compression h"
  "hdr_bitflags (checksum_rpc xxh h p n) = hdr_bitflags h"
  "hdr_session (checksum_rpc xxh h p n) = hdr_session h"
  "hdr_meta (checksum_rpc xxh h p n) = hdr_meta h"
  by (simp_all add: checksum_rpc_def)

lemma checksum_rpc_consistent:
  "length b < 2 ^ 32 \<Longrightarrow>
   consistent_letter xxh (l\<lparr>ltr_body := b, ltr_header := checksum_rpc xxh h b (word_of_nat (length b))\<rparr>)"
  by (simp add: consistent_letter_def)

lemma consistent_size:
  "consistent_letter xxh l \<Longrightarrow> unat (hdr_size (ltr_header l)) = length (ltr_body l)"
  by (simp add: consistent_letter_def)

end
