(* ===== verification/Rpc_Connection.thy ===== *)
theory Rpc_Connection
  imports Rpc_Envelope
begin

text \<open>
  A connection (rpc_connection.h) and the receiving side (rpc_recv_context.cc): the two
  parsers that turn the byte stream of a connection into requests or replies. The input
  stream is a seastar object, so its operations are an argument: \<open>is_read_exactly s n\<close> is
  the outcome of \<^verbatim>\<open>read_exactly(n)\<close> with the stream after it, \<open>is_eof s\<close> is
  \<^verbatim>\<open>eof()\<close>.
\<close>

section \<open>Connections\<close>

record 'is istream_ops =
  is_read_exactly :: "'is \<Rightarrow> nat \<Rightarrow> bytes res \<times> 'is"
  is_eof :: "'is \<Rightarrow> bool"

text \<open>The calls made on the connected socket, in order.\<close>

datatype socket_call =
    Set_nodelay bool
  | Set_keepalive bool
  | Set_keepalive_parameters nat nat nat
  | Shutdown_input
  | Shutdown_output

type_synonym address = "u32 \<times> u16"

text \<open>
  \<open>conn_limits\<close> is the shared pointer to the limits object, as the identity of that
  object (None the null pointer).
\<close>

record 'is rpc_connection =
  conn_socket :: "socket_call list"
  conn_remote_address :: address
  conn_istream :: 'is
  conn_ostream :: "ostream_call list"
  conn_limits :: "nat option"
  conn_istream_active_parser :: u32
  conn_error :: "string option"
  conn_enabled :: bool

definition rpc_connection_new :: "'is \<Rightarrow> address \<Rightarrow> nat option \<Rightarrow> 'is rpc_connection" where
  "rpc_connection_new input addr limits =
     \<lparr>conn_socket = [Set_nodelay True, Set_keepalive True], conn_remote_address = addr,
      conn_istream = input, conn_ostream = [], conn_limits = limits,
      conn_istream_active_parser = 0, conn_error = None, conn_enabled = True\<rparr>"

definition disable :: "'is rpc_connection \<Rightarrow> 'is rpc_connection" where
  "disable c = c\<lparr>conn_enabled := False\<rparr>"

definition is_enabled :: "'is rpc_connection \<Rightarrow> bool" where
  "is_enabled c = conn_enabled c"

definition has_error :: "'is rpc_connection \<Rightarrow> bool" where
  "has_error c \<longleftrightarrow> conn_error c \<noteq> None"

definition is_valid :: "'is istream_ops \<Rightarrow> 'is rpc_connection \<Rightarrow> bool" where
  "is_valid ops c \<longleftrightarrow> conn_enabled c \<and> \<not> has_error c \<and> \<not> is_eof ops (conn_istream c)"

definition set_error :: "string \<Rightarrow> 'is rpc_connection \<Rightarrow> 'is rpc_connection" where
  "set_error e c = (case conn_error c of
       None \<Rightarrow> c\<lparr>conn_error := Some e\<rparr>
     | Some old \<Rightarrow> c\<lparr>conn_error := Some (old @ '' :: '' @ e)\<rparr>)"

definition get_error :: "'is rpc_connection \<Rightarrow> string" where
  "get_error c = (case conn_error c of None \<Rightarrow> '''' | Some e \<Rightarrow> e)"

definition socket_do :: "socket_call list \<Rightarrow> 'is rpc_connection \<Rightarrow> 'is rpc_connection" where
  "socket_do calls c = c\<lparr>conn_socket := conn_socket c @ calls\<rparr>"

lemma has_error_set_error [simp]: "has_error (set_error e c)"
  by (simp add: has_error_def set_error_def split: option.split)

lemma set_error_frame [simp]:
  "conn_istream (set_error e c) = conn_istream c"
  "conn_ostream (set_error e c) = conn_ostream c"
  "conn_enabled (set_error e c) = conn_enabled c"
  "conn_socket (set_error e c) = conn_socket c"
  "conn_istream_active_parser (set_error e c) = conn_istream_active_parser c"
  by (simp_all add: set_error_def split: option.split)

lemma has_error_frame [simp]:
  "has_error (disable c) = has_error c"
  "has_error (socket_do cs c) = has_error c"
  "has_error (c\<lparr>conn_istream := i\<rparr>) = has_error c"
  "has_error (c\<lparr>conn_ostream := os\<rparr>) = has_error c"
  "has_error (c\<lparr>conn_istream_active_parser := n\<rparr>) = has_error c"
  by (simp_all add: has_error_def disable_def socket_do_def)

lemma not_valid_set_error [simp]: "\<not> is_valid ops (set_error e c)"
  by (simp add: is_valid_def)

lemma not_valid_disable [simp]: "\<not> is_valid ops (disable c)"
  by (simp add: is_valid_def disable_def)

section \<open>Received messages\<close>

record rpc_recv_context =
  ctx_limits :: "nat option"
  ctx_remote_address :: address
  ctx_header :: header
  ctx_payload :: bytes

definition rpc_recv_context_new ::
    "bool \<Rightarrow> nat option \<Rightarrow> address \<Rightarrow> header \<Rightarrow> bytes \<Rightarrow> rpc_recv_context res" where
  "rpc_recv_context_new dbg limits addr hdr body =
     (if dbg \<and> unat (hdr_size hdr) \<noteq> length body then Inl Assertion_failed
      else Inr \<lparr>ctx_limits = limits, ctx_remote_address = addr, ctx_header = hdr,
                ctx_payload = body\<rparr>)"

definition ctx_request_id :: "rpc_recv_context \<Rightarrow> u32" where
  "ctx_request_id ctx = hdr_meta (ctx_header ctx)"

definition ctx_status :: "rpc_recv_context \<Rightarrow> u32" where
  "ctx_status ctx = hdr_meta (ctx_header ctx)"

definition ctx_session :: "rpc_recv_context \<Rightarrow> u16" where
  "ctx_session ctx = hdr_session (ctx_header ctx)"

text \<open>"2GB - 1", the value the comment of \<^verbatim>\<open>max_flatbuffers_size\<close> states.\<close>

definition max_flatbuffers_size :: u32 where
  "max_flatbuffers_size = 0x7FFFFFFF"

section \<open>The header parser\<close>

text \<open>What the continuation of \<^verbatim>\<open>parse_header\<close> does with the bytes read.\<close>

definition parse_header_bytes :: "bytes \<Rightarrow> header option" where
  "parse_header_bytes buf =
     (if kHeaderSize \<noteq> length buf then None
      else let hdr = header_of_bytes buf in
        if hdr_size hdr = 0 then None
        else if sint (hdr_compression hdr) > sint compression_flags_MAX then None
        else if hdr_checksum hdr \<le> 0 then None
        else if hdr_meta hdr \<le> 0 then None
        else if hdr_compression hdr = compression_flags_disabled
          then Some (hdr\<lparr>hdr_compression := compression_flags_none\<rparr>)
        else Some hdr)"

definition parse_header ::
    "bool \<Rightarrow> 'is istream_ops \<Rightarrow> 'is rpc_connection \<Rightarrow> header option res \<times> 'is rpc_connection"
where
  "parse_header dbg ops c =
     (if dbg \<and> conn_istream_active_parser c \<noteq> 0
      then (Inl (Runtime_error
              ''without this line you can have interleaved reads on the buffer''), c)
      else
        let c1 = c\<lparr>conn_istream_active_parser := conn_istream_active_parser c + 1\<rparr>;
            (r, i) = is_read_exactly ops (conn_istream c1) kHeaderSize;
            c2 = c1\<lparr>conn_istream := i\<rparr>;
            c3 = c2\<lparr>conn_istream_active_parser := conn_istream_active_parser c2 - 1\<rparr>
        in (case r of Inl e \<Rightarrow> Inl e | Inr buf \<Rightarrow> Inr (parse_header_bytes buf), c3))"

section \<open>The payload parser\<close>

definition parse_payload_bytes ::
    "bool \<Rightarrow> xxh64 \<Rightarrow> nat option \<Rightarrow> address \<Rightarrow> header \<Rightarrow> bytes \<Rightarrow> rpc_recv_context option res"
where
  "parse_payload_bytes dbg xxh limits addr hdr body =
     (if unat (hdr_size hdr) \<noteq> length body then Inr None
      else if hdr_size hdr > max_flatbuffers_size then Inr None
      else if hdr_bitflags hdr AND header_bit_flags_has_payload_headers \<noteq> 0 then Inr None
      else
        let xx = rpc_checksum_payload xxh body (word_of_nat (length body)) in
        if xx \<noteq> hdr_checksum hdr then Inr None
        else rbind (rpc_recv_context_new dbg limits addr hdr body) (\<lambda>ctx. Inr (Some ctx)))"

definition parse_payload ::
    "bool \<Rightarrow> 'is istream_ops \<Rightarrow> xxh64 \<Rightarrow> 'is rpc_connection \<Rightarrow> header \<Rightarrow>
     rpc_recv_context option res \<times> 'is rpc_connection"
where
  "parse_payload dbg ops xxh c hdr =
     (let (r, i) = is_read_exactly ops (conn_istream c) (unat (hdr_size hdr));
          c' = c\<lparr>conn_istream := i\<rparr>
      in (rbind r (parse_payload_bytes dbg xxh (conn_limits c') (conn_remote_address c') hdr), c'))"

section \<open>What the parsers accept\<close>

lemma word_le_0 [simp]: "(w :: u32) \<le> 0 \<longleftrightarrow> w = 0"
  by auto

text \<open>The headers the parser lets through.\<close>

definition valid_header :: "header \<Rightarrow> bool" where
  "valid_header h \<longleftrightarrow> hdr_size h \<noteq> 0 \<and> sint (hdr_compression h) \<le> 3 \<and>
     hdr_checksum h \<noteq> 0 \<and> hdr_meta h \<noteq> 0"

definition normalise_compression :: "header \<Rightarrow> header" where
  "normalise_compression h =
     (if hdr_compression h = compression_flags_disabled
      then h\<lparr>hdr_compression := compression_flags_none\<rparr> else h)"

lemma normalise_compression_simps [simp]:
  "hdr_size (normalise_compression h) = hdr_size h"
  "hdr_checksum (normalise_compression h) = hdr_checksum h"
  "hdr_meta (normalise_compression h) = hdr_meta h"
  "hdr_bitflags (normalise_compression h) = hdr_bitflags h"
  "hdr_session (normalise_compression h) = hdr_session h"
  by (simp_all add: normalise_compression_def)

lemma sint_flags [simp]: "sint (0 :: byte) = 0" "sint (3 :: byte) = 3" "sint (2 :: byte) = 2"
  by simp_all

lemma parse_header_bytes_eq:
  "parse_header_bytes buf =
     (if length buf = kHeaderSize \<and> valid_header (header_of_bytes buf)
      then Some (normalise_compression (header_of_bytes buf)) else None)"
  by (auto simp: parse_header_bytes_def valid_header_def normalise_compression_def Let_def
      compression_flags_MAX_def compression_flags_lz4_def)

lemma parse_header_bytes_header_bytes:
  "valid_header h \<Longrightarrow> parse_header_bytes (header_bytes h) = Some (normalise_compression h)"
  by (simp add: parse_header_bytes_eq hdr.enc_length hdr.dec_enc)

lemma normalised_not_disabled:
  "hdr_compression (normalise_compression h) \<noteq> compression_flags_disabled"
  by (simp add: normalise_compression_def compression_flags_defs)

lemma parse_header_bytes_SomeD:
  assumes "parse_header_bytes buf = Some h"
  shows "length buf = kHeaderSize" "hdr_size h \<noteq> 0" "hdr_checksum h \<noteq> 0" "hdr_meta h \<noteq> 0"
    "sint (hdr_compression h) \<le> 3" "hdr_compression h \<noteq> compression_flags_disabled"
  using assms
  by (auto simp: parse_header_bytes_eq valid_header_def normalised_not_disabled split: if_splits)
     (auto simp: normalise_compression_def compression_flags_defs split: if_splits)

lemma word_of_nat_length: "unat (w :: u32) = n \<Longrightarrow> word_of_nat n = w"
  by auto

lemma parse_payload_bytes_SomeD:
  assumes "parse_payload_bytes dbg xxh lim addr h body = Inr (Some ctx)"
  shows "ctx_payload ctx = body" "ctx_header ctx = h" "unat (hdr_size h) = length body"
    "hdr_size h \<le> max_flatbuffers_size"
    "hdr_checksum h = rpc_checksum_payload xxh body (hdr_size h)"
    "hdr_bitflags h AND header_bit_flags_has_payload_headers = 0"
    "ctx_remote_address ctx = addr" "ctx_limits ctx = lim"
  using assms
  by (auto simp: parse_payload_bytes_def rpc_recv_context_new_def Let_def rbind_Inr_iff
      split: if_splits) (simp_all add: word_of_nat_length)

section \<open>Streams\<close>

text \<open>
  What the code relies on of \<^verbatim>\<open>seastar::input_stream::read_exactly\<close>: over the bytes still
  to come (\<open>contents\<close>) it returns the first \<open>n\<close> of them, fewer only at the end of the stream,
  and consumes exactly what it returns.
\<close>

definition istream_law :: "'is istream_ops \<Rightarrow> ('is \<Rightarrow> bytes) \<Rightarrow> bool" where
  "istream_law ops contents \<longleftrightarrow>
     (\<forall>s n. fst (is_read_exactly ops s n) = Inr (take n (contents s)) \<and>
            contents (snd (is_read_exactly ops s n)) = drop n (contents s))"

text \<open>A stream over a list of bytes, for evaluation.\<close>

definition list_istream :: "bytes istream_ops" where
  "list_istream = \<lparr>is_read_exactly = (\<lambda>s n. (Inr (take n s), drop n s)), is_eof = (\<lambda>s. False)\<rparr>"

lemma list_istream_law: "istream_law list_istream (\<lambda>s. s)"
  by (simp add: istream_law_def list_istream_def)

text \<open>One message: the header, then the payload in the same continuation chain.\<close>

definition recv_message ::
    "bool \<Rightarrow> 'is istream_ops \<Rightarrow> xxh64 \<Rightarrow> 'is rpc_connection \<Rightarrow>
     rpc_recv_context option res \<times> 'is rpc_connection" where
  "recv_message dbg ops xxh c = (case parse_header dbg ops c of
       (Inl e, c') \<Rightarrow> (Inl e, c')
     | (Inr None, c') \<Rightarrow> (Inr None, c')
     | (Inr (Some h), c') \<Rightarrow> parse_payload dbg ops xxh c' h)"

fun recv_messages ::
    "bool \<Rightarrow> 'is istream_ops \<Rightarrow> xxh64 \<Rightarrow> nat \<Rightarrow> 'is rpc_connection \<Rightarrow>
     rpc_recv_context list \<times> 'is rpc_connection" where
  "recv_messages dbg ops xxh 0 c = ([], c)"
| "recv_messages dbg ops xxh (Suc n) c = (case recv_message dbg ops xxh c of
       (Inr (Some ctx), c') \<Rightarrow>
         (let (rest, c'') = recv_messages dbg ops xxh n c' in (ctx # rest, c''))
     | (_, c') \<Rightarrow> ([], c'))"

text \<open>The envelopes whose bytes the peer accepts.\<close>

definition sendable :: "xxh64 \<Rightarrow> rpc_envelope \<Rightarrow> bool" where
  "sendable xxh e \<longleftrightarrow> consistent_letter xxh (env_letter e) \<and> valid_header (env_header e) \<and>
     length (env_body e) < 2 ^ 31 \<and>
     hdr_bitflags (env_header e) AND header_bit_flags_has_payload_headers = 0"

definition received :: "'is rpc_connection \<Rightarrow> rpc_envelope \<Rightarrow> rpc_recv_context" where
  "received c e = \<lparr>ctx_limits = conn_limits c, ctx_remote_address = conn_remote_address c,
     ctx_header = normalise_compression (env_header e), ctx_payload = env_body e\<rparr>"

lemma parse_header_on_stream:
  assumes law: "istream_law ops contents"
    and idle: "conn_istream_active_parser c = 0"
    and s: "contents (conn_istream c) = header_bytes h @ rest"
    and v: "valid_header h"
  shows "\<exists>i. parse_header dbg ops c = (Inr (Some (normalise_compression h)), c\<lparr>conn_istream := i\<rparr>)
           \<and> contents i = rest"
proof -
  obtain r i where ri: "is_read_exactly ops (conn_istream c) kHeaderSize = (r, i)"
    by fastforce
  from law have "fst (is_read_exactly ops (conn_istream c) kHeaderSize) =
      Inr (take kHeaderSize (contents (conn_istream c)))"
    and "contents (snd (is_read_exactly ops (conn_istream c) kHeaderSize)) =
      drop kHeaderSize (contents (conn_istream c))"
    unfolding istream_law_def by blast+
  then have r: "r = Inr (header_bytes h)" and i: "contents i = rest"
    unfolding s hdr.take_enc hdr.drop_enc ri by simp_all
  have "parse_header dbg ops c =
      (Inr (Some (normalise_compression h)), c\<lparr>conn_istream := i\<rparr>)"
    using ri r idle by (simp add: parse_header_def parse_header_bytes_header_bytes [OF v])
  with i show ?thesis by blast
qed

lemma parse_payload_on_stream:
  assumes law: "istream_law ops contents"
    and s: "contents (conn_istream c) = body @ rest"
    and sz: "hdr_size h = word_of_nat (length body)" "length body < 2 ^ 31"
    and ck: "hdr_checksum h = rpc_checksum_payload xxh body (hdr_size h)"
    and bf: "hdr_bitflags h AND header_bit_flags_has_payload_headers = 0"
  shows "\<exists>i. parse_payload dbg ops xxh c h =
      (Inr (Some \<lparr>ctx_limits = conn_limits c, ctx_remote_address = conn_remote_address c,
        ctx_header = h, ctx_payload = body\<rparr>), c\<lparr>conn_istream := i\<rparr>) \<and> contents i = rest"
proof -
  have n: "unat (hdr_size h) = length body" using sz by simp
  obtain r i where ri: "is_read_exactly ops (conn_istream c) (unat (hdr_size h)) = (r, i)"
    by fastforce
  from law have "fst (is_read_exactly ops (conn_istream c) (unat (hdr_size h))) =
      Inr (take (unat (hdr_size h)) (contents (conn_istream c)))"
    and "contents (snd (is_read_exactly ops (conn_istream c) (unat (hdr_size h)))) =
      drop (unat (hdr_size h)) (contents (conn_istream c))"
    unfolding istream_law_def by blast+
  then have r: "r = Inr body" and i: "contents i = rest"
    using ri s n by simp_all
  have "\<not> max_flatbuffers_size < hdr_size h"
    using sz(2) n by (simp add: max_flatbuffers_size_def word_less_nat_alt)
  then have "parse_payload_bytes dbg xxh lim a h body =
      Inr (Some \<lparr>ctx_limits = lim, ctx_remote_address = a, ctx_header = h, ctx_payload = body\<rparr>)"
    for lim a
    using n ck bf sz(1) by (simp add: parse_payload_bytes_def rpc_recv_context_new_def)
  then show ?thesis using ri r i by (auto simp: parse_payload_def)
qed

lemma recv_message_on_stream:
  assumes law: "istream_law ops contents"
    and idle: "conn_istream_active_parser c = 0"
    and s: "contents (conn_istream c) = header_bytes (env_header e) @ env_body e @ rest"
    and ok: "sendable xxh e"
  shows "\<exists>i. recv_message dbg ops xxh c = (Inr (Some (received c e)), c\<lparr>conn_istream := i\<rparr>) \<and>
           contents i = rest"
proof -
  let ?h = "normalise_compression (env_header e)"
  from ok have v: "valid_header (env_header e)" and cl: "consistent_letter xxh (env_letter e)"
    and len: "length (env_body e) < 2 ^ 31"
    and bf: "hdr_bitflags ?h AND header_bit_flags_has_payload_headers = 0"
    by (simp_all add: sendable_def)
  obtain i where i: "parse_header dbg ops c = (Inr (Some ?h), c\<lparr>conn_istream := i\<rparr>)"
      "contents i = env_body e @ rest"
    using parse_header_on_stream [OF law idle s v] by blast
  have "hdr_size ?h = word_of_nat (length (env_body e))"
    "hdr_checksum ?h = rpc_checksum_payload xxh (env_body e) (hdr_size ?h)"
    using cl by (simp_all add: consistent_letter_def)
  from parse_payload_on_stream [OF law _ this(1) len this(2) bf,
      of "c\<lparr>conn_istream := i\<rparr>" rest dbg] i
  obtain j where "parse_payload dbg ops xxh (c\<lparr>conn_istream := i\<rparr>) ?h =
      (Inr (Some (received c e)), c\<lparr>conn_istream := j\<rparr>)" "contents j = rest"
    by (auto simp: received_def)
  with i show ?thesis by (auto simp: recv_message_def)
qed

section \<open>A sequence of messages\<close>

text \<open>
  Writers hold the connection's write semaphore, so the calls of one \<^verbatim>\<open>send\<close> follow those
  of another without interleaving.
\<close>

fun send_all :: "bool \<Rightarrow> ostream_call list \<Rightarrow> rpc_envelope list \<Rightarrow> ostream_call list res" where
  "send_all dbg out [] = Inr out"
| "send_all dbg out (e # es) = rbind (rpc_envelope_send dbg out e) (\<lambda>out'. send_all dbg out' es)"

lemma rpc_envelope_send_sendable:
  "sendable xxh e \<Longrightarrow> rpc_envelope_send dbg out e =
     Inr (out @ [Write (header_bytes (env_header e)), Write (env_body e), Flush])"
  by (simp add: rpc_envelope_send_def sendable_def valid_header_def)

lemma recv_sent:
  assumes "istream_law ops pending" "conn_istream_active_parser c = 0" "sendable xxh e"
    "rpc_envelope_send dbg' [] e = Inr out" "pending (conn_istream c) = wire_bytes out @ rest"
  shows "\<exists>j. recv_message dbg ops xxh c = (Inr (Some (received c e)), c\<lparr>conn_istream := j\<rparr>) \<and> pending j = rest"
proof -
  have "wire_bytes out = header_bytes (env_header e) @ env_body e"
    using assms(4) rpc_envelope_send_sendable [OF assms(3), of dbg' "[]"] by auto
  with assms(5) show ?thesis using recv_message_on_stream [OF assms(1,2) _ assms(3)] by simp
qed

lemma send_all_calls:
  "list_all (sendable xxh) es \<Longrightarrow> send_all dbg out es = Inr (out @ concat (map
     (\<lambda>e. [Write (header_bytes (env_header e)), Write (env_body e), Flush]) es))"
  by (induction es arbitrary: out) (simp_all add: rpc_envelope_send_sendable [where xxh = xxh])

lemma wire_bytes_calls:
  "wire_bytes (concat (map (\<lambda>e. [Write (header_bytes (env_header e)), Write (env_body e), Flush]) es)) =
     concat (map (\<lambda>e. header_bytes (env_header e) @ env_body e) es)"
  by (induction es) simp_all

lemma received_istream [simp]: "received (c\<lparr>conn_istream := i\<rparr>) e = received c e"
  by (simp add: received_def)

lemma recv_messages_on_stream:
  assumes law: "istream_law ops contents"
  shows "conn_istream_active_parser c = 0 \<Longrightarrow> list_all (sendable xxh) es \<Longrightarrow>
    contents (conn_istream c) = concat (map (\<lambda>e. header_bytes (env_header e) @ env_body e) es) @ rest \<Longrightarrow>
    \<exists>i. recv_messages dbg ops xxh (length es) c = (map (received c) es, c\<lparr>conn_istream := i\<rparr>) \<and>
        contents i = rest"
proof (induction es arbitrary: c)
  case Nil
  then show ?case by (intro exI [of _ "conn_istream c"]) simp
next
  case (Cons e es)
  let ?more = "concat (map (\<lambda>e. header_bytes (env_header e) @ env_body e) es) @ rest"
  from Cons.prems have "sendable xxh e"
    and "contents (conn_istream c) = header_bytes (env_header e) @ env_body e @ ?more" by simp_all
  then obtain i where i: "recv_message dbg ops xxh c = (Inr (Some (received c e)), c\<lparr>conn_istream := i\<rparr>)"
      "contents i = ?more"
    using recv_message_on_stream [OF law Cons.prems(1)] by blast
  with Cons.prems Cons.IH [of "c\<lparr>conn_istream := i\<rparr>"]
  obtain j where "recv_messages dbg ops xxh (length es) (c\<lparr>conn_istream := i\<rparr>) =
      (map (received c) es, c\<lparr>conn_istream := j\<rparr>)" "contents j = rest"
    by (auto simp: fun_eq_iff)
  with i show ?case by auto
qed

section \<open>Properties\<close>

text \<open>
  C3: what one side sends is what the other receives. If a peer sends any list of envelopes
  whose headers describe their bodies (\<open>sendable\<close>), the concatenated bytes are parsed back by
  \<^verbatim>\<open>parse_header\<close> and \<^verbatim>\<open>parse_payload\<close> into exactly one context per envelope, in
  order, each with the sent header (a \<^verbatim>\<open>disabled\<close> compression read as \<^verbatim>\<open>none\<close>) and
  the sent body, and the bytes that follow are untouched.
\<close>

theorem send_recv_roundtrip:
  assumes "istream_law ops contents"
    and "conn_istream_active_parser c = 0"
    and "list_all (sendable xxh) es"
    and "send_all dbg [] es = Inr out"
    and "contents (conn_istream c) = wire_bytes out @ rest"
  shows "\<exists>i. recv_messages dbg' ops xxh (length es) c = (map (received c) es, c\<lparr>conn_istream := i\<rparr>) \<and>
    contents i = rest"
proof -
  from send_all_calls [OF assms(3), of dbg "[]"] assms(4)
  have "wire_bytes out = concat (map (\<lambda>e. header_bytes (env_header e) @ env_body e) es)"
    using wire_bytes_calls by auto
  with assms(5) show ?thesis
    using recv_messages_on_stream [OF assms(1,2,3), of rest dbg'] by simp
qed

definition example_xxh :: xxh64 where
  "example_xxh bs seed = 7"

definition example_envelope :: rpc_envelope where
  "example_envelope = \<lparr>env_letter = \<lparr>ltr_header = \<lparr>hdr_compression = 1, hdr_bitflags = 0,
     hdr_session = 3, hdr_size = 2, hdr_checksum = 7, hdr_meta = 200\<rparr>,
     ltr_dynamic_headers = Map.empty, ltr_body = [104, 105]\<rparr>\<rparr>"

lemma example_sendable: "sendable example_xxh example_envelope"
  by (simp add: sendable_def consistent_letter_def valid_header_def example_envelope_def
      rpc_checksum_payload_def example_xxh_def)

theorem send_recv_roundtrip_witness:
  "\<exists>i out. send_all True [] [example_envelope, example_envelope] = Inr out \<and>
     recv_messages True list_istream example_xxh 2
       (rpc_connection_new (wire_bytes out @ [9]) (0, 0) None) =
     (map (received (rpc_connection_new (wire_bytes out @ [9]) (0, 0) None))
        [example_envelope, example_envelope],
      (rpc_connection_new (wire_bytes out @ [9]) (0, 0) None)\<lparr>conn_istream := i\<rparr>) \<and> i = [9]"
proof -
  have s: "list_all (sendable example_xxh) [example_envelope, example_envelope]"
    by (simp add: example_sendable)
  obtain out where out: "send_all True [] [example_envelope, example_envelope] = Inr out"
    using send_all_calls [OF s, of True "[]"] by blast
  show ?thesis
    using send_recv_roundtrip [OF list_istream_law _ s out,
        of "rpc_connection_new (wire_bytes out @ [9]) (0, 0) None" "[9]" True] out
    by (auto simp: rpc_connection_new_def numeral_2_eq_2)
qed



end
