(* ===== verification/Smfc_Service.thy ===== *)
theory Smfc_Service
  imports Rpc_Connection
begin

text \<open>
  The services smfc compiles (smf_method.h, smf_service.h, generator.h) and what the C++ code
  it prints for them does: the method table and the dispatch function of the service class and
  the stub of the client class (cpp_generator.cc). The flatbuffers schema objects are records
  with the fields the code reads; boost's crc and join are arguments.
\<close>

section \<open>Schema objects\<close>

datatype language = Lang_none | Lang_cpp | Lang_go | Lang_python | Lang_all

record struct_def =
  sd_name :: string
  sd_namespace :: "string list"

record rpc_call =
  call_name :: string
  call_request :: struct_def
  call_response :: struct_def

record service_def =
  sdef_name :: string
  sdef_namespace :: "string list"
  sdef_calls :: "rpc_call list"
  sdef_generated :: bool

text \<open>\<^verbatim>\<open>boost::crc_32_type\<close> over a string and \<^verbatim>\<open>boost::algorithm::join\<close>.\<close>

record boost_lib =
  boost_crc_32 :: "string \<Rightarrow> u32"
  boost_join :: "string list \<Rightarrow> string \<Rightarrow> string"

definition crc32 :: "boost_lib \<Rightarrow> string \<Rightarrow> u32" where
  "crc32 B data = boost_crc_32 B data"

section \<open>Methods\<close>

definition type_cpp :: "boost_lib \<Rightarrow> struct_def \<Rightarrow> string" where
  "type_cpp B sd = boost_join B (sd_namespace sd @ [sd_name sd]) ''::''"

definition smf_method_type :: "boost_lib \<Rightarrow> struct_def \<Rightarrow> language \<Rightarrow> string res" where
  "smf_method_type B sd lang = (case lang of
       Lang_cpp \<Rightarrow> Inr (type_cpp B sd)
     | Lang_go \<Rightarrow> Inr (sd_name sd)
     | Lang_python \<Rightarrow> Inr (boost_join B (sd_namespace sd @ [sd_name sd, sd_name sd]) ''.'')
     | _ \<Rightarrow> Inl (Runtime_error ''Unknown language for the method.h''))"

record smf_method =
  m_call :: rpc_call
  m_service_name :: string
  m_service_id :: u32
  m_id :: u32

definition smf_method_new :: "boost_lib \<Rightarrow> rpc_call \<Rightarrow> string \<Rightarrow> u32 \<Rightarrow> smf_method" where
  "smf_method_new B call service_name service_id =
     (let method_id_str = call_name call @ '':'' @ type_cpp B (call_request call) @ '':'' @
            type_cpp B (call_response call)
      in \<lparr>m_call = call, m_service_name = service_name, m_service_id = service_id,
          m_id = crc32 B method_id_str\<rparr>)"

definition m_name :: "smf_method \<Rightarrow> string" where
  "m_name m = call_name (m_call m)"

definition input_type_name :: "boost_lib \<Rightarrow> smf_method \<Rightarrow> language \<Rightarrow> string res" where
  "input_type_name B m l = smf_method_type B (call_request (m_call m)) l"

definition output_type_name :: "boost_lib \<Rightarrow> smf_method \<Rightarrow> language \<Rightarrow> string res" where
  "output_type_name B m l = smf_method_type B (call_response (m_call m)) l"

section \<open>Services\<close>

record smf_service =
  s_def :: service_def
  s_id :: u32
  s_methods :: "smf_method list"

definition smf_service_new :: "boost_lib \<Rightarrow> service_def \<Rightarrow> smf_service" where
  "smf_service_new B d =
     (let sid = crc32 B (sdef_name d)
      in \<lparr>s_def = d, s_id = sid,
          s_methods = map (\<lambda>call. smf_method_new B call (sdef_name d) sid) (sdef_calls d)\<rparr>)"

definition s_name :: "smf_service \<Rightarrow> string" where
  "s_name s = sdef_name (s_def s)"

text \<open>The constructor of \<^verbatim>\<open>generator\<close>: services of included files are left out.\<close>

definition generator_services :: "boost_lib \<Rightarrow> service_def list \<Rightarrow> smf_service list" where
  "generator_services B ds = map (smf_service_new B) (filter (\<lambda>d. \<not> sdef_generated d) ds)"

lemma smf_service_new_simps [simp]:
  "s_id (smf_service_new B d) = crc32 B (sdef_name d)"
  "s_name (smf_service_new B d) = sdef_name d"
  "length (s_methods (smf_service_new B d)) = length (sdef_calls d)"
  by (simp_all add: smf_service_new_def s_name_def Let_def)

lemma methods_carry_service_id:
  "m \<in> set (s_methods (smf_service_new B d)) \<Longrightarrow> m_service_id m = crc32 B (sdef_name d)"
  by (auto simp: smf_service_new_def smf_method_new_def Let_def)

section \<open>The generated service class\<close>

type_synonym handle = "rpc_recv_context \<Rightarrow> rpc_envelope res"

text \<open>
  The typed context handed to a user's method: the optional context, with the root table of
  its payload (\<^verbatim>\<open>flatbuffers::GetMutableRoot\<close>, an argument) as \<^verbatim>\<open>cache_\<close>.
\<close>

record 't rpc_recv_typed_context =
  tc_ctx :: "rpc_recv_context option"
  tc_cache :: "'t option"

definition rpc_recv_typed_context_new ::
    "(bytes \<Rightarrow> 't) \<Rightarrow> rpc_recv_context option \<Rightarrow> 't rpc_recv_typed_context" where
  "rpc_recv_typed_context_new root t =
     \<lparr>tc_ctx = t, tc_cache = map_option (\<lambda>c. root (ctx_payload c)) t\<rparr>"

definition typed_context_bool :: "'t rpc_recv_typed_context \<Rightarrow> bool" where
  "typed_context_bool tc \<longleftrightarrow> tc_ctx tc \<noteq> None"

definition verify_fbs :: "(bytes \<Rightarrow> bool) \<Rightarrow> 't rpc_recv_typed_context \<Rightarrow> bool" where
  "verify_fbs verifier tc =
     (if \<not> typed_context_bool tc then False
      else verifier (ctx_payload (the (tc_ctx tc))))"

text \<open>
  The default body of a method that the user does not override: status 501 over an empty
  reply.
\<close>

definition default_method :: "'n \<Rightarrow> 't rpc_recv_typed_context \<Rightarrow> 'n rpc_typed_envelope res" where
  "default_method d rec =
     (let data = rpc_typed_envelope_new d
      in Inr (data\<lparr>te_envelope := set_status 501 (te_envelope data)\<rparr>))"

definition raw_method ::
    "xxh64 \<Rightarrow> (bytes \<Rightarrow> 't) \<Rightarrow> ('n \<Rightarrow> bytes) \<Rightarrow>
     ('t rpc_recv_typed_context \<Rightarrow> 'n rpc_typed_envelope res) \<Rightarrow> handle" where
  "raw_method xxh root pack method c =
     rbind (method (rpc_recv_typed_context_new root (Some c)))
       (\<lambda>x. rbind (serialize_data xxh pack x) (\<lambda>(e, _). Inr e))"

text \<open>The handle of the table \<^verbatim>\<open>handles_\<close>: the reply carries the session of its request.\<close>

definition generated_handle :: "handle \<Rightarrow> handle" where
  "generated_handle raw c =
     (let session_id = ctx_session c
      in rbind (raw c) (\<lambda>e. Inr (mutate_session session_id e)))"

definition request_id_of :: "smf_method \<Rightarrow> u32" where
  "request_id_of m = xor (m_service_id m) (m_id m)"

text \<open>
  The member \<^verbatim>\<open>handles_\<close>, one handle per method in the order of the schema; \<open>raws i\<close> is
  the (virtual) raw method of the \<open>i\<close>th method.
\<close>

definition generated_handles :: "smf_service \<Rightarrow> (nat \<Rightarrow> handle) \<Rightarrow> handle list" where
  "generated_handles s raws = map (\<lambda>i. generated_handle (raws i)) [0..<length (s_methods s)]"

text \<open>The switch of \<^verbatim>\<open>method_for_request_id\<close>: one case per method, in order.\<close>

fun generated_switch :: "smf_method list \<Rightarrow> nat \<Rightarrow> handle list \<Rightarrow> u32 \<Rightarrow> handle option" where
  "generated_switch [] i handles idx = None"
| "generated_switch (m # ms) i handles idx =
     (if idx = request_id_of m
      then (if i < length handles then Some (handles ! i) else None)
      else generated_switch ms (Suc i) handles idx)"

definition method_for_request_id :: "smf_service \<Rightarrow> (nat \<Rightarrow> handle) \<Rightarrow> u32 \<Rightarrow> handle option" where
  "method_for_request_id s raws idx =
     generated_switch (s_methods s) 0 (generated_handles s raws) idx"

text \<open>The client's stub for a method: set the request id, then send.\<close>

definition client_stub :: "smf_method \<Rightarrow> rpc_envelope \<Rightarrow> rpc_envelope" where
  "client_stub m e = set_request_id (xor (m_service_id m) (m_id m)) e"

declare client_stub_def [header_ops]

section \<open>Interface: a service\<close>

text \<open>
  What the router relies on: a service answers a request id from a fixed table, the first
  entry of an id winning.
\<close>

locale service =
  fixes lookup :: "u32 \<Rightarrow> handle option"
    and table :: "(u32 \<times> handle) list"
  assumes lookup_table: "lookup idx = map_of table idx"
begin

lemma lookup_hit: "distinct (map fst table) \<Longrightarrow> (idx, h) \<in> set table \<Longrightarrow> lookup idx = Some h"
  by (simp add: lookup_table)

lemma lookup_miss: "idx \<notin> fst ` set table \<Longrightarrow> lookup idx = None"
  by (simp add: lookup_table map_of_eq_None_iff)

end

lemma generated_switch_table:
  "i + length ms \<le> length handles \<Longrightarrow>
   generated_switch ms i handles idx = map_of (zip (map request_id_of ms) (drop i handles)) idx"
proof (induction ms arbitrary: i)
  case Nil
  show ?case by simp
next
  case (Cons m ms)
  then have "drop i handles = handles ! i # drop (Suc i) handles"
    by (simp add: Cons_nth_drop_Suc)
  with Cons show ?case by simp
qed

definition generated_table :: "smf_service \<Rightarrow> (nat \<Rightarrow> handle) \<Rightarrow> (u32 \<times> handle) list" where
  "generated_table s raws = zip (map request_id_of (s_methods s)) (generated_handles s raws)"

interpretation generated: service "method_for_request_id s raws" "generated_table s raws"
  for s raws
  by unfold_locales
    (simp add: method_for_request_id_def generated_table_def generated_switch_table
      generated_handles_def)

lemma map_fst_generated_table [simp]:
  "map fst (generated_table s raws) = map request_id_of (s_methods s)"
  by (simp add: generated_table_def generated_handles_def)

lemma generated_table_nth:
  "i < length (s_methods s) \<Longrightarrow>
   (request_id_of (s_methods s ! i), generated_handle (raws i)) \<in> set (generated_table s raws)"
  by (auto simp: generated_table_def generated_handles_def in_set_zip intro!: exI [of _ i])

lemma generated_service_lookup:
  assumes "distinct (map request_id_of (s_methods s))" "i < length (s_methods s)"
  shows "method_for_request_id s raws (request_id_of (s_methods s ! i)) = Some (generated_handle (raws i))"
  using generated.lookup_hit [of s raws] generated_table_nth [OF assms(2), of raws] assms(1)
  by (metis map_fst_generated_table)

lemma raw_method_reply:
  assumes "um (rpc_recv_typed_context_new root (Some q)) = Inr te" "te_data te = Some d"
    "length (pack d) < 2 ^ 32"
  shows "\<exists>r. generated_handle (raw_method xxh root pack um) q = Inr r \<and> env_body r = pack d \<and>
    hdr_session (env_header r) = ctx_session q \<and> hdr_meta (env_header r) = hdr_meta (env_header (te_envelope te))"
  using assms
  by (simp add: generated_handle_def raw_method_def serialize_data_def native_table_as_buffer_def
      mutate_session_def Let_def)

section \<open>Properties\<close>

text \<open>
  The generated client and the generated server agree. For a service whose request ids
  differ (as the switch of the generated code requires), the id the client stub of a method
  puts in the envelope selects that method's handle on the server, and no other method's.
\<close>

lemma client_stub_reaches_method:
  assumes "distinct (map request_id_of (s_methods s))"
    and "i < length (s_methods s)"
  shows "method_for_request_id s raws (hdr_meta (env_header (client_stub (s_methods s ! i) e))) =
    Some (generated_handle (raws i))"
proof -
  have "hdr_meta (env_header (client_stub (s_methods s ! i) e)) = request_id_of (s_methods s ! i)"
    by (simp add: client_stub_def set_request_id_def request_id_of_def)
  then show ?thesis using generated_service_lookup [OF assms] by simp
qed

definition example_boost :: boost_lib where
  "example_boost = \<lparr>boost_crc_32 = (\<lambda>s. word_of_nat (length s)), boost_join = (\<lambda>xs sep. concat xs)\<rparr>"

definition example_service :: smf_service where
  "example_service = smf_service_new example_boost
     \<lparr>sdef_name = ''Storage'', sdef_namespace = [''demo''],
      sdef_calls = [
        \<lparr>call_name = ''Get'', call_request = \<lparr>sd_name = ''Request'', sd_namespace = []\<rparr>,
         call_response = \<lparr>sd_name = ''Response'', sd_namespace = []\<rparr>\<rparr>,
        \<lparr>call_name = ''Remove'', call_request = \<lparr>sd_name = ''Request'', sd_namespace = []\<rparr>,
         call_response = \<lparr>sd_name = ''Response'', sd_namespace = []\<rparr>\<rparr>],
      sdef_generated = False\<rparr>"

lemma example_service_ids: "map request_id_of (s_methods example_service) = [19, 16]"
  by (simp add: example_service_def example_boost_def smf_service_new_def smf_method_new_def
      request_id_of_def crc32_def type_cpp_def)

lemma client_stub_reaches_method_witness:
  "method_for_request_id example_service (\<lambda>i c. Inr rpc_envelope_empty)
     (hdr_meta (env_header (client_stub (s_methods example_service ! 1) rpc_envelope_empty))) =
   Some (generated_handle (\<lambda>c. Inr rpc_envelope_empty))"
proof (rule client_stub_reaches_method)
  show "distinct (map request_id_of (s_methods example_service))"
    by (simp add: example_service_ids)
  have "length (map request_id_of (s_methods example_service)) = 2"
    by (simp add: example_service_ids)
  then show "1 < length (s_methods example_service)" by simp
qed

text \<open>
  Every reply of a generated handle is well formed. If the user's method returns a typed
  envelope that still holds its data, the handle returns the serialised data in a letter whose
  header describes it, with the session of the request, whatever session the user left there,
  and the status the user chose.
\<close>

lemma generated_reply:
  assumes "method (rpc_recv_typed_context_new root (Some c)) = Inr te"
    and "te_data te = Some d"
    and "length (pack d) < 2 ^ 32"
  shows "\<exists>e. generated_handle (raw_method xxh root pack method) c = Inr e \<and>
    consistent_letter xxh (env_letter e) \<and> env_body e = pack d \<and>
    hdr_session (env_header e) = ctx_session c \<and>
    hdr_meta (env_header e) = hdr_meta (env_header (te_envelope te))"
  using assms
  by (simp add: generated_handle_def raw_method_def serialize_data_def native_table_as_buffer_def
      mutate_session_def consistent_letter_def Let_def)

lemma generated_reply_witness:
  "\<exists>e. generated_handle (raw_method example_xxh (\<lambda>bs. bs) (\<lambda>n. replicate n 5)
       (\<lambda>tc. Inr (rpc_typed_envelope_new 3)))
     \<lparr>ctx_limits = None, ctx_remote_address = (0, 0), ctx_header = default_header\<lparr>hdr_session := 77\<rparr>,
      ctx_payload = []\<rparr> = Inr e \<and> hdr_session (env_header e) = 77 \<and> env_body e = [5, 5, 5] \<and>
     consistent_letter example_xxh (env_letter e)"
  using generated_reply [of "\<lambda>tc. Inr (rpc_typed_envelope_new 3)" "\<lambda>bs. bs"
      "\<lparr>ctx_limits = None, ctx_remote_address = (0, 0), ctx_header = default_header\<lparr>hdr_session := 77\<rparr>,
      ctx_payload = []\<rparr>" "rpc_typed_envelope_new 3" "3 :: nat" "\<lambda>n. replicate n 5" example_xxh]
  by (auto simp: rpc_typed_envelope_new_def ctx_session_def numeral_3_eq_3)

end
