(* ===== verification/Rpc_Router.thy ===== *)
theory Rpc_Router
  imports Smfc_Service
begin

text \<open>
  The router of a server (rpc_handle_router.cc): the registered services, asked in order. It
  relies on each service through the interface \<open>service\<close>; its abstract specification is one
  table from request ids to handles.
\<close>

record rpc_service =
  svc_service_name :: string
  svc_service_id :: u32
  svc_method_for_request_id :: "u32 \<Rightarrow> handle option"

type_synonym rpc_handle_router = "rpc_service list"

fun get_handle_for_request :: "rpc_handle_router \<Rightarrow> u32 \<Rightarrow> handle option" where
  "get_handle_for_request [] request_id = None"
| "get_handle_for_request (p # services) request_id =
     (case svc_method_for_request_id p request_id of
        Some x \<Rightarrow> Some x
      | None \<Rightarrow> get_handle_for_request services request_id)"

definition register_service :: "rpc_service option \<Rightarrow> rpc_handle_router \<Rightarrow> rpc_handle_router res" where
  "register_service s services = (case s of
       None \<Rightarrow> Inl Assertion_failed
     | Some p \<Rightarrow> Inr (services @ [p]))"

text \<open>The class the generator prints for a service, as the router sees it.\<close>

definition generated_service :: "smf_service \<Rightarrow> (nat \<Rightarrow> handle) \<Rightarrow> rpc_service" where
  "generated_service s raws =
     \<lparr>svc_service_name = s_name s, svc_service_id = s_id s,
      svc_method_for_request_id = method_for_request_id s raws\<rparr>"

lemma get_handle_append:
  "get_handle_for_request (ss @ ts) idx = (case get_handle_for_request ss idx of
      Some h \<Rightarrow> Some h | None \<Rightarrow> get_handle_for_request ts idx)"
  by (induction ss) (auto split: option.split)

lemma router_table:
  assumes "list_all2 (\<lambda>p t. service (svc_method_for_request_id p) t) ss ts"
  shows "get_handle_for_request ss idx = map_of (concat ts) idx"
  using assms
proof (induction rule: list_all2_induct)
  case Nil
  show ?case by simp
next
  case (Cons p ss t ts)
  from service.lookup_table [OF Cons(1)] Cons(3) show ?case
    by (simp add: map_of_append map_add_def split: option.split)
qed

lemma generated_services_tables:
  "list_all2 (\<lambda>p t. service (svc_method_for_request_id p) t)
     (map (\<lambda>(s, raws). generated_service s raws) gs)
     (map (\<lambda>(s, raws). generated_table s raws) gs)"
  by (induction gs) (auto simp: generated_service_def generated.service_axioms)

section \<open>Properties\<close>

text \<open>
  C14: the router refines one flat table. For any list of generated services, looking a request
  id up through the router is looking it up in the concatenation of the services' method
  tables, the first entry winning: a request reaches a method if and only if some registered
  service has a method with that id, and it is the first such method.
\<close>

theorem router_refines_table:
  "get_handle_for_request (map (\<lambda>(s, raws). generated_service s raws) gs) idx =
   map_of (concat (map (\<lambda>(s, raws). generated_table s raws) gs)) idx"
  by (rule router_table [OF generated_services_tables])

text \<open>
  Registering a service never takes a request away from a service registered before it,
  and a request no earlier service handles goes to the new one.
\<close>

lemma register_service_extends:
  assumes "register_service s services = Inr services'"
  shows "get_handle_for_request services' idx = (case get_handle_for_request services idx of
      Some h \<Rightarrow> Some h | None \<Rightarrow> svc_method_for_request_id (the s) idx)"
  using assms
  by (auto simp: register_service_def get_handle_append split: option.splits)

lemma register_service_extends_witness:
  "\<exists>services'. register_service (Some (generated_service example_service (\<lambda>i c. Inr rpc_envelope_empty)))
      [generated_service example_service (\<lambda>i c. Inl Gate_closed)] = Inr services' \<and>
    get_handle_for_request services' 16 = Some (generated_handle (\<lambda>c. Inl Gate_closed))"
proof -
  let ?old = "[generated_service example_service (\<lambda>i c. Inl Gate_closed)]"
  let ?s = "Some (generated_service example_service (\<lambda>i c. Inr rpc_envelope_empty))"
  have r: "register_service ?s ?old = Inr (?old @ [the ?s])"
    by (simp add: register_service_def)
  have ids: "map request_id_of (s_methods example_service) = [19, 16]"
    by (rule example_service_ids)
  have "length (s_methods example_service) = 2"
    using arg_cong [OF ids, of length] by simp
  then have "generated_table example_service (\<lambda>i c. Inl Gate_closed) =
      [(19, generated_handle (\<lambda>c. Inl Gate_closed)), (16, generated_handle (\<lambda>c. Inl Gate_closed))]"
    by (simp add: generated_table_def ids generated_handles_def numeral_2_eq_2)
  then have "get_handle_for_request ?old 16 = Some (generated_handle (\<lambda>c. Inl Gate_closed))"
    by (simp add: generated_service_def generated.lookup_table)
  with register_service_extends [OF r, of 16] r show ?thesis by auto
qed

end
