(* ===== verification/Compression.thy ===== *)
theory Compression
  imports Rpc_Connection
begin

text \<open>
  The codecs of compression.cc, the compression filters of lz4_filter.cc and zstd_filter.cc,
  and the filter chain of rpc_filter.h. The zstd and lz4 libraries and seastar's byte order
  helpers are arguments (\<open>zstd_lib\<close>, \<open>lz4_lib\<close>); \<open>zstd_law\<close> and \<open>lz4_law\<close> state the
  documented behaviour the code relies on.
\<close>

section \<open>zstd\<close>

text \<open>
  A call that writes to a buffer returns its return code and the contents of that buffer.
  A \<^verbatim>\<open>size_t\<close> is a \<open>nat\<close>; the error codes of zstd are large values of that type.
\<close>

record zstd_lib =
  ZSTD_findDecompressedSize :: "bytes \<Rightarrow> nat"
  ZSTD_CONTENTSIZE_ERROR :: nat
  ZSTD_CONTENTSIZE_UNKNOWN :: nat
  ZSTD_decompress :: "nat \<Rightarrow> bytes \<Rightarrow> nat \<times> bytes"
  ZSTD_compressBound :: "nat \<Rightarrow> nat"
  ZSTD_compress :: "nat \<Rightarrow> bytes \<Rightarrow> nat \<Rightarrow> nat \<times> bytes"
  ZSTD_isError :: "nat \<Rightarrow> bool"

definition zstd_codec_uncompress :: "zstd_lib \<Rightarrow> bytes \<Rightarrow> bytes res" where
  "zstd_codec_uncompress L data =
     (let zstd_size = ZSTD_findDecompressedSize L data in
      if zstd_size = ZSTD_CONTENTSIZE_ERROR L
        then Inl (Runtime_error ''Cannot decompress. Not compressed by zstd'')
      else if zstd_size = ZSTD_CONTENTSIZE_UNKNOWN L
        then Inl (Runtime_error ''Cannot decompress. Unknown payload size'')
      else
        let (size_decompressed, new_body) = ZSTD_decompress L zstd_size data in
        if zstd_size \<noteq> size_decompressed then Inl (Runtime_error ''zstd decompression failed'')
        else Inr new_body)"

definition zstd_codec_compress :: "zstd_lib \<Rightarrow> bytes \<Rightarrow> bytes res" where
  "zstd_codec_compress L data =
     (let body_size = ZSTD_compressBound L (length data);
          (zstd_compressed_size, buf) = ZSTD_compress L body_size data 3
      in if ZSTD_isError L zstd_compressed_size
           then Inl (Runtime_error ''Error compressing zstd buffer. defaulting to uncompressed'')
         else Inr (take zstd_compressed_size buf))"

text \<open>
  zstd.h: compressing into a buffer of \<^verbatim>\<open>ZSTD_compressBound\<close> bytes succeeds; the frame
  records the size of its content; decompressing it into a buffer of that size restores it. The
  two special sizes are not sizes of data that fits in memory.
\<close>

definition zstd_law :: "zstd_lib \<Rightarrow> bool" where
  "zstd_law L \<longleftrightarrow> (\<forall>data. length data < 2 ^ 63 \<longrightarrow>
     length data \<noteq> ZSTD_CONTENTSIZE_ERROR L \<and> length data \<noteq> ZSTD_CONTENTSIZE_UNKNOWN L \<and>
     (case ZSTD_compress L (ZSTD_compressBound L (length data)) data 3 of (n, buf) \<Rightarrow>
       \<not> ZSTD_isError L n \<and>
       ZSTD_findDecompressedSize L (take n buf) = length data \<and>
       ZSTD_decompress L (length data) (take n buf) = (length data, data)))"

section \<open>lz4\<close>

text \<open>The lz4 interface is in terms of C \<^verbatim>\<open>int\<close>s: a size is converted at the call.\<close>

definition to_int32 :: "nat \<Rightarrow> int" where
  "to_int32 n = sint (word_of_nat n :: u32)"

lemma to_int32_small: "n < 2 ^ 31 \<Longrightarrow> to_int32 n = int n"
  by (simp add: to_int32_def signed_of_nat signed_take_bit_int_eq_self)

record lz4_lib =
  LZ4_compressBound :: "int \<Rightarrow> int"
  LZ4_compress_default :: "bytes \<Rightarrow> int \<Rightarrow> int \<Rightarrow> int \<times> bytes"
  LZ4_decompress_safe :: "bytes \<Rightarrow> int \<Rightarrow> int \<Rightarrow> int \<times> bytes"
  write_le32 :: "u32 \<Rightarrow> bytes"
  read_le32 :: "bytes \<Rightarrow> u32"

definition lz4_fast_codec_compress :: "lz4_lib \<Rightarrow> bytes \<Rightarrow> bytes res" where
  "lz4_fast_codec_compress L data =
     (let size32 = to_int32 (length data);
          max_dst_size = LZ4_compressBound L size32;
          (compressed_data_size, dst) = LZ4_compress_default L data size32 max_dst_size
      in if compressed_data_size < 0
           then Inl (Runtime_error ''A negative result from LZ4_compress_default'')
         else if compressed_data_size = 0
           then Inl (Runtime_error ''A result of 0 means the destination buffer was too small'')
         else Inr (take (nat compressed_data_size + 4)
                    (write_le32 L (word_of_nat (length data)) @ dst)))"

text \<open>
  \<^verbatim>\<open>uncompress\<close> reads four bytes before it looks at the size: below four the read leaves
  the buffer.
\<close>

definition lz4_fast_codec_uncompress :: "lz4_lib \<Rightarrow> bytes \<Rightarrow> bytes res" where
  "lz4_fast_codec_uncompress L data =
     (if length data < 4 then Inl (Undefined_behaviour ''read past the end of the buffer'')
      else
        let orig = read_le32 L (take 4 data);
            (decompressed_size, buf) = LZ4_decompress_safe L (drop 4 data)
               (to_int32 (length data - 4)) (to_int32 (unat orig))
        in if decompressed_size < 0
             then Inl (Runtime_error ''A negative result from LZ4_decompress_safe'')
           else if decompressed_size = 0
             then Inl (Runtime_error ''LZ4_decompress_safe returned 0'')
           else Inr (take (nat decompressed_size) buf))"

text \<open>
  lz4.h: up to \<^verbatim>\<open>LZ4_MAX_INPUT_SIZE\<close> bytes, compressing into a buffer of
  \<^verbatim>\<open>LZ4_compressBound\<close> bytes succeeds with a positive size, and decompressing restores the
  input. byteorder.hh: four bytes written little-endian read back as the same number.
\<close>

definition LZ4_MAX_INPUT_SIZE :: nat where
  "LZ4_MAX_INPUT_SIZE = 0x7E000000"

definition lz4_law :: "lz4_lib \<Rightarrow> bool" where
  "lz4_law L \<longleftrightarrow>
     (\<forall>data. data \<noteq> [] \<longrightarrow> length data \<le> LZ4_MAX_INPUT_SIZE \<longrightarrow>
        (case LZ4_compress_default L data (int (length data))
                (LZ4_compressBound L (int (length data))) of (n, dst) \<Rightarrow>
           0 < n \<and> nat n \<le> length dst \<and> n < 2 ^ 31 \<and>
           LZ4_decompress_safe L (take (nat n) dst) n (int (length data)) =
             (int (length data), data))) \<and>
     (\<forall>w. length (write_le32 L w) = 4 \<and> read_le32 L (write_le32 L w) = w)"

section \<open>Interface: a codec\<close>

text \<open>
  What the filters rely on: on the data it accepts, a codec compresses, and uncompressing
  restores the data.
\<close>

locale codec =
  fixes compress :: "bytes \<Rightarrow> bytes res"
    and uncompress :: "bytes \<Rightarrow> bytes res"
    and accepts :: "bytes \<Rightarrow> bool"
  assumes compress_total: "accepts d \<Longrightarrow> \<exists>c. compress d = Inr c"
    and uncompress_compress: "accepts d \<Longrightarrow> compress d = Inr c \<Longrightarrow> uncompress c = Inr d"
begin

lemma compress_inj:
  "accepts d \<Longrightarrow> accepts d' \<Longrightarrow> compress d = Inr c \<Longrightarrow> compress d' = Inr c \<Longrightarrow> d = d'"
  using uncompress_compress [of d c] uncompress_compress [of d' c] by simp

end

lemma zstd_roundtrip:
  assumes L: "zstd_law L" and d: "length d < 2 ^ 63"
  shows "\<exists>c. zstd_codec_compress L d = Inr c" "zstd_codec_compress L d = Inr c \<Longrightarrow>
    zstd_codec_uncompress L c = Inr d"
proof -
  obtain n buf where nb: "ZSTD_compress L (ZSTD_compressBound L (length d)) d 3 = (n, buf)"
    by (rule prod.exhaust)
  note law = L [unfolded zstd_law_def, rule_format, OF d, unfolded nb prod.case]
  show "\<exists>c. zstd_codec_compress L d = Inr c"
    using law by (simp add: zstd_codec_compress_def nb)
  show "zstd_codec_compress L d = Inr c \<Longrightarrow> zstd_codec_uncompress L c = Inr d"
    using law by (auto simp: zstd_codec_compress_def zstd_codec_uncompress_def nb)
qed

lemma lz4_roundtrip:
  assumes L: "lz4_law L" and d: "d \<noteq> []" "length d \<le> LZ4_MAX_INPUT_SIZE"
  shows "\<exists>c. lz4_fast_codec_compress L d = Inr c" "lz4_fast_codec_compress L d = Inr c \<Longrightarrow>
    lz4_fast_codec_uncompress L c = Inr d"
proof -
  have len: "length d < 2 ^ 31" using d(2) by (simp add: LZ4_MAX_INPUT_SIZE_def)
  obtain n dst where nd: "LZ4_compress_default L d (int (length d))
      (LZ4_compressBound L (int (length d))) = (n, dst)"
    by (rule prod.exhaust)
  note law = L [unfolded lz4_law_def, THEN conjunct1, rule_format, OF d, unfolded nd prod.case]
  note le = L [unfolded lz4_law_def, THEN conjunct2, rule_format]
  have "nat n < 2 ^ 31" using law by (simp add: nat_less_iff)
  then have n: "to_int32 (nat n) = n" using law to_int32_small [of "nat n"] by simp
  have c: "lz4_fast_codec_compress L d =
      Inr (write_le32 L (word_of_nat (length d)) @ take (nat n) dst)"
    using law nd le len by (simp add: lz4_fast_codec_compress_def to_int32_small)
  then show "\<exists>c. lz4_fast_codec_compress L d = Inr c" by simp
  have "lz4_fast_codec_uncompress L (write_le32 L (word_of_nat (length d)) @ take (nat n) dst) = Inr d"
    using law n le len d(1) by (simp add: lz4_fast_codec_uncompress_def to_int32_small min_absorb2)
  with c show "lz4_fast_codec_compress L d = Inr c \<Longrightarrow> lz4_fast_codec_uncompress L c = Inr d"
    by simp
qed

interpretation zstd: codec "zstd_codec_compress L" "zstd_codec_uncompress L"
  "\<lambda>d. zstd_law L \<and> length d < 2 ^ 63"
  for L
  by unfold_locales (elim conjE, rule zstd_roundtrip(1), assumption+,
    elim conjE, rule zstd_roundtrip(2), assumption+)

interpretation lz4: codec "lz4_fast_codec_compress L" "lz4_fast_codec_uncompress L"
  "\<lambda>d. lz4_law L \<and> d \<noteq> [] \<and> length d \<le> LZ4_MAX_INPUT_SIZE"
  for L
  by unfold_locales (elim conjE, rule lz4_roundtrip(1), assumption+,
    elim conjE, rule lz4_roundtrip(2), assumption+)

section \<open>The codec factory\<close>

datatype codec_type = Codec_lz4 | Codec_zstd

datatype compression_level = Fastest | Best

record codec_object =
  codec_type_ :: codec_type
  codec_level_ :: compression_level
  codec_compress :: "bytes \<Rightarrow> bytes res"
  codec_uncompress :: "bytes \<Rightarrow> bytes res"

definition codec_make_unique ::
    "zstd_lib \<Rightarrow> lz4_lib \<Rightarrow> codec_type \<Rightarrow> compression_level \<Rightarrow> codec_object" where
  "codec_make_unique Z L type level = (case type of
       Codec_lz4 \<Rightarrow> \<lparr>codec_type_ = type, codec_level_ = level,
         codec_compress = lz4_fast_codec_compress L, codec_uncompress = lz4_fast_codec_uncompress L\<rparr>
     | Codec_zstd \<Rightarrow> \<lparr>codec_type_ = type, codec_level_ = level,
         codec_compress = zstd_codec_compress Z, codec_uncompress = zstd_codec_uncompress Z\<rparr>)"

section \<open>Filters\<close>

text \<open>
  The filter chain: each filter is a function from its argument to a future of it; an
  exception ends the chain.
\<close>

fun rpc_filter_apply :: "('a \<Rightarrow> 'a res) list \<Rightarrow> 'a \<Rightarrow> 'a res" where
  "rpc_filter_apply [] arg = Inr arg"
| "rpc_filter_apply (f # fs) arg = rbind (f arg) (\<lambda>a. rpc_filter_apply fs a)"

lemma rpc_filter_apply_append:
  "rpc_filter_apply (fs @ gs) a = rbind (rpc_filter_apply fs a) (rpc_filter_apply gs)"
proof (induction fs arbitrary: a)
  case (Cons f fs)
  then show ?case by (cases "f a") simp_all
qed simp

definition replace_body :: "xxh64 \<Rightarrow> byte \<Rightarrow> bytes \<Rightarrow> rpc_envelope \<Rightarrow> rpc_envelope" where
  "replace_body xxh flag buf e =
     (let e1 = e\<lparr>env_letter := (env_letter e)\<lparr>ltr_body := buf\<rparr>\<rparr>;
          e2 = map_header (hdr_compression_update (\<lambda>_. flag)) e1
      in map_header (\<lambda>h. checksum_rpc xxh h buf (word_of_nat (length buf))) e2)"

definition replace_payload :: "xxh64 \<Rightarrow> bytes \<Rightarrow> rpc_recv_context \<Rightarrow> rpc_recv_context" where
  "replace_payload xxh buf ctx =
     (let h = (ctx_header ctx)\<lparr>hdr_compression := compression_flags_none\<rparr>
      in ctx\<lparr>ctx_payload := buf, ctx_header := checksum_rpc xxh h buf (word_of_nat (length buf))\<rparr>)"

definition zstd_compression_filter ::
    "xxh64 \<Rightarrow> zstd_lib \<Rightarrow> u32 \<Rightarrow> rpc_envelope \<Rightarrow> rpc_envelope res" where
  "zstd_compression_filter xxh L min_compression_size e =
     (if hdr_compression (env_header e) \<noteq> compression_flags_none then Inr e
      else if length (env_body e) \<le> unat min_compression_size then Inr e
      else rbind (zstd_codec_compress L (env_body e))
        (\<lambda>buf. Inr (replace_body xxh compression_flags_zstd buf e)))"

definition zstd_decompression_filter ::
    "xxh64 \<Rightarrow> zstd_lib \<Rightarrow> rpc_recv_context \<Rightarrow> rpc_recv_context res" where
  "zstd_decompression_filter xxh L ctx =
     (if hdr_compression (ctx_header ctx) = compression_flags_zstd
      then rbind (zstd_codec_uncompress L (ctx_payload ctx))
             (\<lambda>buf. Inr (replace_payload xxh buf ctx))
      else Inr ctx)"

definition lz4_compression_filter ::
    "xxh64 \<Rightarrow> lz4_lib \<Rightarrow> u32 \<Rightarrow> rpc_envelope \<Rightarrow> rpc_envelope res" where
  "lz4_compression_filter xxh L min_compression_size e =
     (if hdr_compression (env_header e) \<noteq> compression_flags_none then Inr e
      else if length (env_body e) \<le> unat min_compression_size then Inr e
      else rbind (lz4_fast_codec_compress L (env_body e))
        (\<lambda>buf. Inr (replace_body xxh compression_flags_lz4 buf e)))"

definition lz4_decompression_filter ::
    "xxh64 \<Rightarrow> lz4_lib \<Rightarrow> rpc_recv_context \<Rightarrow> rpc_recv_context res" where
  "lz4_decompression_filter xxh L ctx =
     (if hdr_compression (ctx_header ctx) = compression_flags_lz4
      then rbind (lz4_fast_codec_uncompress L (ctx_payload ctx))
             (\<lambda>buf. Inr (replace_payload xxh buf ctx))
      else Inr ctx)"

lemma replace_body_simps [simp]:
  "env_body (replace_body xxh flag buf e) = buf"
  "hdr_compression (env_header (replace_body xxh flag buf e)) = flag"
  "hdr_session (env_header (replace_body xxh flag buf e)) = hdr_session (env_header e)"
  "hdr_meta (env_header (replace_body xxh flag buf e)) = hdr_meta (env_header e)"
  "hdr_bitflags (env_header (replace_body xxh flag buf e)) = hdr_bitflags (env_header e)"
  by (simp_all add: replace_body_def Let_def)

lemma replace_body_consistent:
  "length buf < 2 ^ 32 \<Longrightarrow> consistent_letter xxh (env_letter (replace_body xxh flag buf e))"
  by (simp add: replace_body_def consistent_letter_def Let_def)

lemma replace_payload_simps [simp]:
  "ctx_payload (replace_payload xxh buf ctx) = buf"
  "hdr_compression (ctx_header (replace_payload xxh buf ctx)) = compression_flags_none"
  "hdr_session (ctx_header (replace_payload xxh buf ctx)) = hdr_session (ctx_header ctx)"
  "hdr_meta (ctx_header (replace_payload xxh buf ctx)) = hdr_meta (ctx_header ctx)"
  "hdr_bitflags (ctx_header (replace_payload xxh buf ctx)) = hdr_bitflags (ctx_header ctx)"
  by (simp_all add: replace_payload_def Let_def)

section \<open>Interface: an outgoing filter and the incoming filter that undoes it\<close>

text \<open>
  What a client and a server that install matching filters rely on. The incoming filter sees
  the context that carries the header and body of the envelope the outgoing filter returned.
  \<open>tag\<close> is the compression the pair uses, \<open>accepts\<close> the bodies its codec can handle.
\<close>

definition carries :: "rpc_recv_context \<Rightarrow> rpc_envelope \<Rightarrow> bool" where
  "carries ctx e \<longleftrightarrow> ctx_header ctx = env_header e \<and> ctx_payload ctx = env_body e"

locale filter_pair =
  fixes out_filter :: "rpc_envelope \<Rightarrow> rpc_envelope res"
    and in_filter :: "rpc_recv_context \<Rightarrow> rpc_recv_context res"
    and tag :: byte
    and accepts :: "bytes \<Rightarrow> bool"
  assumes tag_set: "tag \<noteq> compression_flags_none"
    and out_skips: "hdr_compression (env_header e) \<noteq> compression_flags_none \<Longrightarrow> out_filter e = Inr e"
    and out_total: "accepts (env_body e) \<Longrightarrow> \<exists>e'. out_filter e = Inr e'"
    and out_tags: "out_filter e = Inr e' \<Longrightarrow> e' = e \<or>
      hdr_compression (env_header e) = compression_flags_none \<and>
      hdr_compression (env_header e') = tag"
    and out_keeps: "out_filter e = Inr e' \<Longrightarrow>
      hdr_session (env_header e') = hdr_session (env_header e) \<and>
      hdr_meta (env_header e') = hdr_meta (env_header e)"
    and in_skips: "hdr_compression (ctx_header ctx) \<noteq> tag \<Longrightarrow> in_filter ctx = Inr ctx"
    and in_undoes: "accepts (env_body e) \<Longrightarrow> hdr_compression (env_header e) = compression_flags_none \<Longrightarrow>
      out_filter e = Inr e' \<Longrightarrow> carries ctx e' \<Longrightarrow> hdr_compression (env_header e') = tag \<Longrightarrow>
      \<exists>ctx'. in_filter ctx = Inr ctx' \<and> ctx_payload ctx' = env_body e \<and>
        hdr_compression (ctx_header ctx') = compression_flags_none \<and>
        hdr_session (ctx_header ctx') = hdr_session (env_header e) \<and>
        hdr_meta (ctx_header ctx') = hdr_meta (env_header e)"
begin

lemma roundtrip:
  assumes acc: "accepts (env_body e)" and none: "hdr_compression (env_header e) = compression_flags_none"
  shows "\<exists>e'. out_filter e = Inr e' \<and> (\<forall>ctx. carries ctx e' \<longrightarrow>
    (\<exists>ctx'. in_filter ctx = Inr ctx' \<and> ctx_payload ctx' = env_body e \<and>
       hdr_compression (ctx_header ctx') = compression_flags_none \<and>
       hdr_session (ctx_header ctx') = hdr_session (env_header e) \<and>
       hdr_meta (ctx_header ctx') = hdr_meta (env_header e)))"
proof -
  obtain e' where e': "out_filter e = Inr e'" using out_total [OF acc] by blast
  have "\<exists>ctx'. in_filter ctx = Inr ctx' \<and> ctx_payload ctx' = env_body e \<and>
       hdr_compression (ctx_header ctx') = compression_flags_none \<and>
       hdr_session (ctx_header ctx') = hdr_session (env_header e) \<and>
       hdr_meta (ctx_header ctx') = hdr_meta (env_header e)" if c: "carries ctx e'" for ctx
  proof (cases "hdr_compression (env_header e') = tag")
    case True
    from in_undoes [OF acc none e' c True] show ?thesis .
  next
    case False
    with out_tags [OF e'] have "e' = e" by blast
    with c none have "in_filter ctx = Inr ctx"
      using in_skips [of ctx] tag_set by (simp add: carries_def)
    with c none \<open>e' = e\<close> show ?thesis by (simp add: carries_def)
  qed
  with e' show ?thesis by blast
qed

end

lemma zstd_out_cases:
  "zstd_compression_filter xxh L n e = Inr e' \<Longrightarrow> e' = e \<or>
     hdr_compression (env_header e) = compression_flags_none \<and>
     (\<exists>buf. zstd_codec_compress L (env_body e) = Inr buf \<and>
        e' = replace_body xxh compression_flags_zstd buf e)"
  by (auto simp: zstd_compression_filter_def rbind_Inr_iff split: if_splits)

lemma lz4_out_cases:
  "lz4_compression_filter xxh L n e = Inr e' \<Longrightarrow> e' = e \<or>
     hdr_compression (env_header e) = compression_flags_none \<and> env_body e \<noteq> [] \<and>
     (\<exists>buf. lz4_fast_codec_compress L (env_body e) = Inr buf \<and>
        e' = replace_body xxh compression_flags_lz4 buf e)"
  by (auto simp: lz4_compression_filter_def rbind_Inr_iff split: if_splits)

interpretation zstd_filters: filter_pair "zstd_compression_filter xxh L n"
  "zstd_decompression_filter xxh L" compression_flags_zstd
  "\<lambda>d. zstd_law L \<and> length d < 2 ^ 63"
  for xxh L n
proof unfold_locales
  fix e e' :: rpc_envelope and ctx :: rpc_recv_context
  show "compression_flags_zstd \<noteq> compression_flags_none" by (simp add: compression_flags_defs)
  show "hdr_compression (env_header e) \<noteq> compression_flags_none \<Longrightarrow>
      zstd_compression_filter xxh L n e = Inr e"
    by (simp add: zstd_compression_filter_def)
  show "zstd_law L \<and> length (env_body e) < 2 ^ 63 \<Longrightarrow> \<exists>e'. zstd_compression_filter xxh L n e = Inr e'"
    using zstd.compress_total [of L "env_body e"] by (auto simp: zstd_compression_filter_def)
  show "hdr_compression (ctx_header ctx) \<noteq> compression_flags_zstd \<Longrightarrow>
      zstd_decompression_filter xxh L ctx = Inr ctx"
    by (simp add: zstd_decompression_filter_def)
  {
    assume "zstd_compression_filter xxh L n e = Inr e'"
    note out = zstd_out_cases [OF this]
    then show "e' = e \<or> hdr_compression (env_header e) = compression_flags_none \<and>
        hdr_compression (env_header e') = compression_flags_zstd" by auto
    from out show "hdr_session (env_header e') = hdr_session (env_header e) \<and>
        hdr_meta (env_header e') = hdr_meta (env_header e)" by auto
    assume "zstd_law L \<and> length (env_body e) < 2 ^ 63"
      "hdr_compression (env_header e) = compression_flags_none"
      "carries ctx e'" "hdr_compression (env_header e') = compression_flags_zstd"
    then show "\<exists>ctx'. zstd_decompression_filter xxh L ctx = Inr ctx' \<and>
        ctx_payload ctx' = env_body e \<and>
        hdr_compression (ctx_header ctx') = compression_flags_none \<and>
        hdr_session (ctx_header ctx') = hdr_session (env_header e) \<and>
        hdr_meta (ctx_header ctx') = hdr_meta (env_header e)"
      using out zstd.uncompress_compress [of L "env_body e"]
      by (auto simp: zstd_decompression_filter_def carries_def compression_flags_defs)
  }
qed

interpretation lz4_filters: filter_pair "lz4_compression_filter xxh L n"
  "lz4_decompression_filter xxh L" compression_flags_lz4
  "\<lambda>d. lz4_law L \<and> length d \<le> LZ4_MAX_INPUT_SIZE"
  for xxh L n
proof unfold_locales
  fix e e' :: rpc_envelope and ctx :: rpc_recv_context
  show "compression_flags_lz4 \<noteq> compression_flags_none" by (simp add: compression_flags_defs)
  show "hdr_compression (env_header e) \<noteq> compression_flags_none \<Longrightarrow>
      lz4_compression_filter xxh L n e = Inr e"
    by (simp add: lz4_compression_filter_def)
  show "lz4_law L \<and> length (env_body e) \<le> LZ4_MAX_INPUT_SIZE \<Longrightarrow>
      \<exists>e'. lz4_compression_filter xxh L n e = Inr e'"
    using lz4.compress_total [of L "env_body e"]
    by (cases "env_body e") (auto simp: lz4_compression_filter_def)
  show "hdr_compression (ctx_header ctx) \<noteq> compression_flags_lz4 \<Longrightarrow>
      lz4_decompression_filter xxh L ctx = Inr ctx"
    by (simp add: lz4_decompression_filter_def)
  {
    assume "lz4_compression_filter xxh L n e = Inr e'"
    note out = lz4_out_cases [OF this]
    then show "e' = e \<or> hdr_compression (env_header e) = compression_flags_none \<and>
        hdr_compression (env_header e') = compression_flags_lz4" by auto
    from out show "hdr_session (env_header e') = hdr_session (env_header e) \<and>
        hdr_meta (env_header e') = hdr_meta (env_header e)" by auto
    assume "lz4_law L \<and> length (env_body e) \<le> LZ4_MAX_INPUT_SIZE"
      "hdr_compression (env_header e) = compression_flags_none"
      "carries ctx e'" "hdr_compression (env_header e') = compression_flags_lz4"
    then show "\<exists>ctx'. lz4_decompression_filter xxh L ctx = Inr ctx' \<and>
        ctx_payload ctx' = env_body e \<and>
        hdr_compression (ctx_header ctx') = compression_flags_none \<and>
        hdr_session (ctx_header ctx') = hdr_session (env_header e) \<and>
        hdr_meta (ctx_header ctx') = hdr_meta (env_header e)"
      using out lz4.uncompress_compress [of L "env_body e"]
      by (auto simp: lz4_decompression_filter_def carries_def compression_flags_defs)
  }
qed

section \<open>Properties\<close>

text \<open>
  C16: two peers that install both compression filters understand each other. Whatever the
  thresholds, an uncompressed envelope passed through the outgoing zstd and lz4 filters, and
  received through the incoming lz4 and zstd filters, gives back the original payload,
  uncompressed, with the same session and the same request id or status.
\<close>

theorem filter_chain_roundtrip:
  assumes Z: "zstd_law Z" and L: "lz4_law L"
    and none: "hdr_compression (env_header e) = compression_flags_none"
    and len: "length (env_body e) \<le> LZ4_MAX_INPUT_SIZE"
  shows "\<exists>e'. rpc_filter_apply [zstd_compression_filter xxh Z m, lz4_compression_filter xxh L n] e = Inr e'
    \<and> (\<forall>ctx. carries ctx e' \<longrightarrow>
      (\<exists>ctx'. rpc_filter_apply [lz4_decompression_filter xxh L, zstd_decompression_filter xxh Z] ctx
          = Inr ctx' \<and> ctx_payload ctx' = env_body e \<and>
        hdr_compression (ctx_header ctx') = compression_flags_none \<and>
        ctx_session ctx' = hdr_session (env_header e) \<and> ctx_status ctx' = hdr_meta (env_header e)))"
proof -
  have zacc: "zstd_law Z \<and> length (env_body e) < 2 ^ 63"
    and lacc: "lz4_law L \<and> length (env_body e) \<le> LZ4_MAX_INPUT_SIZE"
    using Z L len by (simp_all add: LZ4_MAX_INPUT_SIZE_def)
  have tags: "compression_flags_zstd \<noteq> compression_flags_lz4"
    "compression_flags_zstd \<noteq> compression_flags_none" "compression_flags_none \<noteq> compression_flags_zstd"
    by (simp_all add: compression_flags_defs)
  obtain e1 where e1: "zstd_compression_filter xxh Z m e = Inr e1"
    using zstd_filters.out_total [OF zacc] by blast
  show ?thesis
  proof (cases "e1 = e")
    case True
    then show ?thesis
      using e1 lz4_filters.roundtrip [where xxh = xxh and n = n, OF lacc none]
        zstd_filters.in_skips [where xxh = xxh and L = Z] tags
      by (fastforce simp: ctx_session_def ctx_status_def)
  next
    case False
    then have t: "hdr_compression (env_header e1) = compression_flags_zstd"
      using zstd_filters.out_tags [OF e1] by blast
    then have "rpc_filter_apply [zstd_compression_filter xxh Z m, lz4_compression_filter xxh L n] e
        = Inr e1"
      using e1 lz4_filters.out_skips tags by simp
    moreover have "lz4_decompression_filter xxh L ctx = Inr ctx" if "carries ctx e1" for ctx
      using that t tags lz4_filters.in_skips [of ctx] by (simp add: carries_def)
    ultimately show ?thesis
      using zstd_filters.in_undoes [OF zacc none e1 _ t]
      by (fastforce simp: ctx_session_def ctx_status_def)
  qed
qed

definition example_zstd :: zstd_lib where
  "example_zstd = \<lparr>ZSTD_findDecompressedSize = length, ZSTD_CONTENTSIZE_ERROR = 2 ^ 64 - 2,
     ZSTD_CONTENTSIZE_UNKNOWN = 2 ^ 64 - 1, ZSTD_decompress = (\<lambda>n src. (length src, src)),
     ZSTD_compressBound = (\<lambda>n. n), ZSTD_compress = (\<lambda>n src level. (length src, src)),
     ZSTD_isError = (\<lambda>n. n \<ge> 2 ^ 63)\<rparr>"

definition example_lz4 :: lz4_lib where
  "example_lz4 = \<lparr>LZ4_compressBound = (\<lambda>n. n), LZ4_compress_default = (\<lambda>src n m. (n, src)),
     LZ4_decompress_safe = (\<lambda>src n m. (m, src)), write_le32 = (\<lambda>w. le_enc 4 (unat w)),
     read_le32 = (\<lambda>bs. word_of_nat (le_val bs))\<rparr>"

lemma example_zstd_law: "zstd_law example_zstd"
  by (simp add: zstd_law_def example_zstd_def)

lemma example_lz4_law: "lz4_law example_lz4"
  by (simp add: lz4_law_def example_lz4_def LZ4_MAX_INPUT_SIZE_def)

theorem filter_chain_roundtrip_witness:
  "let e = rpc_envelope_empty\<lparr>env_letter := rpc_letter_empty\<lparr>ltr_body := [1, 2, 3]\<rparr>\<rparr> in
   \<exists>e'. rpc_filter_apply [zstd_compression_filter example_xxh example_zstd 10,
      lz4_compression_filter example_xxh example_lz4 2] e = Inr e' \<and>
    (\<forall>ctx. carries ctx e' \<longrightarrow> (\<exists>ctx'. rpc_filter_apply
      [lz4_decompression_filter example_xxh example_lz4, zstd_decompression_filter example_xxh example_zstd]
      ctx = Inr ctx' \<and> ctx_payload ctx' = [1, 2, 3]))"
  unfolding Let_def
  using filter_chain_roundtrip [OF example_zstd_law example_lz4_law,
      of "rpc_envelope_empty\<lparr>env_letter := rpc_letter_empty\<lparr>ltr_body := [1, 2, 3]\<rparr>\<rparr>"
      example_xxh 10 2]
  by (fastforce simp: rpc_envelope_empty_def rpc_letter_empty_def default_header_def
      compression_flags_defs LZ4_MAX_INPUT_SIZE_def)

text \<open>
  A compressed message is still a message. If the outgoing zstd filter replaces the body
  of an envelope, the header it leaves describes the new body (length and checksum), so the
  peer's parser accepts it as it accepts any consistent letter.
\<close>

lemma zstd_filter_consistent:
  assumes "consistent_letter xxh (env_letter e)"
    and "zstd_compression_filter xxh Z n e = Inr e'"
    and "length (env_body e') < 2 ^ 32"
  shows "consistent_letter xxh (env_letter e')"
  using zstd_out_cases [OF assms(2)] assms(1,3) replace_body_consistent by fastforce

lemma zstd_filter_consistent_witness:
  "\<exists>e'. zstd_compression_filter example_xxh example_zstd 1
      (example_envelope\<lparr>env_letter := (env_letter example_envelope)\<lparr>ltr_header :=
         (env_header example_envelope)\<lparr>hdr_compression := 0\<rparr>\<rparr>\<rparr>) = Inr e' \<and>
    hdr_compression (env_header e') = compression_flags_zstd \<and>
    consistent_letter example_xxh (env_letter e')"
proof -
  let ?e = "example_envelope\<lparr>env_letter := (env_letter example_envelope)\<lparr>ltr_header :=
         (env_header example_envelope)\<lparr>hdr_compression := 0\<rparr>\<rparr>\<rparr>"
  have z: "zstd_compression_filter example_xxh example_zstd 1 ?e =
      Inr (replace_body example_xxh compression_flags_zstd [104, 105] ?e)"
    by (simp add: zstd_compression_filter_def example_envelope_def compression_flags_none_def
        zstd_codec_compress_def example_zstd_def)
  have c: "consistent_letter example_xxh (env_letter ?e)"
    using example_sendable
    by (simp add: sendable_def consistent_letter_def)
  from zstd_filter_consistent [OF c z] z show ?thesis by simp
qed



end
