(* ===== verification/Rpc_Server.thy ===== *)
theory Rpc_Server
  imports Rpc_Router Compression
begin

text \<open>
  The server (rpc_server.cc, rpc_server.h, rpc_server_connection.h, rpc_server_stats.h,
  rpc_connection_limits.h). The futures of the server are fibers: each constructor of
  \<open>fiber\<close> is a point where a future may be pending, and \<open>exec\<close> runs the continuation that
  follows it. The reactor runs one continuation at a time and chooses which, so the server is
  a transition system over the list of its fibers. The semaphore and the gate are seastar
  objects: their operations are fields of \<open>seastar_env\<close>.
\<close>

section \<open>Statistics, options, limits\<close>

record rpc_server_stats =
  active_connections :: u64
  total_connections :: u64
  in_bytes :: u64
  out_bytes :: u64
  bad_requests :: u64
  no_route_requests :: u64
  completed_requests :: u64
  too_large_requests :: u64

definition rpc_server_stats_zero :: rpc_server_stats where
  "rpc_server_stats_zero = \<lparr>active_connections = 0, total_connections = 0, in_bytes = 0,
     out_bytes = 0, bad_requests = 0, no_route_requests = 0, completed_requests = 0,
     too_large_requests = 0\<rparr>"

record rpc_server_connection_options =
  opt_nodelay :: bool
  opt_enable_keepalive :: bool
  opt_keepalive :: "nat \<times> nat \<times> nat"

definition rpc_server_connection_options_new :: "bool \<Rightarrow> bool \<Rightarrow> rpc_server_connection_options" where
  "rpc_server_connection_options_new nodelay keepalive =
     \<lparr>opt_nodelay = nodelay, opt_enable_keepalive = keepalive, opt_keepalive = (5, 75, 9)\<rparr>"

definition rpc_server_flags_disable_http_server :: u32 where
  "rpc_server_flags_disable_http_server = 1"

text \<open>Credentials are a shared pointer, as the identity of the object it points to.\<close>

record rpc_server_args =
  arg_ip :: string
  arg_rpc_port :: u16
  arg_http_port :: u16
  arg_flags :: u32
  arg_credentials :: "nat option"
  arg_recv_timeout_ms :: nat
  arg_memory_avail_per_core :: u64

definition rpc_server_args_default :: rpc_server_args where
  "rpc_server_args_default = \<lparr>arg_ip = '''', arg_rpc_port = 11225, arg_http_port = 33140,
     arg_flags = 0, arg_credentials = None, arg_recv_timeout_ms = 60000, arg_memory_avail_per_core = push_bit 31 1\<rparr>"

record 'sem rpc_connection_limits =
  max_memory :: u64
  max_body_parsing_duration_ms :: nat
  resources_available :: 'sem

section \<open>Fibers and state\<close>

datatype fiber =
    Session u64
  | Read_header u64
  | Wait_memory u64 header
  | Read_payload u64 header
  | Dispatch u64 u32 rpc_recv_context
  | Incoming u64 u32 rpc_recv_context handle
  | Handle u64 u32 rpc_recv_context handle
  | Outgoing u64 u32 rpc_envelope
  | Reply u64 u32 rpc_envelope
  | Flush_reply u64 u32
  | Cleanup u64 u32
  | Release u64 u32

text \<open>
  \<open>heap\<close> holds the connection objects that are still referenced, by connection id;
  \<open>open_connections\<close> is the set of keys of the map of that name. \<open>listener\<close> is the
  listening socket (the credentials of a TLS one, and its address), \<open>admin\<close> the address of
  the HTTP server. \<open>accepting\<close> is the accept loop, \<open>accept_aborted\<close> says that
  \<^verbatim>\<open>abort_accept\<close> was called, \<open>stopping\<close> that \<^verbatim>\<open>stop\<close> waits for
  \<open>stopped\<close>. \<open>measured\<close> counts the latencies recorded in the histogram.
\<close>

type_synonym ipv4_addr = "string \<times> u16"

record ('is, 'sem, 'gate) rpc_server =
  args :: rpc_server_args
  limits :: "'sem rpc_connection_limits"
  routes :: rpc_handle_router
  in_filters :: "(rpc_recv_context \<Rightarrow> rpc_recv_context res) list"
  out_filters :: "(rpc_envelope \<Rightarrow> rpc_envelope res) list"
  listener :: "(nat option \<times> ipv4_addr) option"
  admin :: "ipv4_addr option"
  accepting :: bool
  accept_aborted :: bool
  stopping :: bool
  stopped :: bool
  stats :: rpc_server_stats
  connection_idx :: u64
  heap :: "u64 \<Rightarrow> 'is rpc_connection option"
  open_connections :: "u64 set"
  reply_gate :: 'gate
  measured :: nat
  fibers :: "fiber list"

record ('is, 'sem, 'gate) seastar_env =
  env_dbg :: bool
  env_istream :: "'is istream_ops"
  env_xxh :: xxh64
  env_format_compression :: "byte \<Rightarrow> string"
  sem_init :: "u64 \<Rightarrow> 'sem"
  sem_wait :: "'sem \<Rightarrow> u64 \<Rightarrow> 'sem option"
  sem_signal :: "'sem \<Rightarrow> u64 \<Rightarrow> 'sem"
  gate_init :: 'gate
  gate_enter :: "'gate \<Rightarrow> 'gate option"
  gate_leave :: "'gate \<Rightarrow> 'gate"
  gate_close :: "'gate \<Rightarrow> 'gate"
  gate_is_closed :: "'gate \<Rightarrow> bool"
  gate_drained :: "'gate \<Rightarrow> bool"

definition rpc_connection_limits_new ::
    "('is, 'sem, 'gate) seastar_env \<Rightarrow> u64 \<Rightarrow> nat \<Rightarrow> 'sem rpc_connection_limits" where
  "rpc_connection_limits_new E max_mem_per_core body_timeout_duration =
     \<lparr>max_memory = max_mem_per_core, max_body_parsing_duration_ms = body_timeout_duration,
      resources_available = sem_init E max_mem_per_core\<rparr>"

definition rpc_server_new ::
    "('is, 'sem, 'gate) seastar_env \<Rightarrow> rpc_server_args \<Rightarrow> ('is, 'sem, 'gate) rpc_server" where
  "rpc_server_new E as =
     \<lparr>args = as,
      limits = rpc_connection_limits_new E (arg_memory_avail_per_core as) (arg_recv_timeout_ms as),
      routes = [], in_filters = [], out_filters = [], listener = None, admin = None,
      accepting = False, accept_aborted = False, stopping = False, stopped = False,
      stats = rpc_server_stats_zero, connection_idx = 0, heap = Map.empty,
      open_connections = {}, reply_gate = gate_init E, measured = 0, fibers = []\<rparr>"

definition register_incoming_filter ::
    "(rpc_recv_context \<Rightarrow> rpc_recv_context res) \<Rightarrow> ('is, 'sem, 'gate) rpc_server \<Rightarrow>
     ('is, 'sem, 'gate) rpc_server" where
  "register_incoming_filter f s = s\<lparr>in_filters := in_filters s @ [f]\<rparr>"

definition register_outgoing_filter ::
    "(rpc_envelope \<Rightarrow> rpc_envelope res) \<Rightarrow> ('is, 'sem, 'gate) rpc_server \<Rightarrow>
     ('is, 'sem, 'gate) rpc_server" where
  "register_outgoing_filter f s = s\<lparr>out_filters := out_filters s @ [f]\<rparr>"

text \<open>A server with its services and filters registered, before \<^verbatim>\<open>start\<close>.\<close>

definition configured_server ::
    "('is, 'sem, 'gate) seastar_env \<Rightarrow> rpc_server_args \<Rightarrow> rpc_handle_router \<Rightarrow>
     (rpc_recv_context \<Rightarrow> rpc_recv_context res) list \<Rightarrow> (rpc_envelope \<Rightarrow> rpc_envelope res) list \<Rightarrow>
     ('is, 'sem, 'gate) rpc_server" where
  "configured_server E as services ins outs =
     fold register_outgoing_filter outs (fold register_incoming_filter ins
       ((rpc_server_new E as)\<lparr>routes := services\<rparr>))"

lemma fold_register_incoming_filter [simp]:
  "fold register_incoming_filter ins s = s\<lparr>in_filters := in_filters s @ ins\<rparr>"
  by (induction ins arbitrary: s) (simp_all add: register_incoming_filter_def)

lemma fold_register_outgoing_filter [simp]:
  "fold register_outgoing_filter outs s = s\<lparr>out_filters := out_filters s @ outs\<rparr>"
  by (induction outs arbitrary: s) (simp_all add: register_outgoing_filter_def)

definition upd_stats ::
    "(rpc_server_stats \<Rightarrow> rpc_server_stats) \<Rightarrow> ('is, 'sem, 'gate) rpc_server \<Rightarrow>
     ('is, 'sem, 'gate) rpc_server" where
  "upd_stats f s = s\<lparr>stats := f (stats s)\<rparr>"

definition set_conn ::
    "u64 \<Rightarrow> 'is rpc_connection \<Rightarrow> ('is, 'sem, 'gate) rpc_server \<Rightarrow> ('is, 'sem, 'gate) rpc_server" where
  "set_conn cid c s = s\<lparr>heap := (heap s)(cid \<mapsto> c)\<rparr>"

definition signal_units ::
    "('is, 'sem, 'gate) seastar_env \<Rightarrow> u64 \<Rightarrow> ('is, 'sem, 'gate) rpc_server \<Rightarrow>
     ('is, 'sem, 'gate) rpc_server" where
  "signal_units E n s = s\<lparr>limits := (limits s)\<lparr>resources_available :=
     sem_signal E (resources_available (limits s)) n\<rparr>\<rparr>"

lemma upd_stats_simps [simp]:
  "heap (upd_stats f s) = heap s" "open_connections (upd_stats f s) = open_connections s"
  "fibers (upd_stats f s) = fibers s" "limits (upd_stats f s) = limits s"
  "stats (upd_stats f s) = f (stats s)" "connection_idx (upd_stats f s) = connection_idx s"
  "reply_gate (upd_stats f s) = reply_gate s"
  by (simp_all add: upd_stats_def)

lemma set_conn_simps [simp]:
  "heap (set_conn cid c s) = (heap s)(cid \<mapsto> c)"
  "open_connections (set_conn cid c s) = open_connections s"
  "fibers (set_conn cid c s) = fibers s" "limits (set_conn cid c s) = limits s"
  "stats (set_conn cid c s) = stats s" "connection_idx (set_conn cid c s) = connection_idx s"
  "reply_gate (set_conn cid c s) = reply_gate s"
  by (simp_all add: set_conn_def)

lemma signal_units_simps [simp]:
  "heap (signal_units E n s) = heap s" "open_connections (signal_units E n s) = open_connections s"
  "fibers (signal_units E n s) = fibers s" "stats (signal_units E n s) = stats s"
  "connection_idx (signal_units E n s) = connection_idx s"
  "reply_gate (signal_units E n s) = reply_gate s"
  "max_memory (limits (signal_units E n s)) = max_memory (limits s)"
  "resources_available (limits (signal_units E n s)) =
     sem_signal E (resources_available (limits s)) n"
  by (simp_all add: signal_units_def)

section \<open>Connections of the server\<close>

text \<open>The constructor of \<^verbatim>\<open>rpc_server_connection\<close> over a fresh \<^verbatim>\<open>rpc_connection\<close>.\<close>

definition rpc_server_connection_new ::
    "'is \<Rightarrow> address \<Rightarrow> rpc_server_connection_options \<Rightarrow> 'is rpc_connection" where
  "rpc_server_connection_new input addr opts =
     (let conn = socket_do [Set_nodelay (opt_nodelay opts)] (rpc_connection_new input addr (Some 0))
      in if opt_enable_keepalive opts
         then (case opt_keepalive opts of (idle, interval, count) \<Rightarrow>
                 socket_do [Set_keepalive True, Set_keepalive_parameters idle interval count] conn)
         else conn)"

definition accept_connection ::
    "'is \<Rightarrow> address \<Rightarrow> ('is, 'sem, 'gate) rpc_server \<Rightarrow> ('is, 'sem, 'gate) rpc_server" where
  "accept_connection input addr s =
     (let cid = connection_idx s + 1;
          conn = rpc_server_connection_new input addr (rpc_server_connection_options_new True True)
      in upd_stats (\<lambda>st. st\<lparr>active_connections := active_connections st + 1,
                            total_connections := total_connections st + 1\<rparr>)
           (s\<lparr>connection_idx := cid, heap := (heap s)(cid \<mapsto> conn),
              open_connections := insert cid (open_connections s),
              fibers := fibers s @ [Session cid]\<rparr>))"

text \<open>The destructor of \<^verbatim>\<open>rpc_server_connection\<close>, run when the last reference goes.\<close>

definition destroy_connection ::
    "u64 \<Rightarrow> ('is, 'sem, 'gate) rpc_server \<Rightarrow> ('is, 'sem, 'gate) rpc_server" where
  "destroy_connection cid s =
     upd_stats (\<lambda>st. st\<lparr>active_connections := active_connections st - 1\<rparr>)
       (s\<lparr>heap := (heap s)(cid := None)\<rparr>)"

definition cleanup_dispatch_rpc ::
    "u64 \<Rightarrow> 'is rpc_connection \<Rightarrow> ('is, 'sem, 'gate) rpc_server \<Rightarrow> ('is, 'sem, 'gate) rpc_server" where
  "cleanup_dispatch_rpc cid conn s =
     (if has_error conn then
        (if cid \<in> open_connections s then
           set_conn cid (socket_do [Shutdown_input, Shutdown_output] (disable conn))
             (upd_stats (\<lambda>st. st\<lparr>bad_requests := bad_requests st + 1,
                                 active_connections := active_connections st - 1\<rparr>)
               (s\<lparr>open_connections := open_connections s - {cid}\<rparr>))
         else s)
      else upd_stats (\<lambda>st. st\<lparr>completed_requests := completed_requests st + 1\<rparr>) s)"

section \<open>The continuations\<close>

text \<open>
  \<open>Proceed\<close> is the normal outcome of a pending operation, \<open>Fail e\<close> its resolution with an
  exception: a timeout or an error of the socket.
\<close>

datatype outcome = Proceed | Fail exn

text \<open>
  An exception in a session: the \<^verbatim>\<open>finally\<close> cleanup, then the handler with its own.
\<close>

definition session_exception ::
    "u64 \<Rightarrow> 'is rpc_connection \<Rightarrow> ('is, 'sem, 'gate) rpc_server \<Rightarrow> ('is, 'sem, 'gate) rpc_server" where
  "session_exception cid conn s =
     (let s1 = cleanup_dispatch_rpc cid conn (set_conn cid conn s);
          conn1 = set_error ''handling client session exception'' (the (heap s1 cid))
      in cleanup_dispatch_rpc cid conn1 (set_conn cid conn1 s1))"

text \<open>\<^verbatim>\<open>handle_client_connection\<close>: one turn of the loop.\<close>

definition session_loop ::
    "('is, 'sem, 'gate) seastar_env \<Rightarrow> u64 \<Rightarrow> 'is rpc_connection \<Rightarrow> ('is, 'sem, 'gate) rpc_server \<Rightarrow>
     ('is, 'sem, 'gate) rpc_server \<times> fiber list" where
  "session_loop E cid conn s =
     (if \<not> is_valid (env_istream E) conn then (cleanup_dispatch_rpc cid conn s, [])
      else (s, [Read_header cid]))"

definition session_header ::
    "('is, 'sem, 'gate) seastar_env \<Rightarrow> outcome \<Rightarrow> u64 \<Rightarrow> 'is rpc_connection \<Rightarrow>
     ('is, 'sem, 'gate) rpc_server \<Rightarrow> ('is, 'sem, 'gate) rpc_server \<times> fiber list" where
  "session_header E oc cid conn s = (case oc of
       Fail e \<Rightarrow> (session_exception cid conn s, [])
     | Proceed \<Rightarrow> (case parse_header (env_dbg E) (env_istream E) conn of
           (Inl e, conn') \<Rightarrow> (session_exception cid conn' s, [])
         | (Inr None, conn') \<Rightarrow>
             (set_conn cid (set_error ''Error parsing connection header'' conn') s, [Session cid])
         | (Inr (Some hdr), conn') \<Rightarrow> (set_conn cid conn' s, [Wait_memory cid hdr])))"

text \<open>The wait for memory: None while the units are not available.\<close>

definition session_wait ::
    "('is, 'sem, 'gate) seastar_env \<Rightarrow> u64 \<Rightarrow> header \<Rightarrow> ('is, 'sem, 'gate) rpc_server \<Rightarrow>
     (('is, 'sem, 'gate) rpc_server \<times> fiber list) option" where
  "session_wait E cid hdr s =
     (case sem_wait E (resources_available (limits s)) (ucast (hdr_size hdr)) of
        None \<Rightarrow> None
      | Some sem \<Rightarrow> Some (s\<lparr>limits := (limits s)\<lparr>resources_available := sem\<rparr>\<rparr>,
                          [Read_payload cid hdr]))"

text \<open>
  \<^verbatim>\<open>dispatch_rpc\<close> takes the size as an \<^verbatim>\<open>int32_t\<close>; the semaphore's \<^verbatim>\<open>signal\<close> takes
  a \<^verbatim>\<open>size_t\<close>, so the value is sign-extended (\<open>scast\<close>).
\<close>

definition dispatch_rpc ::
    "('is, 'sem, 'gate) seastar_env \<Rightarrow> u32 \<Rightarrow> u64 \<Rightarrow> 'is rpc_connection \<Rightarrow> rpc_recv_context option \<Rightarrow>
     ('is, 'sem, 'gate) rpc_server \<Rightarrow> ('is, 'sem, 'gate) rpc_server \<times> fiber list" where
  "dispatch_rpc E payload_size cid conn ctx s = (case ctx of
       None \<Rightarrow> (set_conn cid (set_error ''Could not parse payload'' conn)
                  (signal_units E (scast payload_size) s), [])
     | Some context \<Rightarrow> (case gate_enter E (reply_gate s) of
           None \<Rightarrow> (s, [])
         | Some g \<Rightarrow> (s\<lparr>reply_gate := g\<rparr>, [Dispatch cid payload_size context])))"

definition session_payload ::
    "('is, 'sem, 'gate) seastar_env \<Rightarrow> outcome \<Rightarrow> u64 \<Rightarrow> header \<Rightarrow> 'is rpc_connection \<Rightarrow>
     ('is, 'sem, 'gate) rpc_server \<Rightarrow> ('is, 'sem, 'gate) rpc_server \<times> fiber list" where
  "session_payload E oc cid hdr conn s = (case oc of
       Fail e \<Rightarrow> (session_exception cid conn s, [])
     | Proceed \<Rightarrow> (case parse_payload (env_dbg E) (env_istream E) (env_xxh E) conn hdr of
           (Inl e, conn') \<Rightarrow> (session_exception cid conn' s, [])
         | (Inr maybe_payload, conn') \<Rightarrow>
             (let (s', fs) = dispatch_rpc E (hdr_size hdr) cid conn' maybe_payload (set_conn cid conn' s)
              in (s', fs @ [Session cid]))))"

text \<open>\<^verbatim>\<open>do_dispatch_rpc\<close>, cut where it waits for a filter, the handler or the socket.\<close>

definition do_dispatch_rpc ::
    "u64 \<Rightarrow> u32 \<Rightarrow> rpc_recv_context \<Rightarrow> 'is rpc_connection \<Rightarrow> ('is, 'sem, 'gate) rpc_server \<Rightarrow>
     ('is, 'sem, 'gate) rpc_server \<times> fiber list" where
  "do_dispatch_rpc cid n ctx conn s =
     (if ctx_request_id ctx = 0
      then (set_conn cid (set_error ''Missing request_id. Invalid request'' conn) s, [Cleanup cid n])
      else (case get_handle_for_request (routes s) (ctx_request_id ctx) of
          None \<Rightarrow>
            (set_conn cid (set_error ''Can't find route for request. Invalid'' conn)
               (upd_stats (\<lambda>st. st\<lparr>no_route_requests := no_route_requests st + 1\<rparr>) s),
             [Cleanup cid n])
        | Some method_dispatch \<Rightarrow>
            (upd_stats (\<lambda>st. st\<lparr>in_bytes := in_bytes st +
               (ucast (hdr_size (ctx_header ctx)) + word_of_nat (length (ctx_payload ctx)))\<rparr>) s,
             [Incoming cid n ctx method_dispatch])))"

definition dispatch_incoming ::
    "('is, 'sem, 'gate) seastar_env \<Rightarrow> u64 \<Rightarrow> u32 \<Rightarrow> rpc_recv_context \<Rightarrow> handle \<Rightarrow> 'is rpc_connection \<Rightarrow>
     ('is, 'sem, 'gate) rpc_server \<Rightarrow> ('is, 'sem, 'gate) rpc_server \<times> fiber list" where
  "dispatch_incoming E cid n ctx h conn s = (case rpc_filter_apply (in_filters s) ctx of
       Inl e \<Rightarrow> (s, [Release cid n])
     | Inr ctx' \<Rightarrow>
         (if hdr_compression (ctx_header ctx') \<noteq> compression_flags_none
          then (set_conn cid (set_error (env_format_compression E (hdr_compression (ctx_header ctx')))
                  conn) s, [Flush_reply cid n])
          else (s, [Handle cid n ctx' h])))"

definition dispatch_handle ::
    "u64 \<Rightarrow> u32 \<Rightarrow> rpc_recv_context \<Rightarrow> handle \<Rightarrow> ('is, 'sem, 'gate) rpc_server \<Rightarrow>
     ('is, 'sem, 'gate) rpc_server \<times> fiber list" where
  "dispatch_handle cid n ctx h s = (case h ctx of
       Inl e \<Rightarrow> (s, [Release cid n])
     | Inr e \<Rightarrow> (s, [Outgoing cid n e]))"

definition dispatch_outgoing ::
    "u64 \<Rightarrow> u32 \<Rightarrow> rpc_envelope \<Rightarrow> ('is, 'sem, 'gate) rpc_server \<Rightarrow>
     ('is, 'sem, 'gate) rpc_server \<times> fiber list" where
  "dispatch_outgoing cid n e s = (case rpc_filter_apply (out_filters s) e of
       Inl ex \<Rightarrow> (s, [Release cid n])
     | Inr e' \<Rightarrow> (s, [Reply cid n e']))"

text \<open>
  The write happens under the connection's semaphore \<^verbatim>\<open>serialize_writes\<close> of one unit, so the
  three calls of a \<^verbatim>\<open>send\<close> are one step.
\<close>

definition dispatch_reply ::
    "('is, 'sem, 'gate) seastar_env \<Rightarrow> outcome \<Rightarrow> u64 \<Rightarrow> u32 \<Rightarrow> rpc_envelope \<Rightarrow> 'is rpc_connection \<Rightarrow>
     ('is, 'sem, 'gate) rpc_server \<Rightarrow> ('is, 'sem, 'gate) rpc_server \<times> fiber list" where
  "dispatch_reply E oc cid n e conn s =
     (if \<not> is_valid (env_istream E) conn then (s, [Flush_reply cid n])
      else
        let s1 = upd_stats (\<lambda>st. st\<lparr>out_bytes := out_bytes st +
                   word_of_nat (letter_size (env_letter e))\<rparr>) s
        in (case oc of
              Fail ex \<Rightarrow> (s1, [Release cid n])
            | Proceed \<Rightarrow> (case rpc_envelope_send (env_dbg E) (conn_ostream conn) e of
                  Inl ex \<Rightarrow> (s1, [Release cid n])
                | Inr os \<Rightarrow> (set_conn cid (conn\<lparr>conn_ostream := os\<rparr>) s1, [Flush_reply cid n]))))"

definition dispatch_flush ::
    "('is, 'sem, 'gate) seastar_env \<Rightarrow> outcome \<Rightarrow> u64 \<Rightarrow> u32 \<Rightarrow> 'is rpc_connection \<Rightarrow>
     ('is, 'sem, 'gate) rpc_server \<Rightarrow> ('is, 'sem, 'gate) rpc_server \<times> fiber list" where
  "dispatch_flush E oc cid n conn s =
     (if is_valid (env_istream E) conn
      then (case oc of
              Fail ex \<Rightarrow> (s, [Release cid n])
            | Proceed \<Rightarrow>
                (set_conn cid (conn\<lparr>conn_ostream := conn_ostream conn @ [Flush]\<rparr>) s, [Cleanup cid n]))
      else (s, [Cleanup cid n]))"

text \<open>The \<^verbatim>\<open>finally\<close> of \<^verbatim>\<open>dispatch_rpc\<close>, and the end of its \<^verbatim>\<open>with_gate\<close>.\<close>

definition dispatch_release ::
    "('is, 'sem, 'gate) seastar_env \<Rightarrow> u32 \<Rightarrow> ('is, 'sem, 'gate) rpc_server \<Rightarrow>
     ('is, 'sem, 'gate) rpc_server" where
  "dispatch_release E payload_size s =
     (signal_units E (scast payload_size) s)
       \<lparr>measured := Suc (measured s), reply_gate := gate_leave E (reply_gate s)\<rparr>"

fun fiber_conn :: "fiber \<Rightarrow> u64" where
  "fiber_conn (Session i) = i"
| "fiber_conn (Read_header i) = i"
| "fiber_conn (Wait_memory i h) = i"
| "fiber_conn (Read_payload i h) = i"
| "fiber_conn (Dispatch i n c) = i"
| "fiber_conn (Incoming i n c h) = i"
| "fiber_conn (Handle i n c h) = i"
| "fiber_conn (Outgoing i n e) = i"
| "fiber_conn (Reply i n e) = i"
| "fiber_conn (Flush_reply i n) = i"
| "fiber_conn (Cleanup i n) = i"
| "fiber_conn (Release i n) = i"

fun exec_conn ::
    "('is, 'sem, 'gate) seastar_env \<Rightarrow> outcome \<Rightarrow> fiber \<Rightarrow> 'is rpc_connection \<Rightarrow>
     ('is, 'sem, 'gate) rpc_server \<Rightarrow> (('is, 'sem, 'gate) rpc_server \<times> fiber list) option" where
  "exec_conn E oc (Session i) c s = Some (session_loop E i c s)"
| "exec_conn E oc (Read_header i) c s = Some (session_header E oc i c s)"
| "exec_conn E oc (Wait_memory i h) c s = session_wait E i h s"
| "exec_conn E oc (Read_payload i h) c s = Some (session_payload E oc i h c s)"
| "exec_conn E oc (Dispatch i n ctx) c s = Some (do_dispatch_rpc i n ctx c s)"
| "exec_conn E oc (Incoming i n ctx h) c s = Some (dispatch_incoming E i n ctx h c s)"
| "exec_conn E oc (Handle i n ctx h) c s = Some (dispatch_handle i n ctx h s)"
| "exec_conn E oc (Outgoing i n e) c s = Some (dispatch_outgoing i n e s)"
| "exec_conn E oc (Reply i n e) c s = Some (dispatch_reply E oc i n e c s)"
| "exec_conn E oc (Flush_reply i n) c s = Some (dispatch_flush E oc i n c s)"
| "exec_conn E oc (Cleanup i n) c s = Some (cleanup_dispatch_rpc i c s, [Release i n])"
| "exec_conn E oc (Release i n) c s = Some (dispatch_release E n s, [])"

text \<open>Running the continuation of one fiber, with the connection it refers to.\<close>

definition exec ::
    "('is, 'sem, 'gate) seastar_env \<Rightarrow> outcome \<Rightarrow> fiber \<Rightarrow> ('is, 'sem, 'gate) rpc_server \<Rightarrow>
     (('is, 'sem, 'gate) rpc_server \<times> fiber list) option" where
  "exec E oc f s = (case heap s (fiber_conn f) of
       None \<Rightarrow> None
     | Some c \<Rightarrow> exec_conn E oc f c s)"

section \<open>The transition system\<close>

text \<open>
  \<^verbatim>\<open>start\<close> opens the HTTP server unless it is disabled, listens, and starts the accept
  loop; an exception of \<^verbatim>\<open>accept\<close> ends the loop.
\<close>

definition start :: "('is, 'sem, 'gate) rpc_server \<Rightarrow> ('is, 'sem, 'gate) rpc_server" where
  "start s =
     (let s1 = (if and (arg_flags (args s)) rpc_server_flags_disable_http_server = 0
                then s\<lparr>admin := Some (arg_ip (args s), arg_http_port (args s))\<rparr> else s)
      in s1\<lparr>listener := Some (arg_credentials (args s), (arg_ip (args s), arg_rpc_port (args s))),
            accepting := True\<rparr>)"

definition accept_exception :: "('is, 'sem, 'gate) rpc_server \<Rightarrow> ('is, 'sem, 'gate) rpc_server" where
  "accept_exception s = s\<lparr>accepting := False, stopped := True\<rparr>"

text \<open>
  \<^verbatim>\<open>stop\<close> aborts the accept loop; once the loop has ended it shuts the input of every
  open connection down, closes the gate and stops the HTTP server.
\<close>

definition stop :: "('is, 'sem, 'gate) rpc_server \<Rightarrow> ('is, 'sem, 'gate) rpc_server" where
  "stop s = s\<lparr>accept_aborted := True, stopping := True\<rparr>"

definition stop_continuation ::
    "('is, 'sem, 'gate) seastar_env \<Rightarrow> ('is, 'sem, 'gate) rpc_server \<Rightarrow> ('is, 'sem, 'gate) rpc_server" where
  "stop_continuation E s = s\<lparr>stopping := False,
     heap := (\<lambda>cid. if cid \<in> open_connections s
                   then map_option (socket_do [Shutdown_input]) (heap s cid) else heap s cid),
     reply_gate := gate_close E (reply_gate s), admin := None\<rparr>"

datatype 'is event =
    Ev_start
  | Ev_stop
  | Ev_accept_exception
  | Ev_stopped
  | Ev_accept 'is address
  | Ev_destroy u64
  | Ev_run fiber outcome

text \<open>
  One step. A new connection gets a fresh id: the 64-bit counter does not come back to an id
  that is still in use. \<^verbatim>\<open>start\<close> and \<^verbatim>\<open>stop\<close> are called once each.
\<close>

inductive server_step ::
    "('is, 'sem, 'gate) seastar_env \<Rightarrow> ('is, 'sem, 'gate) rpc_server \<Rightarrow> 'is event \<Rightarrow>
     ('is, 'sem, 'gate) rpc_server \<Rightarrow> bool" for E where
  st_start: "listener s = None \<Longrightarrow> server_step E s Ev_start (start s)"
| st_accept_exception: "accepting s \<Longrightarrow> server_step E s Ev_accept_exception (accept_exception s)"
| st_stop: "listener s \<noteq> None \<Longrightarrow> \<not> accept_aborted s \<Longrightarrow> server_step E s Ev_stop (stop s)"
| st_stopped: "stopping s \<Longrightarrow> stopped s \<Longrightarrow> server_step E s Ev_stopped (stop_continuation E s)"
| st_accept: "accepting s \<Longrightarrow> \<not> accept_aborted s \<Longrightarrow> heap s (connection_idx s + 1) = None \<Longrightarrow>
    server_step E s (Ev_accept i a) (accept_connection i a s)"
| st_destroy: "heap s cid = Some c \<Longrightarrow> cid \<notin> open_connections s \<Longrightarrow>
    cid \<notin> fiber_conn ` set (fibers s) \<Longrightarrow> server_step E s (Ev_destroy cid) (destroy_connection cid s)"
| st_run: "fibers s = xs @ f # ys \<Longrightarrow> exec E oc f s = Some (s', fs) \<Longrightarrow>
    server_step E s (Ev_run f oc) (s'\<lparr>fibers := xs @ fs @ ys\<rparr>)"

text \<open>The same steps as a function of the choices the environment makes, for evaluation.\<close>

datatype 'is action =
    Do_start
  | Do_accept_exception
  | Do_stop
  | Do_stopped
  | Do_accept 'is address
  | Do_destroy u64
  | Do_fiber nat outcome

fun act ::
    "('is, 'sem, 'gate) seastar_env \<Rightarrow> 'is action \<Rightarrow> ('is, 'sem, 'gate) rpc_server \<Rightarrow>
     ('is event \<times> ('is, 'sem, 'gate) rpc_server) option" where
  "act E Do_start s = (if listener s = None then Some (Ev_start, start s) else None)"
| "act E Do_accept_exception s =
     (if accepting s then Some (Ev_accept_exception, accept_exception s) else None)"
| "act E Do_stop s =
     (if listener s \<noteq> None \<and> \<not> accept_aborted s then Some (Ev_stop, stop s) else None)"
| "act E Do_stopped s =
     (if stopping s \<and> stopped s then Some (Ev_stopped, stop_continuation E s) else None)"
| "act E (Do_accept i a) s =
     (if accepting s \<and> \<not> accept_aborted s \<and> Option.is_none (heap s (connection_idx s + 1))
      then Some (Ev_accept i a, accept_connection i a s) else None)"
| "act E (Do_destroy cid) s =
     (if \<not> Option.is_none (heap s cid) \<and> cid \<notin> open_connections s \<and>
         list_all (\<lambda>f. fiber_conn f \<noteq> cid) (fibers s)
      then Some (Ev_destroy cid, destroy_connection cid s) else None)"
| "act E (Do_fiber n oc) s =
     (if n < length (fibers s)
      then (case exec E oc (fibers s ! n) s of
              None \<Rightarrow> None
            | Some (s', fs) \<Rightarrow> Some (Ev_run (fibers s ! n) oc,
                s'\<lparr>fibers := take n (fibers s) @ fs @ drop (Suc n) (fibers s)\<rparr>))
      else None)"

lemma act_step: "act E a s = Some (e, t) \<Longrightarrow> server_step E s e t"
proof (induction E a s rule: act.induct)
  case (7 E n oc s)
  then show ?case
    by (auto simp: id_take_nth_drop intro!: st_run split: if_splits option.splits)
qed (auto simp: Option.is_none_def list_all_iff intro: server_step.intros split: if_splits)

fun play ::
    "('is, 'sem, 'gate) seastar_env \<Rightarrow> 'is action list \<Rightarrow> ('is, 'sem, 'gate) rpc_server \<Rightarrow>
     ('is event list \<times> ('is, 'sem, 'gate) rpc_server) option" where
  "play E [] s = Some ([], s)"
| "play E (a # as) s = (case act E a s of
       None \<Rightarrow> None
     | Some (e, s') \<Rightarrow> (case play E as s' of
           None \<Rightarrow> None
         | Some (es, t) \<Rightarrow> Some (e # es, t)))"

lemma play_run: "play E as s = Some (es, t) \<Longrightarrow> run (server_step E) s es t"
proof (induction as arbitrary: s es)
  case Nil
  then show ?case by (simp add: run_Nil_iff)
next
  case (Cons a as)
  then obtain e s' es' where "act E a s = Some (e, s')" "play E as s' = Some (es', t)" "es = e # es'"
    by (auto split: option.splits)
  with Cons.IH show ?case using act_step run_cons by metis
qed

lemmas session_defs [srv_defs] = session_exception_def session_loop_def session_header_def session_wait_def
  session_payload_def
lemmas dispatch_defs [srv_defs] = dispatch_rpc_def do_dispatch_rpc_def dispatch_incoming_def
  dispatch_handle_def dispatch_outgoing_def dispatch_reply_def dispatch_flush_def
  dispatch_release_def

section \<open>An environment for evaluation\<close>

text \<open>
  A semaphore as its counter, read as a signed number; a gate as its counter and whether it is
  closed.
\<close>

definition example_env :: "(bytes, u64, nat \<times> bool) seastar_env" where
  "example_env = \<lparr>env_dbg = False, env_istream = list_istream, env_xxh = example_xxh,
     env_format_compression = (\<lambda>c. ''There was no decompression filter for compression enum''),
     sem_init = (\<lambda>n. n),
     sem_wait = (\<lambda>units n. if 0 \<le> sint units \<and> n \<le> units then Some (units - n) else None),
     sem_signal = (\<lambda>units n. units + n),
     gate_init = (0, False),
     gate_enter = (\<lambda>(n, closed). if closed then None else Some (Suc n, closed)),
     gate_leave = (\<lambda>(n, closed). (n - 1, closed)),
     gate_close = (\<lambda>(n, closed). (n, True)),
     gate_is_closed = (\<lambda>(n, closed). closed),
     gate_drained = (\<lambda>(n, closed). n = 0)\<rparr>"

lemmas server_eval = example_env_def list_istream_def configured_server_def rpc_server_new_def
  rpc_server_args_default_def rpc_connection_limits_new_def rpc_server_stats_zero_def start_def
  accept_exception_def stop_def stop_continuation_def accept_connection_def
  rpc_server_connection_new_def rpc_server_connection_options_new_def rpc_connection_new_def
  upd_stats_def exec_def is_valid_def has_error_def socket_do_def parse_header_def
  set_conn_def signal_units_def set_error_def
  cleanup_dispatch_rpc_def disable_def destroy_connection_def srv_defs

end
