(* ===== verification/Rpc_Server_Accounting.thy ===== *)
theory Rpc_Server_Accounting
  imports Rpc_Server
begin

text \<open>
  Connections and their accounting in every state the server can reach: which connections are
  open, when they are closed, and what the statistics count.
\<close>

section \<open>What one continuation may do to the connections\<close>

definition conn_le :: "'is rpc_connection \<Rightarrow> 'is rpc_connection \<Rightarrow> bool" where
  "conn_le c c' \<longleftrightarrow> (has_error c \<longrightarrow> has_error c') \<and> (conn_enabled c' \<longrightarrow> conn_enabled c)"

text \<open>
  Connections are neither created nor destroyed; errors stay; a connection leaves the open
  ones only with an error and disabled; every such exit moves one unit from active to bad.
\<close>

definition ok_step ::
    "('is, 'sem, 'gate) rpc_server \<Rightarrow> ('is, 'sem, 'gate) rpc_server \<Rightarrow> bool" where
  "ok_step s s' \<longleftrightarrow>
     dom (heap s') = dom (heap s) \<and> open_connections s' \<subseteq> open_connections s \<and>
     connection_idx s' = connection_idx s \<and>
     total_connections (stats s') = total_connections (stats s) \<and>
     active_connections (stats s') + bad_requests (stats s') =
       active_connections (stats s) + bad_requests (stats s) \<and>
     bad_requests (stats s') + word_of_nat (card (open_connections s')) =
       bad_requests (stats s) + word_of_nat (card (open_connections s)) \<and>
     (\<forall>cid c c'. heap s cid = Some c \<longrightarrow> heap s' cid = Some c' \<longrightarrow> conn_le c c' \<and>
        (cid \<in> open_connections s \<longrightarrow> cid \<notin> open_connections s' \<longrightarrow>
           has_error c' \<and> \<not> conn_enabled c'))"

lemma conn_le_refl [simp]: "conn_le c c"
  by (simp add: conn_le_def)

lemma conn_le_trans: "conn_le a b \<Longrightarrow> conn_le b c \<Longrightarrow> conn_le a c"
  by (simp add: conn_le_def)

lemma conn_le_simps [simp]:
  "conn_le c (set_error e c)" "conn_le c (c\<lparr>conn_istream := i\<rparr>)" "conn_le c (c\<lparr>conn_ostream := os\<rparr>)"
  "conn_le c (disable c)" "conn_le c (socket_do calls c)"
  by (simp_all add: conn_le_def) (simp_all add: disable_def socket_do_def)

lemma ok_step_refl [simp]: "ok_step s s"
  by (simp add: ok_step_def)

lemma ok_step_trans:
  assumes "ok_step s t" "ok_step t u"
  shows "ok_step s u"
proof -
  have closed: "conn_le c c'' \<and> (cid \<in> open_connections s \<longrightarrow> cid \<notin> open_connections u \<longrightarrow>
      has_error c'' \<and> \<not> conn_enabled c'')"
    if h: "heap s cid = Some c" "heap u cid = Some c''" for cid c c''
  proof -
    from assms(1) h(1) obtain c' where c': "heap t cid = Some c'"
      unfolding ok_step_def by blast
    with assms(1) h(1) have st: "conn_le c c'"
      "cid \<in> open_connections s \<longrightarrow> cid \<notin> open_connections t \<longrightarrow> has_error c' \<and> \<not> conn_enabled c'"
      unfolding ok_step_def by blast+
    from assms(2) c' h(2) have tu: "conn_le c' c''"
      "cid \<in> open_connections t \<longrightarrow> cid \<notin> open_connections u \<longrightarrow> has_error c'' \<and> \<not> conn_enabled c''"
      unfolding ok_step_def by blast+
    from st tu show ?thesis by (auto simp: conn_le_def)
  qed
  with assms show ?thesis by (auto simp: ok_step_def)
qed

lemma ok_step_set_conn:
  "heap s cid = Some c \<Longrightarrow> conn_le c c' \<Longrightarrow> ok_step s (set_conn cid c' s)"
  by (auto simp: ok_step_def)

lemma ok_step_upd_stats:
  assumes "\<And>st. active_connections (f st) = active_connections st"
    "\<And>st. total_connections (f st) = total_connections st"
    "\<And>st. bad_requests (f st) = bad_requests st"
  shows "ok_step s (upd_stats f s)"
  using assms by (simp add: ok_step_def)

lemma ok_step_signal: "ok_step s (signal_units E n s)"
  by (simp add: ok_step_def)

lemma ok_step_cleanup:
  assumes "heap s cid = Some c" and "finite (open_connections s)"
  shows "ok_step s (cleanup_dispatch_rpc cid c s)"
proof (cases "has_error c \<and> cid \<in> open_connections s")
  case True
  then have "card (open_connections s) = Suc (card (open_connections s - {cid}))"
    using assms(2) by (intro card.remove) simp_all
  then have "ok_step s (set_conn cid (socket_do [Shutdown_input, Shutdown_output] (disable c))
      (upd_stats (\<lambda>st. st\<lparr>bad_requests := bad_requests st + 1,
          active_connections := active_connections st - 1\<rparr>)
        (s\<lparr>open_connections := open_connections s - {cid}\<rparr>)))"
    using assms(1) True
    by (auto simp: ok_step_def conn_le_def disable_def socket_do_def has_error_def)
  with True show ?thesis by (simp add: cleanup_dispatch_rpc_def)
next
  case False
  then show ?thesis
    by (auto simp: cleanup_dispatch_rpc_def intro: ok_step_upd_stats)
qed

lemma ok_step_dom: "ok_step s t \<Longrightarrow> heap s cid = Some c \<Longrightarrow> \<exists>c'. heap t cid = Some c'"
  unfolding ok_step_def by blast

lemma ok_step_finite: "ok_step s t \<Longrightarrow> finite (open_connections s) \<Longrightarrow> finite (open_connections t)"
  unfolding ok_step_def using finite_subset by blast

lemma ok_step_session_exception:
  assumes "heap s cid = Some c" "conn_le c c'" "finite (open_connections s)"
  shows "ok_step s (session_exception cid c' s)"
proof -
  let ?s0 = "set_conn cid c' s"
  let ?s1 = "cleanup_dispatch_rpc cid c' ?s0"
  have 0: "ok_step s ?s0" using assms by (blast intro: ok_step_set_conn)
  have 1: "ok_step ?s0 ?s1" using assms by (intro ok_step_cleanup) simp_all
  obtain d where d: "heap ?s1 cid = Some d" using ok_step_dom [OF 1, of cid c'] by auto
  let ?d = "set_error ''handling client session exception'' d"
  have 2: "ok_step ?s1 (set_conn cid ?d ?s1)" by (rule ok_step_set_conn [OF d]) simp
  have fin: "finite (open_connections ?s1)"
    using ok_step_finite [OF 1] assms(3) by simp
  have 3: "ok_step (set_conn cid ?d ?s1) (cleanup_dispatch_rpc cid ?d (set_conn cid ?d ?s1))"
    using fin by (intro ok_step_cleanup) simp_all
  from 0 1 2 3 d show ?thesis
    by (auto simp: session_exception_def Let_def intro: ok_step_trans)
qed

lemma parse_header_conn_le: "parse_header dbg ops c = (r, c') \<Longrightarrow> conn_le c c'"
  by (auto simp: parse_header_def Let_def conn_le_def split: if_splits prod.splits)

lemma parse_payload_conn_le: "parse_payload dbg ops xxh c h = (r, c') \<Longrightarrow> conn_le c c'"
  by (auto simp: parse_payload_def Let_def conn_le_def split: prod.splits)

section \<open>Every continuation respects it\<close>

lemmas ok_intros = ok_step_set_conn ok_step_upd_stats ok_step_signal ok_step_cleanup
  ok_step_session_exception conn_le_trans

lemma ok_step_gate: "ok_step s t \<Longrightarrow> ok_step s (t\<lparr>reply_gate := g\<rparr>)"
  by (simp add: ok_step_def)

lemma ok_step_release: "ok_step s (dispatch_release E n s)"
  by (simp add: ok_step_def dispatch_release_def)

lemma ok_step_limits: "ok_step s t \<Longrightarrow> ok_step s (t\<lparr>limits := l\<rparr>)"
  by (simp add: ok_step_def)

lemma ok_dispatch_rpc:
  assumes "heap s cid = Some c" "dispatch_rpc E n cid c ctx s = (s', fs)"
  shows "ok_step s s' \<and> fiber_conn ` set fs \<subseteq> {cid}"
proof (cases ctx)
  case None
  have "ok_step (signal_units E (scast n) s) (set_conn cid (set_error ''Could not parse payload'' c)
      (signal_units E (scast n) s))"
    by (rule ok_step_set_conn [where c = c]) (simp_all add: assms(1))
  with assms(2) None show ?thesis
    using ok_step_trans [OF ok_step_signal] by (auto simp: dispatch_rpc_def)
next
  case (Some m)
  with assms(2) show ?thesis
    by (auto simp: dispatch_rpc_def intro: ok_step_gate split: option.splits)
qed

lemma ok_session_header:
  assumes "heap s cid = Some c" "finite (open_connections s)" "session_header E oc cid c s = (s', fs)"
  shows "ok_step s s' \<and> fiber_conn ` set fs \<subseteq> {cid}"
  using assms
  by (auto simp: session_header_def
      intro: ok_intros parse_header_conn_le ok_step_set_conn [OF _ conn_le_trans [OF _ conn_le_simps(1)]]
      split: outcome.splits prod.splits sum.splits option.splits)

lemma ok_session_payload:
  assumes "heap s cid = Some c" "finite (open_connections s)" "session_payload E oc cid h c s = (s', fs)"
  shows "ok_step s s' \<and> fiber_conn ` set fs \<subseteq> {cid}"
proof (cases oc)
  case (Fail e)
  with assms show ?thesis by (auto simp: session_payload_def intro: ok_intros)
next
  case Proceed
  obtain r c' where p: "parse_payload (env_dbg E) (env_istream E) (env_xxh E) c h = (r, c')"
    by fastforce
  note le = parse_payload_conn_le [OF p]
  show ?thesis
  proof (cases r)
    case (Inl e)
    with assms p le Proceed show ?thesis by (auto simp: session_payload_def intro: ok_intros)
  next
    case (Inr m)
    obtain t gs where d: "dispatch_rpc E (hdr_size h) cid c' m (set_conn cid c' s) = (t, gs)"
      by fastforce
    have "ok_step (set_conn cid c' s) t \<and> fiber_conn ` set gs \<subseteq> {cid}"
      using ok_dispatch_rpc [OF _ d] by simp
    with assms p le Proceed Inr d show ?thesis
      using ok_step_trans [OF ok_step_set_conn [OF assms(1) le]]
      by (fastforce simp: session_payload_def)
  qed
qed

lemma ok_do_dispatch_rpc:
  assumes "heap s cid = Some c" "do_dispatch_rpc cid n ctx c s = (s', fs)"
  shows "ok_step s s' \<and> fiber_conn ` set fs \<subseteq> {cid}"
proof -
  let ?u = "upd_stats (\<lambda>st. st\<lparr>no_route_requests := no_route_requests st + 1\<rparr>) s"
  have "ok_step s ?u" by (rule ok_step_upd_stats) simp_all
  moreover have "ok_step ?u (set_conn cid (set_error e c) ?u)" for e
    by (rule ok_step_set_conn [where c = c]) (simp_all add: assms(1))
  ultimately have "ok_step s (set_conn cid (set_error e c) ?u)" for e by (blast intro: ok_step_trans)
  with assms show ?thesis
    by (auto simp: do_dispatch_rpc_def intro: ok_intros split: if_splits option.splits)
qed

lemma ok_dispatch_reply:
  assumes "heap s cid = Some c" "dispatch_reply E oc cid n e c s = (s', fs)"
  shows "ok_step s s' \<and> fiber_conn ` set fs \<subseteq> {cid}"
proof -
  let ?u = "upd_stats (\<lambda>st. st\<lparr>out_bytes := out_bytes st + word_of_nat (letter_size (env_letter e))\<rparr>) s"
  have u: "ok_step s ?u" by (rule ok_step_upd_stats) simp_all
  have "ok_step ?u (set_conn cid (c\<lparr>conn_ostream := os\<rparr>) ?u)" for os
    by (rule ok_step_set_conn [where c = c]) (simp_all add: assms(1))
  with u have "ok_step s (set_conn cid (c\<lparr>conn_ostream := os\<rparr>) ?u)" for os
    by (blast intro: ok_step_trans)
  with u assms show ?thesis
    by (auto simp: dispatch_reply_def Let_def split: if_splits outcome.splits sum.splits)
qed

lemma ok_exec:
  assumes x: "exec E oc f s = Some (s', fs)" and fin: "finite (open_connections s)"
  shows "ok_step s s' \<and> fiber_conn ` set fs \<subseteq> {fiber_conn f} \<and> fiber_conn f \<in> dom (heap s)"
proof -
  from x obtain c where c: "heap s (fiber_conn f) = Some c" and xc: "exec_conn E oc f c s = Some (s', fs)"
    by (auto simp: exec_def split: option.splits)
  have "ok_step s s' \<and> fiber_conn ` set fs \<subseteq> {fiber_conn f}"
  proof (cases f)
    case (Session i)
    with c xc fin show ?thesis
      by (auto simp: session_loop_def intro: ok_intros split: if_splits)
  next
    case (Read_header i)
    with c xc fin show ?thesis using ok_session_header [of s i c] by auto
  next
    case (Wait_memory i h)
    with c xc show ?thesis
      by (auto simp: session_wait_def intro: ok_step_limits split: option.splits)
  next
    case (Read_payload i h)
    with c xc fin show ?thesis using ok_session_payload [of s i c] by auto
  next
    case (Dispatch i n ctx)
    with c xc show ?thesis using ok_do_dispatch_rpc [of s i c] by auto
  next
    case (Incoming i n ctx h)
    with c xc show ?thesis
      by (auto simp: dispatch_incoming_def intro: ok_intros split: sum.splits if_splits)
  next
    case (Handle i n ctx h)
    with c xc show ?thesis by (auto simp: dispatch_handle_def split: sum.splits)
  next
    case (Outgoing i n e)
    with c xc show ?thesis by (auto simp: dispatch_outgoing_def split: sum.splits)
  next
    case (Reply i n e)
    with c xc show ?thesis using ok_dispatch_reply [of s i c] by auto
  next
    case (Flush_reply i n)
    with c xc show ?thesis
      by (auto simp: dispatch_flush_def intro: ok_intros split: if_splits outcome.splits)
  next
    case (Cleanup i n)
    with c xc fin show ?thesis by (auto intro: ok_intros)
  next
    case (Release i n)
    with c xc show ?thesis
      by (auto intro: ok_step_release)
  qed
  with c show ?thesis by blast
qed

section \<open>The invariant of the connections\<close>

definition srv_inv :: "('is, 'sem, 'gate) rpc_server \<Rightarrow> bool" where
  "srv_inv s \<longleftrightarrow>
     finite (dom (heap s)) \<and> open_connections s \<subseteq> dom (heap s) \<and>
     fiber_conn ` set (fibers s) \<subseteq> dom (heap s) \<and>
     (\<forall>cid c. heap s cid = Some c \<longrightarrow> cid \<notin> open_connections s \<longrightarrow> has_error c \<and> \<not> conn_enabled c) \<and>
     active_connections (stats s) + bad_requests (stats s) = word_of_nat (card (dom (heap s))) \<and>
     bad_requests (stats s) + word_of_nat (card (open_connections s)) = total_connections (stats s) \<and>
     total_connections (stats s) = connection_idx s"

definition srv_init :: "('is, 'sem, 'gate) rpc_server \<Rightarrow> bool" where
  "srv_init s \<longleftrightarrow> heap s = Map.empty \<and> open_connections s = {} \<and> fibers s = [] \<and>
     stats s = rpc_server_stats_zero \<and> connection_idx s = 0"

lemma srv_init_new: "srv_init (configured_server E as services ins outs)"
  by (simp add: srv_init_def configured_server_def rpc_server_new_def)

lemma srv_inv_init: "srv_init s \<Longrightarrow> srv_inv s"
  by (simp add: srv_init_def srv_inv_def rpc_server_stats_zero_def)

lemma srv_inv_accept:
  assumes "srv_inv s" and fresh: "heap s (connection_idx s + 1) = None"
  shows "srv_inv (accept_connection i a s)"
proof -
  let ?id = "connection_idx s + 1"
  from assms(1) have fin: "finite (dom (heap s))" "open_connections s \<subseteq> dom (heap s)"
    by (simp_all add: srv_inv_def)
  have new: "?id \<notin> dom (heap s)" "?id \<notin> open_connections s" using fresh fin(2) by auto
  have "finite (open_connections s)" using fin finite_subset by blast
  with fin new have "card (insert ?id (dom (heap s))) = Suc (card (dom (heap s)))"
    "card (insert ?id (open_connections s)) = Suc (card (open_connections s))" by simp_all
  with assms(1) show ?thesis
    by (auto simp: srv_inv_def accept_connection_def Let_def algebra_simps)
qed

lemma srv_inv_destroy:
  assumes "srv_inv s" "heap s cid = Some c" "cid \<notin> open_connections s"
    "cid \<notin> fiber_conn ` set (fibers s)"
  shows "srv_inv (destroy_connection cid s)"
proof -
  from assms have "card (dom (heap s)) = Suc (card (dom (heap s) - {cid}))"
    by (intro card.remove) (auto simp: srv_inv_def)
  with assms show ?thesis
    by (auto simp: srv_inv_def destroy_connection_def algebra_simps)
qed

lemma srv_inv_run:
  assumes "srv_inv s" "fibers s = xs @ f # ys" "exec E oc f s = Some (s', fs)"
  shows "srv_inv (s'\<lparr>fibers := xs @ fs @ ys\<rparr>)"
proof -
  have fin: "finite (open_connections s)" using assms(1) finite_subset by (auto simp: srv_inv_def)
  from ok_exec [OF assms(3) fin] have ok: "ok_step s s'" "fiber_conn ` set fs \<subseteq> dom (heap s)"
    by auto
  have "has_error c' \<and> \<not> conn_enabled c'"
    if "heap s' cid = Some c'" "cid \<notin> open_connections s'" for cid c'
  proof -
    from ok(1) that(1) obtain c where "heap s cid = Some c" unfolding ok_step_def by blast
    with ok(1) that assms(1) show ?thesis
      unfolding ok_step_def srv_inv_def conn_le_def by blast
  qed
  with ok assms(1,2) show ?thesis by (auto simp: srv_inv_def ok_step_def)
qed

lemma dom_stop [simp]: "dom (heap (stop_continuation E s)) = dom (heap s)"
  by (auto simp: stop_continuation_def dom_def)

lemma srv_inv_stop: "srv_inv s \<Longrightarrow> srv_inv (stop_continuation E s)"
  unfolding srv_inv_def dom_stop by (auto simp: stop_continuation_def split: if_splits)

lemma srv_inv_step:
  assumes "server_step E s e t" "srv_inv s"
  shows "srv_inv t"
  using assms
proof (induction rule: server_step.induct)
  case (st_run s xs f ys oc s' fs)
  then show ?case using srv_inv_run by blast
next
  case (st_destroy s cid c)
  then show ?case using srv_inv_destroy by blast
qed (simp_all add: srv_inv_accept srv_inv_stop, simp_all add: srv_inv_def start_def stop_def
       accept_exception_def Let_def)

interpretation srv: invariant_system "server_step E" srv_init "\<lambda>e. True" srv_inv
  for E :: "('is, 'sem, 'gate) seastar_env"
  by unfold_locales (simp_all add: srv_inv_init srv_inv_step)

section \<open>The properties of the accounting\<close>

text \<open>
  C11: in every state the server can reach, whatever the peers, the timers and the order of
  the continuations: the ids of the open connections and of the running fibers are those of
  live connection objects; a connection object that is no longer open has an error and is
  disabled; and the counters satisfy bad + |open| = total = number of accepted connections
  and active + bad = number of live connection objects (modulo 2^64).
\<close>

theorem server_accounting:
  assumes "run (server_step E) (configured_server E as services ins outs) es t"
  shows "open_connections t \<subseteq> dom (heap t) \<and> fiber_conn ` set (fibers t) \<subseteq> dom (heap t) \<and>
    (\<forall>cid c. heap t cid = Some c \<longrightarrow> cid \<notin> open_connections t \<longrightarrow> has_error c \<and> \<not> conn_enabled c) \<and>
    bad_requests (stats t) + word_of_nat (card (open_connections t)) = connection_idx t \<and>
    total_connections (stats t) = connection_idx t \<and>
    active_connections (stats t) + bad_requests (stats t) = word_of_nat (card (dom (heap t)))"
  using srv.inv_run [OF srv_init_new assms] by (simp add: srv_inv_def list.pred_True)

definition example_closing :: "bytes action list" where
  "example_closing = [Do_start, Do_accept [] (1, 2), Do_fiber 0 Proceed, Do_fiber 0 Proceed,
     Do_fiber 0 Proceed, Do_destroy 1]"

theorem server_accounting_witness:
  "\<exists>es t. play example_env example_closing
       (configured_server example_env rpc_server_args_default [] [] []) = Some (es, t) \<and>
     bad_requests (stats t) = 1 \<and>
     bad_requests (stats t) + word_of_nat (card (open_connections t)) = connection_idx t"
proof -
  let ?s = "configured_server example_env rpc_server_args_default [] [] []"
  have "case play example_env example_closing ?s of None \<Rightarrow> False
    | Some (es, t) \<Rightarrow> bad_requests (stats t) = 1"
    by (simp add: example_closing_def server_eval parse_header_bytes_def kHeaderSize_def)
  then obtain es t where p: "play example_env example_closing ?s = Some (es, t)"
    and "bad_requests (stats t) = 1" by (auto split: option.splits)
  with server_accounting [OF play_run [OF p]] show ?thesis by blast
qed

text \<open>
  C17: when every connection object is gone, the counter of the active connections is not 0
  but minus the number of connections ever accepted: a connection that is closed decrements
  it in \<^verbatim>\<open>cleanup_dispatch_rpc\<close> and once more in its destructor.
\<close>

theorem active_connections_underflow:
  assumes "run (server_step E) (configured_server E as services ins outs) es t"
    and "heap t = Map.empty"
  shows "active_connections (stats t) = - total_connections (stats t)"
proof -
  from srv.inv_run [OF srv_init_new assms(1)] have "srv_inv t" by (simp add: list.pred_True)
  with assms(2) have "active_connections (stats t) + total_connections (stats t) = 0"
    by (auto simp: srv_inv_def)
  then show ?thesis by (simp add: eq_neg_iff_add_eq_0)
qed

theorem active_connections_underflow_witness:
  "\<exists>es t. play example_env example_closing
       (configured_server example_env rpc_server_args_default [] [] []) = Some (es, t) \<and>
     active_connections (stats t) = 0xFFFFFFFFFFFFFFFF"
proof -
  let ?s = "configured_server example_env rpc_server_args_default [] [] []"
  have "case play example_env example_closing ?s of None \<Rightarrow> False
    | Some (es, t) \<Rightarrow> heap t = Map.empty \<and> total_connections (stats t) = 1"
    by (simp add: example_closing_def server_eval parse_header_bytes_def kHeaderSize_def)
  then obtain es t where p: "play example_env example_closing ?s = Some (es, t)"
    and t: "heap t = Map.empty" "total_connections (stats t) = 1" by (auto split: option.splits)
  from active_connections_underflow [OF play_run [OF p] t(1)] t(2)
  have "active_connections (stats t) = 0xFFFFFFFFFFFFFFFF" by simp
  with p show ?thesis by blast
qed

end
