(* ===== verification/Rpc_Server_Memory.thy ===== *)
theory Rpc_Server_Memory
  imports Rpc_Server
begin

text \<open>
  The memory a server reserves for the payloads it reads: the semaphore
  \<^verbatim>\<open>resources_available\<close> of the limits, taken before a payload is read and given back
  when its request has been dispatched.
\<close>

section \<open>What the server relies on\<close>

text \<open>
  \<^verbatim>\<open>seastar::semaphore\<close>, with \<open>units\<close> the counter: \<^verbatim>\<open>signal\<close> adds, \<^verbatim>\<open>wait\<close>
  is granted when the counter is not negative and large enough, and subtracts.
\<close>

definition semaphore_law :: "('is, 'sem, 'gate) seastar_env \<Rightarrow> ('sem \<Rightarrow> u64) \<Rightarrow> bool" where
  "semaphore_law E units \<longleftrightarrow>
     (\<forall>n. units (sem_init E n) = n) \<and>
     (\<forall>sem n. units (sem_signal E sem n) = units sem + n) \<and>
     (\<forall>sem n. 0 \<le> sint (units sem) \<and> n \<le> units sem \<longleftrightarrow> sem_wait E sem n \<noteq> None) \<and>
     (\<forall>sem n sem'. sem_wait E sem n = Some sem' \<longrightarrow> units sem' = units sem - n)"

text \<open>
  \<^verbatim>\<open>seastar::gate\<close>: entering an open gate succeeds and leaves it open; leaving does not
  close it.
\<close>

definition gate_law :: "('is, 'sem, 'gate) seastar_env \<Rightarrow> ('gate \<Rightarrow> bool) \<Rightarrow> bool" where
  "gate_law E is_open \<longleftrightarrow>
     is_open (gate_init E) \<and>
     (\<forall>g. is_open g \<longrightarrow> (case gate_enter E g of None \<Rightarrow> False | Some g' \<Rightarrow> is_open g')) \<and>
     (\<forall>g. is_open g \<longrightarrow> is_open (gate_leave E g))"

text \<open>The units a fiber holds: the size of the payload it reads or dispatches.\<close>

fun held :: "fiber \<Rightarrow> nat" where
  "held (Session i) = 0"
| "held (Read_header i) = 0"
| "held (Wait_memory i h) = 0"
| "held (Read_payload i h) = unat (hdr_size h)"
| "held (Dispatch i n c) = unat n"
| "held (Incoming i n c h) = unat n"
| "held (Handle i n c h) = unat n"
| "held (Outgoing i n e) = unat n"
| "held (Reply i n e) = unat n"
| "held (Flush_reply i n) = unat n"
| "held (Cleanup i n) = unat n"
| "held (Release i n) = unat n"

definition held_by :: "fiber list \<Rightarrow> nat" where
  "held_by fs = sum_list (map held fs)"

lemma held_by_simps [simp]:
  "held_by [] = 0" "held_by (f # fs) = held f + held_by fs" "held_by (xs @ ys) = held_by xs + held_by ys"
  by (simp_all add: held_by_def)

section \<open>The invariant\<close>

text \<open>
  Runs in which the read of a payload is not interrupted by a timeout or by the socket, and
  that have not reached the closing of the gate in \<^verbatim>\<open>stop\<close>.
\<close>

fun undisturbed :: "'is event \<Rightarrow> bool" where
  "undisturbed (Ev_run (Read_payload i h) (Fail e)) = False"
| "undisturbed Ev_stopped = False"
| "undisturbed _ = True"

text \<open>The laws, a limit below 2 GB, and the balance of the units.\<close>

definition laws ::
    "('is, 'sem, 'gate) seastar_env \<Rightarrow> ('sem \<Rightarrow> u64) \<Rightarrow> ('gate \<Rightarrow> bool) \<Rightarrow> ('is \<Rightarrow> bytes) \<Rightarrow> bool" where
  "laws E units is_open contents \<longleftrightarrow>
     semaphore_law E units \<and> gate_law E is_open \<and> istream_law (env_istream E) contents"

definition mem_inv ::
    "('is, 'sem, 'gate) seastar_env \<Rightarrow> ('sem \<Rightarrow> u64) \<Rightarrow> ('gate \<Rightarrow> bool) \<Rightarrow> ('is \<Rightarrow> bytes) \<Rightarrow>
     ('is, 'sem, 'gate) rpc_server \<Rightarrow> bool" where
  "mem_inv E units is_open contents s \<longleftrightarrow>
     laws E units is_open contents \<and> unat (max_memory (limits s)) < 2 ^ 31 \<and>
     is_open (reply_gate s) \<and>
     unat (units (resources_available (limits s))) + held_by (fibers s) = unat (max_memory (limits s))"

definition mem_init ::
    "('is, 'sem, 'gate) seastar_env \<Rightarrow> ('sem \<Rightarrow> u64) \<Rightarrow> ('gate \<Rightarrow> bool) \<Rightarrow> ('is \<Rightarrow> bytes) \<Rightarrow>
     ('is, 'sem, 'gate) rpc_server \<Rightarrow> bool" where
  "mem_init E units is_open contents s \<longleftrightarrow>
     laws E units is_open contents \<and>
     (\<exists>as services ins outs. s = configured_server E as services ins outs \<and>
        unat (arg_memory_avail_per_core as) < 2 ^ 31)"

lemma mem_inv_init: "mem_init E units is_open contents s \<Longrightarrow> mem_inv E units is_open contents s"
  by (auto simp: mem_init_def mem_inv_def laws_def semaphore_law_def gate_law_def
      configured_server_def rpc_server_new_def rpc_connection_limits_new_def)

text \<open>
  The effect of a continuation on the balance: \<open>held f\<close> is replaced by what the new fibers
  hold, and the units move by the difference.
\<close>

definition balanced ::
    "('sem \<Rightarrow> u64) \<Rightarrow> ('gate \<Rightarrow> bool) \<Rightarrow> ('is, 'sem, 'gate) rpc_server \<Rightarrow> fiber \<Rightarrow>
     ('is, 'sem, 'gate) rpc_server \<times> fiber list \<Rightarrow> bool" where
  "balanced units is_open s f r \<longleftrightarrow> (case r of (s', fs) \<Rightarrow>
     max_memory (limits s') = max_memory (limits s) \<and> is_open (reply_gate s') \<and>
     unat (units (resources_available (limits s'))) + held_by fs =
       unat (units (resources_available (limits s))) + held f)"

lemma cleanup_frame [simp]:
  "limits (cleanup_dispatch_rpc cid c s) = limits s"
  "reply_gate (cleanup_dispatch_rpc cid c s) = reply_gate s"
  by (simp_all add: cleanup_dispatch_rpc_def)

lemma session_exception_frame [simp]:
  "limits (session_exception cid c s) = limits s"
  "reply_gate (session_exception cid c s) = reply_gate s"
  by (simp_all add: session_exception_def Let_def)

text \<open>Giving back a payload size below 2 GB: no sign extension, no wrap-around.\<close>

lemma unat_ucast_u64 [simp]: "unat (ucast (n :: u32) :: u64) = unat n"
proof -
  have "unat n < 2 ^ 32" using unsigned_less [of n, where ?'a = nat] by simp
  then have "take_bit 64 (unat n) = unat n" by (intro take_bit_nat_eq_self) simp
  then show ?thesis by (simp add: unsigned_ucast_eq)
qed

lemma scast_small: "unat (n :: u32) < 2 ^ 31 \<Longrightarrow> unat (scast n :: u64) = unat n"
proof -
  assume n: "unat n < 2 ^ 31"
  then have "\<not> bit (unat n) 31" by (simp add: bit_iff_odd)
  then have "\<not> bit n 31" by (simp add: bit_unsigned_iff)
  then have "scast n = (ucast n :: u64)"
    by (intro bit_word_eqI) (auto simp: bit_simps min_def le_less dest: bit_imp_le_length)
  then show ?thesis by simp
qed

lemma signal_back:
  assumes "laws E units is_open contents" "unat n < 2 ^ 31"
    and "unat (units (resources_available (limits s))) + unat n < 2 ^ 31"
  shows "unat (units (resources_available (limits (signal_units E (scast (n :: u32)) s)))) =
    unat (units (resources_available (limits s))) + unat n"
proof -
  from assms(1) have "units (sem_signal E sem m) = units sem + m" for sem m
    by (simp add: laws_def semaphore_law_def)
  with assms(2,3) show ?thesis
    by (simp add: unat_plus_if' scast_small)
qed

lemma balanced_wait:
  assumes "laws E units is_open contents" "is_open (reply_gate s)"
    and "session_wait E cid h s = Some r"
  shows "balanced units is_open s (Wait_memory cid h) r"
proof -
  from assms(3) obtain sem where w: "sem_wait E (resources_available (limits s)) (ucast (hdr_size h)) = Some sem"
    and r: "r = (s\<lparr>limits := (limits s)\<lparr>resources_available := sem\<rparr>\<rparr>, [Read_payload cid h])"
    by (auto simp: session_wait_def split: option.splits)
  from assms(1) w have "ucast (hdr_size h) \<le> units (resources_available (limits s))"
    and "units sem = units (resources_available (limits s)) - ucast (hdr_size h)"
    unfolding laws_def semaphore_law_def by blast+
  then show ?thesis using assms(2) r
    by (simp add: balanced_def unat_sub word_le_nat_alt)
qed

lemma parse_payload_total:
  assumes "istream_law (env_istream E) contents"
  shows "\<exists>m c'. parse_payload dbg (env_istream E) xxh c h = (Inr m, c')"
proof -
  obtain b i where "is_read_exactly (env_istream E) (conn_istream c) (unat (hdr_size h)) = (Inr b, i)"
    using assms unfolding istream_law_def by (metis prod.collapse)
  then show ?thesis
    by (auto simp: parse_payload_def parse_payload_bytes_def rpc_recv_context_new_def Let_def)
qed

lemma balanced_payload:
  assumes l: "laws E units is_open contents" and g: "is_open (reply_gate s)"
    and small: "unat (units (resources_available (limits s))) + unat (hdr_size h) < 2 ^ 31"
  shows "balanced units is_open s (Read_payload cid h) (session_payload E Proceed cid h c s)"
proof -
  from l obtain m c' where p: "parse_payload (env_dbg E) (env_istream E) (env_xxh E) c h = (Inr m, c')"
    using parse_payload_total [of E contents "env_dbg E" "env_xxh E" c h] by (auto simp: laws_def)
  show ?thesis
  proof (cases m)
    case None
    have "unat (hdr_size h) < 2 ^ 31" using small by simp
    from signal_back [OF l this, of "set_conn cid c' s"] small p None g show ?thesis
      by (simp add: balanced_def session_payload_def dispatch_rpc_def)
  next
    case (Some ctx)
    from l g obtain g' where "gate_enter E (reply_gate s) = Some g'" "is_open g'"
      by (auto simp: laws_def gate_law_def split: option.splits)
    with Some p show ?thesis
      by (simp add: balanced_def session_payload_def dispatch_rpc_def)
  qed
qed

lemma balanced_release:
  assumes l: "laws E units is_open contents" and g: "is_open (reply_gate s)"
    and small: "unat (units (resources_available (limits s))) + unat n < 2 ^ 31"
  shows "balanced units is_open s (Release cid n) (dispatch_release E n s, [])"
proof -
  have "is_open (gate_leave E (reply_gate s))" using l g by (simp add: laws_def gate_law_def)
  moreover have "unat n < 2 ^ 31" using small by simp
  ultimately show ?thesis using signal_back [OF l _ small]
    by (simp add: balanced_def dispatch_release_def)
qed

lemma balanced_exec:
  assumes l: "laws E units is_open contents" and g: "is_open (reply_gate s)"
    and small: "unat (units (resources_available (limits s))) + held f < 2 ^ 31"
    and u: "undisturbed (Ev_run f oc)" and x: "exec E oc f s = Some r"
  shows "balanced units is_open s f r"
proof -
  from x obtain c where xc: "exec_conn E oc f c s = Some r"
    by (auto simp: exec_def split: option.splits)
  show ?thesis
  proof (cases f)
    case (Wait_memory i h)
    with xc l g show ?thesis using balanced_wait by simp
  next
    case (Read_payload i h)
    with u have "oc = Proceed" by (cases oc) simp_all
    with Read_payload xc small balanced_payload [OF l g] show ?thesis by auto
  next
    case (Release i n)
    with xc small balanced_release [OF l g] show ?thesis by auto
  qed (use xc g in \<open>auto simp: balanced_def session_loop_def session_header_def do_dispatch_rpc_def
      dispatch_incoming_def dispatch_handle_def dispatch_outgoing_def dispatch_reply_def
      dispatch_flush_def Let_def split: outcome.splits prod.splits sum.splits option.splits if_splits\<close>)
qed

lemma mem_inv_run:
  assumes i: "mem_inv E units is_open contents s" and f: "fibers s = xs @ f # ys"
    and x: "exec E oc f s = Some (s', fs)" and u: "undisturbed (Ev_run f oc)"
  shows "mem_inv E units is_open contents (s'\<lparr>fibers := xs @ fs @ ys\<rparr>)"
proof -
  from i f have "unat (units (resources_available (limits s))) + held f < 2 ^ 31"
    by (simp add: mem_inv_def)
  with i u x have "balanced units is_open s f (s', fs)"
    using balanced_exec [of E units is_open contents s f oc "(s', fs)"] by (simp add: mem_inv_def)
  with i f show ?thesis by (simp add: mem_inv_def balanced_def)
qed

lemma mem_inv_step:
  assumes "server_step E s e t" "mem_inv E units is_open contents s" "undisturbed e"
  shows "mem_inv E units is_open contents t"
  using assms
proof (induction rule: server_step.induct)
  case (st_run s xs f ys oc s' fs)
  then show ?case using mem_inv_run by blast
qed (simp_all add: mem_inv_def start_def stop_def accept_exception_def accept_connection_def
       destroy_connection_def Let_def)

interpretation mem: invariant_system "server_step E" "mem_init E units is_open contents" undisturbed
    "mem_inv E units is_open contents"
  for E :: "('is, 'sem, 'gate) seastar_env" and units is_open contents
  by unfold_locales (simp_all add: mem_inv_init, blast intro: mem_inv_step)

lemma example_laws: "laws example_env (\<lambda>u. u) (\<lambda>g. \<not> snd g) (\<lambda>i. i)"
  by (auto simp: laws_def semaphore_law_def gate_law_def example_env_def list_istream_law)

section \<open>The properties of the memory accounting\<close>

text \<open>
  C12: no unit of memory is lost or invented. With a limit below 2 GB, in every state reached
  by a run in which no payload read is interrupted and the gate is not yet closed, the units
  available and the sizes of the payloads being read or dispatched add up to the limit.
\<close>

theorem memory_balance:
  assumes "semaphore_law E units" "gate_law E is_open" "istream_law (env_istream E) contents"
    and "unat (arg_memory_avail_per_core as) < 2 ^ 31"
    and "run (server_step E) (configured_server E as services ins outs) es t"
    and "list_all undisturbed es"
  shows "unat (units (resources_available (limits t))) + held_by (fibers t) =
    unat (max_memory (limits t))"
proof -
  have "mem_init E units is_open contents (configured_server E as services ins outs)"
    using assms(1-4) by (auto simp: mem_init_def laws_def)
  from mem.inv_run [OF this assms(5,6)] show ?thesis by (simp add: mem_inv_def)
qed

text \<open>A message whose payload does not match its checksum, and the run that refuses it.\<close>

definition example_args :: rpc_server_args where
  "example_args = rpc_server_args_default\<lparr>arg_memory_avail_per_core := 1000\<rparr>"

definition example_corrupt :: bytes where
  "example_corrupt = header_bytes (default_header\<lparr>hdr_size := 2, hdr_checksum := 77, hdr_meta := 5\<rparr>)
     @ [1, 2]"

theorem memory_balance_witness:
  "\<exists>es t. play example_env [Do_start, Do_accept example_corrupt (1, 2), Do_fiber 0 Proceed,
       Do_fiber 0 Proceed, Do_fiber 0 Proceed] (configured_server example_env example_args [] [] []) =
     Some (es, t) \<and> held_by (fibers t) = 2 \<and> unat (resources_available (limits t)) + 2 = 1000"
proof -
  let ?s = "configured_server example_env example_args [] [] []"
  let ?acts = "[Do_start, Do_accept example_corrupt (1, 2), Do_fiber 0 Proceed, Do_fiber 0 Proceed,
    Do_fiber 0 Proceed]"
  have "parse_header_bytes (take kHeaderSize example_corrupt) =
      Some (default_header\<lparr>hdr_size := 2, hdr_checksum := 77, hdr_meta := 5\<rparr>)"
    by code_simp
  then have "case play example_env ?acts ?s of None \<Rightarrow> False
    | Some (es, t) \<Rightarrow> list_all undisturbed es \<and> held_by (fibers t) = 2 \<and> max_memory (limits t) = 1000"
    by (simp add: example_args_def server_eval)
  then obtain es t where p: "play example_env ?acts ?s = Some (es, t)"
    and t: "list_all undisturbed es" "held_by (fibers t) = 2" "max_memory (limits t) = 1000"
    by (auto split: option.splits)
  have "unat (arg_memory_avail_per_core example_args) < 2 ^ 31" by (simp add: example_args_def)
  from memory_balance [OF _ _ _ this play_run [OF p] t(1), of "\<lambda>u. u" "\<lambda>g. \<not> snd g" "\<lambda>i. i"]
    example_laws t(2,3) have "unat (resources_available (limits t)) + 2 = 1000"
    by (simp add: laws_def)
  with p t(2) show ?thesis by blast
qed





end
