(* ===== verification/Rpc_Server_Dispatch.thy ===== *)
theory Rpc_Server_Dispatch
  imports Rpc_Server_Memory
begin

text \<open>
  The requests a server dispatches: only messages that passed every check of the two parsers
  reach a handler, the handler is the one the router holds for the request's id, and an
  undisturbed request is answered.
\<close>

section \<open>What a fiber may carry\<close>

definition header_ok :: "header \<Rightarrow> bool" where
  "header_ok h \<longleftrightarrow> hdr_size h \<noteq> 0 \<and> hdr_checksum h \<noteq> 0 \<and> hdr_meta h \<noteq> 0 \<and>
     sint (hdr_compression h) \<le> 3 \<and> hdr_compression h \<noteq> compression_flags_disabled"

definition request_ok :: "xxh64 \<Rightarrow> u32 \<Rightarrow> rpc_recv_context \<Rightarrow> bool" where
  "request_ok xxh n ctx \<longleftrightarrow> header_ok (ctx_header ctx) \<and> hdr_size (ctx_header ctx) = n \<and>
     unat n = length (ctx_payload ctx) \<and> n \<le> max_flatbuffers_size \<and>
     hdr_checksum (ctx_header ctx) = rpc_checksum_payload xxh (ctx_payload ctx) n \<and>
     hdr_bitflags (ctx_header ctx) AND header_bit_flags_has_payload_headers = 0"

fun fiber_ok :: "rpc_handle_router \<Rightarrow> xxh64 \<Rightarrow> fiber \<Rightarrow> bool" where
  "fiber_ok rt xxh (Wait_memory i h) = header_ok h"
| "fiber_ok rt xxh (Read_payload i h) = header_ok h"
| "fiber_ok rt xxh (Dispatch i n ctx) = request_ok xxh n ctx"
| "fiber_ok rt xxh (Incoming i n ctx h) = (request_ok xxh n ctx \<and>
     get_handle_for_request rt (ctx_request_id ctx) = Some h)"
| "fiber_ok rt xxh (Handle i n ctx h) = (hdr_compression (ctx_header ctx) = compression_flags_none)"
| "fiber_ok rt xxh _ = True"

definition fibers_ok :: "('is, 'sem, 'gate) seastar_env \<Rightarrow> ('is, 'sem, 'gate) rpc_server \<Rightarrow> bool" where
  "fibers_ok E s \<longleftrightarrow> list_all (fiber_ok (routes s) (env_xxh E)) (fibers s)"

lemma header_ok_parsed: "parse_header dbg ops c = (Inr (Some h), c') \<Longrightarrow> header_ok h"
  by (auto simp: parse_header_def header_ok_def Let_def dest: parse_header_bytes_SomeD
      split: if_splits prod.splits sum.splits)

lemma request_ok_parsed:
  assumes "parse_payload dbg ops xxh c h = (Inr (Some ctx), c')" "header_ok h"
  shows "request_ok xxh (hdr_size h) ctx"
proof -
  from assms(1) obtain b where "parse_payload_bytes dbg xxh (conn_limits c) (conn_remote_address c) h b =
      Inr (Some ctx)"
    by (auto simp: parse_payload_def Let_def rbind_Inr_iff split: prod.splits)
  from parse_payload_bytes_SomeD [OF this] assms(2) show ?thesis by (simp add: request_ok_def)
qed

lemma routes_frame [simp]:
  "routes (upd_stats f s) = routes s" "routes (set_conn cid c s) = routes s"
  "routes (signal_units E n s) = routes s" "routes (cleanup_dispatch_rpc cid c s) = routes s"
  "routes (session_exception cid c s) = routes s"
  by (simp_all add: upd_stats_def set_conn_def signal_units_def cleanup_dispatch_rpc_def
      session_exception_def Let_def)

lemma routes_exec: "exec E oc f s = Some (s', fs) \<Longrightarrow> routes s' = routes s"
  by (cases f) (auto simp: exec_def session_loop_def session_header_def session_wait_def
      session_payload_def dispatch_defs Let_def
      split: option.splits outcome.splits prod.splits sum.splits if_splits)

lemma fiber_ok_payload:
  assumes "session_payload E oc cid h c s = (s', fs)" "header_ok h"
  shows "list_all (fiber_ok rt (env_xxh E)) fs"
  using assms request_ok_parsed
  by (auto simp: session_payload_def dispatch_rpc_def
      split: option.splits outcome.splits prod.splits sum.splits)

lemma fiber_ok_exec:
  assumes "exec E oc f s = Some (s', fs)" "fiber_ok (routes s) (env_xxh E) f"
  shows "list_all (fiber_ok (routes s) (env_xxh E)) fs"
proof (cases f)
  case (Read_payload i h)
  with assms show ?thesis using fiber_ok_payload
    by (auto simp: exec_def split: option.splits)
next
  case (Read_header i)
  with assms show ?thesis
    by (auto simp: exec_def session_header_def dest: header_ok_parsed
        split: option.splits outcome.splits prod.splits sum.splits)
qed (use assms in \<open>auto simp: exec_def session_loop_def session_wait_def dispatch_defs Let_def
    split: option.splits outcome.splits sum.splits if_splits\<close>)

lemma fibers_ok_step:
  assumes "server_step E s e t" "fibers_ok E s"
  shows "fibers_ok E t"
  using assms
proof (induction rule: server_step.induct)
  case (st_run s xs f ys oc s' fs)
  then have "fiber_ok (routes s) (env_xxh E) f" by (simp add: fibers_ok_def)
  with st_run fiber_ok_exec [of E oc f s s' fs] routes_exec [of E oc f s s' fs] show ?case
    by (simp add: fibers_ok_def)
qed (simp_all add: fibers_ok_def start_def accept_exception_def stop_def stop_continuation_def
       accept_connection_def destroy_connection_def Let_def)

definition no_fibers :: "('is, 'sem, 'gate) rpc_server \<Rightarrow> bool" where
  "no_fibers s \<longleftrightarrow> fibers s = []"

interpretation dispatch: invariant_system "server_step E" no_fibers "\<lambda>e. True" "fibers_ok E"
  for E :: "('is, 'sem, 'gate) seastar_env"
  by unfold_locales (auto simp: no_fibers_def fibers_ok_def intro: fibers_ok_step [unfolded fibers_ok_def])

text \<open>
  C13: nothing malformed is dispatched. In every reachable state a request being dispatched has a
  non-zero id, a payload of exactly the announced size (not 0, at most 2 GB - 1) that matches
  the checksum of its header and carries no payload headers; the handler chosen for it is the
  one the router holds for its id; and a handler is only run on an uncompressed request.
\<close>

theorem dispatched_requests_valid:
  assumes "run (server_step E) (configured_server E as services ins outs) es t"
  shows "(\<forall>i n ctx. Dispatch i n ctx \<in> set (fibers t) \<longrightarrow> request_ok (env_xxh E) n ctx) \<and>
    (\<forall>i n ctx h. Incoming i n ctx h \<in> set (fibers t) \<longrightarrow> request_ok (env_xxh E) n ctx \<and>
       get_handle_for_request (routes t) (ctx_request_id ctx) = Some h) \<and>
    (\<forall>i n ctx h. Handle i n ctx h \<in> set (fibers t) \<longrightarrow>
       hdr_compression (ctx_header ctx) = compression_flags_none)"
proof -
  have "no_fibers (configured_server E as services ins outs)"
    by (simp add: no_fibers_def configured_server_def rpc_server_new_def)
  from dispatch.inv_run [OF this assms] have "fibers_ok E t" by (simp add: list.pred_True)
  then have "\<And>f. f \<in> set (fibers t) \<Longrightarrow> fiber_ok (routes t) (env_xxh E) f"
    by (simp add: fibers_ok_def list_all_iff)
  then show ?thesis by force
qed

section \<open>An undisturbed request\<close>

text \<open>The request: what a client that sends \<open>q\<close> puts on the stream of connection \<open>cid\<close>.\<close>

lemma request_received:
  assumes law: "istream_law (env_istream E) contents"
    and conn: "heap s cid = Some c" "is_valid (env_istream E) c" "conn_istream_active_parser c = 0"
      "contents (conn_istream c) = header_bytes (env_header q) @ env_body q @ rest"
    and q: "sendable (env_xxh E) q"
    and mem: "sem_wait E (resources_available (limits s)) (ucast (hdr_size (env_header q))) = Some sem"
    and gate: "gate_enter E (reply_gate s) = Some g"
    and fs: "fibers s = xs @ Session cid # ys"
  shows "\<exists>es i. contents i = rest \<and> run (server_step E) s es
    (s\<lparr>limits := (limits s)\<lparr>resources_available := sem\<rparr>, heap := (heap s)(cid \<mapsto> c\<lparr>conn_istream := i\<rparr>),
       reply_gate := g, fibers := xs @ [Dispatch cid (hdr_size (env_header q)) (received c q),
       Session cid] @ ys\<rparr>)"
proof -
  let ?h = "normalise_compression (env_header q)"
  let ?n = "hdr_size (env_header q)"
  have v: "valid_header (env_header q)" using q by (simp add: sendable_def)
  obtain i where i: "parse_header (env_dbg E) (env_istream E) c = (Inr (Some ?h), c\<lparr>conn_istream := i\<rparr>)"
      "contents i = env_body q @ rest"
    using parse_header_on_stream [OF law conn(3,4) v] by blast
  have sz: "hdr_size ?h = word_of_nat (length (env_body q))" "length (env_body q) < 2 ^ 31"
    "hdr_checksum ?h = rpc_checksum_payload (env_xxh E) (env_body q) (hdr_size ?h)"
    "hdr_bitflags ?h AND header_bit_flags_has_payload_headers = 0"
    using q by (simp_all add: sendable_def consistent_letter_def)
  obtain j where j: "parse_payload (env_dbg E) (env_istream E) (env_xxh E) (c\<lparr>conn_istream := i\<rparr>) ?h =
      (Inr (Some (received c q)), c\<lparr>conn_istream := j\<rparr>)" "contents j = rest"
    using parse_payload_on_stream [OF law _ sz, of "c\<lparr>conn_istream := i\<rparr>" rest "env_dbg E"] i(2)
    by (auto simp: received_def)
  let ?s1 = "s\<lparr>fibers := xs @ [Read_header cid] @ ys\<rparr>"
  let ?s2 = "s\<lparr>heap := (heap s)(cid \<mapsto> c\<lparr>conn_istream := i\<rparr>), fibers := xs @ [Wait_memory cid ?h] @ ys\<rparr>"
  let ?s3 = "s\<lparr>heap := (heap s)(cid \<mapsto> c\<lparr>conn_istream := i\<rparr>),
    limits := (limits s)\<lparr>resources_available := sem\<rparr>, fibers := xs @ [Read_payload cid ?h] @ ys\<rparr>"
  let ?s4 = "s\<lparr>limits := (limits s)\<lparr>resources_available := sem\<rparr>,
    heap := (heap s)(cid \<mapsto> c\<lparr>conn_istream := j\<rparr>), reply_gate := g,
    fibers := xs @ [Dispatch cid ?n (received c q), Session cid] @ ys\<rparr>"
  have "server_step E s (Ev_run (Session cid) Proceed) ?s1"
    using st_run [OF fs, of E Proceed s "[Read_header cid]"] conn
    by (simp add: exec_def session_loop_def)
  moreover have "server_step E ?s1 (Ev_run (Read_header cid) Proceed) ?s2"
    using st_run [of ?s1 xs "Read_header cid" ys E Proceed "set_conn cid (c\<lparr>conn_istream := i\<rparr>) ?s1"
        "[Wait_memory cid ?h]"] conn i
    by (simp add: exec_def session_header_def set_conn_def)
  moreover have "server_step E ?s2 (Ev_run (Wait_memory cid ?h) Proceed) ?s3"
    using st_run [of ?s2 xs "Wait_memory cid ?h" ys E Proceed
        "?s2\<lparr>limits := (limits s)\<lparr>resources_available := sem\<rparr>\<rparr>" "[Read_payload cid ?h]"] mem
    by (simp add: exec_def session_wait_def)
  moreover have "server_step E ?s3 (Ev_run (Read_payload cid ?h) Proceed) ?s4"
    using st_run [of ?s3 xs "Read_payload cid ?h" ys E Proceed
        "(set_conn cid (c\<lparr>conn_istream := j\<rparr>) ?s3)\<lparr>reply_gate := g\<rparr>"
        "[Dispatch cid ?n (received c q), Session cid]"] gate j
    by (simp add: exec_def session_payload_def dispatch_rpc_def set_conn_def)
  ultimately have "run (server_step E) s [Ev_run (Session cid) Proceed, Ev_run (Read_header cid) Proceed,
      Ev_run (Wait_memory cid ?h) Proceed, Ev_run (Read_payload cid ?h) Proceed] ?s4"
    unfolding run_Cons_iff run_Nil_iff by blast
  with j(2) show ?thesis by blast
qed

lemma exec_step:
  assumes "exec E oc f s = Some (s', fs)" "fibers s = xs @ f # ys"
  shows "server_step E s (Ev_run f oc) (s'\<lparr>fibers := xs @ fs @ ys\<rparr>)"
  by (rule st_run [OF assms(2,1)])

text \<open>What the server does to the connection, the counters and the limits to answer.\<close>

definition answered ::
    "('is, 'sem, 'gate) seastar_env \<Rightarrow> u64 \<Rightarrow> u32 \<Rightarrow> rpc_recv_context \<Rightarrow> rpc_envelope \<Rightarrow>
     'is rpc_connection \<Rightarrow> ('is, 'sem, 'gate) rpc_server \<Rightarrow> ('is, 'sem, 'gate) rpc_server \<Rightarrow> bool" where
  "answered E cid n ctx reply c s t \<longleftrightarrow>
     heap t = (heap s)(cid \<mapsto> c\<lparr>conn_ostream := conn_ostream c @
       [Write (header_bytes (env_header reply)), Write (env_body reply), Flush, Flush]\<rparr>) \<and>
     stats t = (stats s)\<lparr>
       in_bytes := in_bytes (stats s) + (ucast (hdr_size (ctx_header ctx)) + word_of_nat (length (ctx_payload ctx))),
       out_bytes := out_bytes (stats s) + word_of_nat (letter_size (env_letter reply)),
       completed_requests := completed_requests (stats s) + 1\<rparr> \<and>
     resources_available (limits t) = sem_signal E (resources_available (limits s)) (scast n) \<and>
     reply_gate t = gate_leave E (reply_gate s) \<and> open_connections t = open_connections s"

text \<open>An event that does not wait for bytes.\<close>

fun reads_nothing :: "'is event \<Rightarrow> bool" where
  "reads_nothing (Ev_run (Read_header i) oc) = False"
| "reads_nothing (Ev_run (Read_payload i h) oc) = False"
| "reads_nothing (Ev_run f oc) = True"
| "reads_nothing _ = False"

lemma request_dispatched:
  assumes open_peer: "\<And>i. \<not> is_eof (env_istream E) i"
    and conn: "heap s cid = Some c" "is_valid (env_istream E) c"
    and route: "ctx_request_id ctx \<noteq> 0" "get_handle_for_request (routes s) (ctx_request_id ctx) = Some h"
    and inf: "rpc_filter_apply (in_filters s) ctx = Inr ctx'"
      "hdr_compression (ctx_header ctx') = compression_flags_none"
    and hnd: "h ctx' = Inr e"
    and outf: "rpc_filter_apply (out_filters s) e = Inr reply" "sendable xxh reply"
    and fs: "fibers s = xs @ Dispatch cid n ctx # ys"
  shows "\<exists>es t. run (server_step E) s es t \<and> list_all reads_nothing es \<and>
    answered E cid n ctx reply c s t \<and> fibers t = xs @ ys"
proof -
  let ?ib = "in_bytes (stats s) + (ucast (hdr_size (ctx_header ctx)) + word_of_nat (length (ctx_payload ctx)))"
  let ?ob = "out_bytes (stats s) + word_of_nat (letter_size (env_letter reply))"
  let ?w = "[Write (header_bytes (env_header reply)), Write (env_body reply), Flush]"
  define s1 where "s1 = s\<lparr>stats := (stats s)\<lparr>in_bytes := ?ib\<rparr>, fibers := xs @ [Incoming cid n ctx h] @ ys\<rparr>"
  define s2 where "s2 = s1\<lparr>fibers := xs @ [Handle cid n ctx' h] @ ys\<rparr>"
  define s3 where "s3 = s1\<lparr>fibers := xs @ [Outgoing cid n e] @ ys\<rparr>"
  define s4 where "s4 = s1\<lparr>fibers := xs @ [Reply cid n reply] @ ys\<rparr>"
  define s5 where "s5 = (set_conn cid (c\<lparr>conn_ostream := conn_ostream c @ ?w\<rparr>)
    (upd_stats (\<lambda>st. st\<lparr>out_bytes := ?ob\<rparr>) s4))\<lparr>fibers := xs @ [Flush_reply cid n] @ ys\<rparr>"
  define s6 where "s6 = (set_conn cid (c\<lparr>conn_ostream := (conn_ostream c @ ?w) @ [Flush]\<rparr>) s5)
    \<lparr>fibers := xs @ [Cleanup cid n] @ ys\<rparr>"
  define s7 where "s7 = (upd_stats (\<lambda>st. st\<lparr>completed_requests := completed_requests st + 1\<rparr>) s6)
    \<lparr>fibers := xs @ [Release cid n] @ ys\<rparr>"
  define s8 where "s8 = (dispatch_release E n s7)\<lparr>fibers := xs @ [] @ ys\<rparr>"
  note defs = s1_def s2_def s3_def s4_def s5_def s6_def s7_def s8_def
  from conn(2) have valid: "conn_enabled c" "\<not> has_error c" by (simp_all add: is_valid_def)
  have "server_step E s (Ev_run (Dispatch cid n ctx) Proceed) s1"
    using exec_step [OF _ fs, of E Proceed] conn(1) route
    by (simp add: exec_def do_dispatch_rpc_def upd_stats_def s1_def)
  moreover have "server_step E s1 (Ev_run (Incoming cid n ctx h) Proceed) s2"
    using exec_step [of E Proceed "Incoming cid n ctx h" s1 s1 _ xs ys] conn(1) inf
    by (simp add: exec_def dispatch_incoming_def s2_def s1_def)
  moreover have "server_step E s2 (Ev_run (Handle cid n ctx' h) Proceed) s3"
    using exec_step [of E Proceed "Handle cid n ctx' h" s2 s2 _ xs ys] conn(1) hnd
    by (simp add: exec_def dispatch_handle_def s3_def s2_def s1_def)
  moreover have "server_step E s3 (Ev_run (Outgoing cid n e) Proceed) s4"
    using exec_step [of E Proceed "Outgoing cid n e" s3 s3 _ xs ys] conn(1) outf(1)
    by (simp add: exec_def dispatch_outgoing_def s4_def s3_def s1_def)
  moreover have "server_step E s4 (Ev_run (Reply cid n reply) Proceed) s5"
    unfolding s5_def using conn rpc_envelope_send_sendable [OF outf(2)]
    by (intro exec_step) (simp_all add: exec_def dispatch_reply_def s4_def s1_def Let_def upd_stats_def)
  moreover have "server_step E s5 (Ev_run (Flush_reply cid n) Proceed) s6"
    unfolding s6_def using open_peer valid
    by (intro exec_step) (simp_all add: exec_def dispatch_flush_def s5_def is_valid_def)
  moreover have "server_step E s6 (Ev_run (Cleanup cid n) Proceed) s7"
    unfolding s7_def using valid
    by (intro exec_step) (simp_all add: exec_def cleanup_dispatch_rpc_def s6_def)
  moreover have "server_step E s7 (Ev_run (Release cid n) Proceed) s8"
    unfolding s8_def by (intro exec_step) (simp_all add: exec_def s7_def s6_def)
  ultimately have "run (server_step E) s [Ev_run (Dispatch cid n ctx) Proceed,
      Ev_run (Incoming cid n ctx h) Proceed, Ev_run (Handle cid n ctx' h) Proceed,
      Ev_run (Outgoing cid n e) Proceed, Ev_run (Reply cid n reply) Proceed,
      Ev_run (Flush_reply cid n) Proceed, Ev_run (Cleanup cid n) Proceed, Ev_run (Release cid n) Proceed] s8"
    unfolding run_Cons_iff run_Nil_iff by blast
  moreover have "answered E cid n ctx reply c s s8"
    by (simp add: answered_def defs dispatch_release_def)
  moreover have "fibers s8 = xs @ ys" by (simp add: s8_def)
  ultimately show ?thesis
    by (intro exI [of _ s8] exI conjI) (assumption, simp_all)
qed


text \<open>A server with one route, a connection, and a request on it.\<close>

definition example_router :: rpc_handle_router where
  "example_router = [\<lparr>svc_service_name = ''Example'', svc_service_id = 1,
     svc_method_for_request_id = (\<lambda>i. if i = 200 then Some (\<lambda>ctx. Inr example_envelope) else None)\<rparr>]"

definition example_stream :: bytes where
  "example_stream = header_bytes (env_header example_envelope) @ env_body example_envelope @ []"

definition example_connected :: "(bytes, u64, nat \<times> bool) rpc_server" where
  "example_connected = accept_connection example_stream (1, 2)
     (start (configured_server example_env example_args example_router [] []))"

definition example_connection :: "bytes rpc_connection" where
  "example_connection = rpc_server_connection_new example_stream (1, 2)
     (rpc_server_connection_options_new True True)"

lemma example_connected_simps [simp]:
  "heap example_connected 1 = Some example_connection" "fibers example_connected = [Session 1]"
  "resources_available (limits example_connected) = 1000" "reply_gate example_connected = (0, False)"
  "routes example_connected = example_router" "in_filters example_connected = []"
  "out_filters example_connected = []"
  by (simp_all add: example_connected_def example_connection_def accept_connection_def upd_stats_def
      start_def configured_server_def rpc_server_new_def rpc_connection_limits_new_def
      example_args_def example_env_def Let_def)

lemma example_connection_simps [simp]:
  "is_valid list_istream example_connection" "conn_istream_active_parser example_connection = 0"
  "conn_istream example_connection = example_stream"
  by (simp_all add: example_connection_def rpc_server_connection_new_def list_istream_def
      rpc_connection_new_def rpc_server_connection_options_new_def socket_do_def is_valid_def has_error_def)

lemma example_env_simps [simp]:
  "env_istream example_env = list_istream" "env_xxh example_env = example_xxh"
  "is_eof list_istream i = False"
  by (simp_all add: example_env_def list_istream_def)

lemma example_connected_run:
  "run (server_step example_env) (configured_server example_env example_args example_router [] [])
     [Ev_start, Ev_accept example_stream (1, 2)] example_connected"
proof -
  let ?s = "configured_server example_env example_args example_router [] []"
  have "server_step example_env ?s Ev_start (start ?s)"
    by (rule st_start) (simp add: configured_server_def rpc_server_new_def)
  moreover have "server_step example_env (start ?s) (Ev_accept example_stream (1, 2)) example_connected"
    unfolding example_connected_def
    by (rule st_accept) (simp_all add: start_def configured_server_def rpc_server_new_def)
  ultimately show ?thesis by (auto simp: run_Cons_iff run_Nil_iff)
qed

theorem dispatched_requests_valid_witness:
  "\<exists>es t n. run (server_step example_env) (configured_server example_env example_args
       example_router [] []) es t \<and>
     Dispatch 1 n (received example_connection example_envelope) \<in> set (fibers t) \<and>
     request_ok example_xxh n (received example_connection example_envelope)"
proof -
  have "sem_wait example_env 1000 (ucast (hdr_size (env_header example_envelope))) = Some 998"
    "gate_enter example_env (0, False) = Some (1, False)"
    by (simp_all add: example_env_def example_envelope_def)
  with request_received [of example_env "\<lambda>i. i" example_connected 1 example_connection example_envelope
      "[]" 998 "(1, False)" "[]" "[]"] example_sendable list_istream_law
  obtain es t where r: "run (server_step example_env) example_connected es t"
    and d: "Dispatch 1 (hdr_size (env_header example_envelope)) (received example_connection example_envelope)
      \<in> set (fibers t)"
    by (fastforce simp: example_stream_def)
  note run = run_append [OF example_connected_run r]
  have "request_ok example_xxh (hdr_size (env_header example_envelope))
      (received example_connection example_envelope)"
    using dispatched_requests_valid [OF run] d by simp
  with d run show ?thesis by blast
qed


end
