(* ===== verification/Rpc_Client.thy ===== *)
theory Rpc_Client
  imports Rpc_Server "HOL-Library.AList"
begin

text \<open>
  The client (rpc_client.cc, rpc_client.h) as a transition system: its futures are fibers, as
  those of the server. A call of \<^verbatim>\<open>send\<close> allocates a work item with a promise and enters
  it in \<open>rpc_slots\<close> under a 16-bit session; the read loop fulfils the promise of the session a
  reply carries. \<open>rpc_slots\<close> is an association list in the order the hash map is walked.
\<close>

section \<open>State\<close>

record rpc_client_opts =
  copt_server_addr :: address
  copt_credentials :: "nat option"
  copt_recv_timeout_ms :: nat
  copt_memory_avail_for_client :: u64

definition rpc_client_opts_default :: "address \<Rightarrow> rpc_client_opts" where
  "rpc_client_opts_default addr = \<lparr>copt_server_addr = addr, copt_credentials = None,
     copt_recv_timeout_ms = 60000, copt_memory_avail_for_client = push_bit 30 1\<rparr>"

text \<open>A promise of an optional message; the result of a future of it.\<close>

datatype promise =
    Pending
  | Fulfilled "rpc_recv_context option"
  | Broken exn

text \<open>
  Fibers: a call in its outgoing filters, waiting for its promise, or in its incoming filters
  (with whether its latency is measured); a write waiting for memory or for its turn; the
  read loop, and the two reads of \<^verbatim>\<open>process_one_request\<close> on a connection, with whether
  the loop still waits for them (a timeout leaves the read behind); a connect in progress.
\<close>

datatype cfiber =
    Out_filters nat bool rpc_envelope
  | Await nat bool
  | In_filters nat bool rpc_recv_context
  | Write_wait rpc_envelope
  | Write_turn rpc_envelope u64
  | Reads
  | Reply_header nat bool
  | Reply_payload nat header bool
  | Reconnecting
  | Connecting
  | Tls_wrapping nat

record ('is, 'sem, 'gate) rpc_client =
  server_addr :: address
  cli_limits :: "'sem rpc_connection_limits"
  creds :: "nat option"
  read_counter :: u64
  cli_conn :: "nat option"
  rpc_slots :: "(u16 \<times> nat) list"
  cli_in_filters :: "(rpc_recv_context \<Rightarrow> rpc_recv_context res) list"
  cli_out_filters :: "(rpc_envelope \<Rightarrow> rpc_envelope res) list"
  dispatch_gate :: 'gate
  hist :: bool
  session_idx :: u16
  connections :: "nat \<Rightarrow> ('is rpc_connection \<times> nat option) option"
  next_connection :: nat
  work_session :: "nat \<Rightarrow> u16"
  promises :: "nat \<Rightarrow> promise"
  next_work :: nat
  results :: "nat \<Rightarrow> rpc_recv_context option res option"
  connect_results :: "unit res list"
  cli_measured :: nat
  cfibers :: "cfiber list"

text \<open>
  \<open>connections\<close> are the connection objects, each with the credentials its TLS session was
  made with; \<open>results\<close> are the futures that \<^verbatim>\<open>raw_send\<close> returned, by work item, and
  \<open>connect_results\<close> those of \<^verbatim>\<open>connect\<close>.
\<close>

definition rpc_client_new ::
    "('is, 'sem, 'gate) seastar_env \<Rightarrow> rpc_client_opts \<Rightarrow> ('is, 'sem, 'gate) rpc_client" where
  "rpc_client_new E opts =
     \<lparr>server_addr = copt_server_addr opts,
      cli_limits = rpc_connection_limits_new E (copt_memory_avail_for_client opts)
        (copt_recv_timeout_ms opts),
      creds = copt_credentials opts, read_counter = 0, cli_conn = None, rpc_slots = [],
      cli_in_filters = [], cli_out_filters = [], dispatch_gate = gate_init E, hist = False,
      session_idx = 0, connections = Map.empty, next_connection = 0, work_session = (\<lambda>w. 0),
      promises = (\<lambda>w. Pending), next_work = 0, results = Map.empty, connect_results = [],
      cli_measured = 0, cfibers = []\<rparr>"

definition rpc_client_of_addr ::
    "('is, 'sem, 'gate) seastar_env \<Rightarrow> address \<Rightarrow> ('is, 'sem, 'gate) rpc_client" where
  "rpc_client_of_addr E addr = rpc_client_new E (rpc_client_opts_default addr)"

definition disable_histogram_metrics ::
    "('is, 'sem, 'gate) rpc_client \<Rightarrow> ('is, 'sem, 'gate) rpc_client" where
  "disable_histogram_metrics s = s\<lparr>hist := False\<rparr>"

definition enable_histogram_metrics ::
    "('is, 'sem, 'gate) rpc_client \<Rightarrow> ('is, 'sem, 'gate) rpc_client" where
  "enable_histogram_metrics s = (if \<not> hist s then s\<lparr>hist := True\<rparr> else s)"

definition is_conn_valid ::
    "('is, 'sem, 'gate) seastar_env \<Rightarrow> ('is, 'sem, 'gate) rpc_client \<Rightarrow> bool" where
  "is_conn_valid E s = (case cli_conn s of
       None \<Rightarrow> False
     | Some k \<Rightarrow> (case connections s k of
           None \<Rightarrow> False
         | Some (c, tls) \<Rightarrow> is_valid (env_istream E) c))"

definition upd_conn ::
    "nat \<Rightarrow> ('is rpc_connection \<Rightarrow> 'is rpc_connection) \<Rightarrow> ('is, 'sem, 'gate) rpc_client \<Rightarrow>
     ('is, 'sem, 'gate) rpc_client" where
  "upd_conn k f s =
     s\<lparr>connections := (connections s)(k := map_option (\<lambda>(c, tls). (f c, tls)) (connections s k))\<rparr>"

section \<open>Failing what is outstanding\<close>

text \<open>The loop of \<^verbatim>\<open>fail_outstanding_futures\<close> over the slots.\<close>

fun fail_slots :: "(u16 \<times> nat) list \<Rightarrow> (nat \<Rightarrow> promise) \<Rightarrow> (nat \<Rightarrow> promise)" where
  "fail_slots [] ps = ps"
| "fail_slots ((session, w) # slots) ps = fail_slots slots (ps(w := Broken Remote_connection_error))"

definition fail_outstanding_futures ::
    "('is, 'sem, 'gate) seastar_env \<Rightarrow> ('is, 'sem, 'gate) rpc_client \<Rightarrow> ('is, 'sem, 'gate) rpc_client" where
  "fail_outstanding_futures E s =
     (let s1 = (if is_conn_valid E s
                then upd_conn (the (cli_conn s))
                       (\<lambda>c. socket_do [Shutdown_input, Shutdown_output] (disable c)) s
                else s)
      in s1\<lparr>promises := fail_slots (rpc_slots s1) (promises s1), rpc_slots := []\<rparr>)"

section \<open>Sending\<close>

definition leave_gate ::
    "('is, 'sem, 'gate) seastar_env \<Rightarrow> ('is, 'sem, 'gate) rpc_client \<Rightarrow> ('is, 'sem, 'gate) rpc_client" where
  "leave_gate E s = s\<lparr>dispatch_gate := gate_leave E (dispatch_gate s)\<rparr>"

text \<open>The future of call \<open>w\<close> resolves; its measurement ends, and so does its hold on the gate.\<close>

definition finish_call ::
    "('is, 'sem, 'gate) seastar_env \<Rightarrow> nat \<Rightarrow> bool \<Rightarrow> rpc_recv_context option res \<Rightarrow>
     ('is, 'sem, 'gate) rpc_client \<Rightarrow> ('is, 'sem, 'gate) rpc_client" where
  "finish_call E w m r s =
     leave_gate E (s\<lparr>results := (results s)(w \<mapsto> r),
       cli_measured := (if m then Suc (cli_measured s) else cli_measured s)\<rparr>)"

text \<open>
  \<^verbatim>\<open>raw_send\<close> up to its first wait. Every call gets a number, also one that fails at once.
  An insert into the map does nothing when the key is present.
\<close>

definition raw_send ::
    "('is, 'sem, 'gate) seastar_env \<Rightarrow> rpc_envelope \<Rightarrow> ('is, 'sem, 'gate) rpc_client \<Rightarrow>
     ('is, 'sem, 'gate) rpc_client" where
  "raw_send E e s =
     (let w = next_work s in
      if \<not> is_conn_valid E s
      then finish_call E w False (Inl Invalid_connection_state) (s\<lparr>next_work := Suc w\<rparr>)
      else
        let sess = session_idx s + 1;
            s1 = s\<lparr>session_idx := sess, read_counter := read_counter s + 1, next_work := Suc w\<rparr>
        in if env_dbg E \<and> map_of (rpc_slots s) sess \<noteq> None
           then finish_call E w False (Inl (Runtime_error ''RPC slot already allocated'')) s1
           else s1\<lparr>work_session := (work_session s)(w := sess),
                   rpc_slots := (if map_of (rpc_slots s) sess = None
                                 then (sess, w) # rpc_slots s else rpc_slots s),
                   cfibers := cfibers s @ [Out_filters w (hist s) (mutate_session sess e)]\<rparr>)"

text \<open>\<^verbatim>\<open>send\<close>: \<^verbatim>\<open>raw_send\<close> inside the gate.\<close>

definition send ::
    "('is, 'sem, 'gate) seastar_env \<Rightarrow> rpc_envelope \<Rightarrow> ('is, 'sem, 'gate) rpc_client \<Rightarrow>
     ('is, 'sem, 'gate) rpc_client" where
  "send E e s = (case gate_enter E (dispatch_gate s) of
       None \<Rightarrow> s\<lparr>results := (results s)(next_work s \<mapsto> Inl Gate_closed), next_work := Suc (next_work s)\<rparr>
     | Some g \<Rightarrow> raw_send E e (s\<lparr>dispatch_gate := g\<rparr>))"

text \<open>\<^verbatim>\<open>dispatch_write\<close>, in the background: it enters the gate again.\<close>

definition dispatch_write ::
    "('is, 'sem, 'gate) seastar_env \<Rightarrow> rpc_envelope \<Rightarrow> ('is, 'sem, 'gate) rpc_client \<Rightarrow>
     ('is, 'sem, 'gate) rpc_client \<times> cfiber list" where
  "dispatch_write E e s = (case gate_enter E (dispatch_gate s) of
       None \<Rightarrow> (s, [])
     | Some g \<Rightarrow> (s\<lparr>dispatch_gate := g\<rparr>, [Write_wait e]))"

definition call_outgoing ::
    "('is, 'sem, 'gate) seastar_env \<Rightarrow> nat \<Rightarrow> bool \<Rightarrow> rpc_envelope \<Rightarrow> ('is, 'sem, 'gate) rpc_client \<Rightarrow>
     ('is, 'sem, 'gate) rpc_client \<times> cfiber list" where
  "call_outgoing E w m e s = (case rpc_filter_apply (cli_out_filters s) e of
       Inl ex \<Rightarrow> (finish_call E w m (Inl ex) s, [])
     | Inr e' \<Rightarrow> (let (s', fs) = dispatch_write E e' s in (s', fs @ [Await w m])))"

definition write_memory ::
    "('is, 'sem, 'gate) seastar_env \<Rightarrow> rpc_envelope \<Rightarrow> ('is, 'sem, 'gate) rpc_client \<Rightarrow>
     (('is, 'sem, 'gate) rpc_client \<times> cfiber list) option" where
  "write_memory E e s =
     (let payload_size = word_of_nat (envelope_size e) in
      case sem_wait E (resources_available (cli_limits s)) payload_size of
        None \<Rightarrow> None
      | Some sem \<Rightarrow> Some (s\<lparr>cli_limits := (cli_limits s)\<lparr>resources_available := sem\<rparr>\<rparr>,
                          [Write_turn e payload_size]))"

definition write_done ::
    "('is, 'sem, 'gate) seastar_env \<Rightarrow> u64 \<Rightarrow> ('is, 'sem, 'gate) rpc_client \<Rightarrow>
     ('is, 'sem, 'gate) rpc_client" where
  "write_done E n s = leave_gate E (s\<lparr>cli_limits := (cli_limits s)\<lparr>resources_available :=
     sem_signal E (resources_available (cli_limits s)) n\<rparr>\<rparr>)"

text \<open>The gate keeps the connection while a write is pending: \<open>cli_conn\<close> is not None here.\<close>

definition write_send ::
    "('is, 'sem, 'gate) seastar_env \<Rightarrow> outcome \<Rightarrow> rpc_envelope \<Rightarrow> u64 \<Rightarrow> ('is, 'sem, 'gate) rpc_client \<Rightarrow>
     ('is, 'sem, 'gate) rpc_client" where
  "write_send E oc e n s = write_done E n (case cli_conn s of
       None \<Rightarrow> s
     | Some k \<Rightarrow> (case connections s k of
           None \<Rightarrow> s
         | Some (c, tls) \<Rightarrow> (case rpc_envelope_send (env_dbg E) (conn_ostream c) e of
               Inl ex \<Rightarrow> s
             | Inr os \<Rightarrow> (case oc of
                   Fail ex \<Rightarrow> fail_outstanding_futures E s
                 | Proceed \<Rightarrow> upd_conn k (\<lambda>c. c\<lparr>conn_ostream := os\<rparr>) s))))"

definition call_await ::
    "('is, 'sem, 'gate) seastar_env \<Rightarrow> nat \<Rightarrow> bool \<Rightarrow> ('is, 'sem, 'gate) rpc_client \<Rightarrow>
     (('is, 'sem, 'gate) rpc_client \<times> cfiber list) option" where
  "call_await E w m s = (case promises s w of
       Pending \<Rightarrow> None
     | Broken ex \<Rightarrow> Some (finish_call E w m (Inl ex) s, [])
     | Fulfilled None \<Rightarrow> Some (finish_call E w m (Inr None) s, [])
     | Fulfilled (Some ctx) \<Rightarrow> Some (s, [In_filters w m ctx]))"

definition call_incoming ::
    "('is, 'sem, 'gate) seastar_env \<Rightarrow> nat \<Rightarrow> bool \<Rightarrow> rpc_recv_context \<Rightarrow> ('is, 'sem, 'gate) rpc_client \<Rightarrow>
     ('is, 'sem, 'gate) rpc_client" where
  "call_incoming E w m ctx s = (case rpc_filter_apply (cli_in_filters s) ctx of
       Inl ex \<Rightarrow> finish_call E w m (Inl ex) s
     | Inr ctx' \<Rightarrow>
         (if hdr_compression (ctx_header ctx') \<noteq> compression_flags_none
          then finish_call E w m (Inl (Runtime_error
            ''client is communicating with a server speaking different compression protocols'')) s
          else finish_call E w m (Inr (Some ctx')) s))"

section \<open>Reading\<close>

text \<open>
  \<^verbatim>\<open>do_reads\<close>: the test of the loop, then one \<^verbatim>\<open>process_one_request\<close>. An exception
  reaches the handler of the loop only while the loop waits for that read.
\<close>

definition reads_loop ::
    "('is, 'sem, 'gate) seastar_env \<Rightarrow> ('is, 'sem, 'gate) rpc_client \<Rightarrow>
     ('is, 'sem, 'gate) rpc_client \<times> cfiber list" where
  "reads_loop E s =
     (if is_conn_valid E s then (s, [Reply_header (the (cli_conn s)) True])
      else (leave_gate E s, []))"

definition reads_exception ::
    "('is, 'sem, 'gate) seastar_env \<Rightarrow> bool \<Rightarrow> ('is, 'sem, 'gate) rpc_client \<Rightarrow>
     ('is, 'sem, 'gate) rpc_client \<times> cfiber list" where
  "reads_exception E attached s =
     (if attached then (leave_gate E (fail_outstanding_futures E s), []) else (s, []))"

definition next_read :: "bool \<Rightarrow> cfiber list" where
  "next_read attached = (if attached then [Reads] else [])"

text \<open>The timeout of the loop: the exception handler runs, the read stays behind.\<close>

definition reads_timeout ::
    "('is, 'sem, 'gate) seastar_env \<Rightarrow> ('is, 'sem, 'gate) rpc_client \<Rightarrow> ('is, 'sem, 'gate) rpc_client" where
  "reads_timeout E s = fst (reads_exception E True s)"

definition reply_error ::
    "('is, 'sem, 'gate) seastar_env \<Rightarrow> nat \<Rightarrow> bool \<Rightarrow> string \<Rightarrow> ('is, 'sem, 'gate) rpc_client \<Rightarrow>
     ('is, 'sem, 'gate) rpc_client \<times> cfiber list" where
  "reply_error E k attached msg s =
     (fail_outstanding_futures E (upd_conn k (set_error msg) s), next_read attached)"

definition reply_header ::
    "('is, 'sem, 'gate) seastar_env \<Rightarrow> outcome \<Rightarrow> nat \<Rightarrow> bool \<Rightarrow> 'is rpc_connection \<Rightarrow>
     ('is, 'sem, 'gate) rpc_client \<Rightarrow> ('is, 'sem, 'gate) rpc_client \<times> cfiber list" where
  "reply_header E oc k attached c s = (case oc of
       Fail ex \<Rightarrow> reads_exception E attached s
     | Proceed \<Rightarrow> (case parse_header (env_dbg E) (env_istream E) c of
           (Inl ex, c') \<Rightarrow> reads_exception E attached (upd_conn k (\<lambda>_. c') s)
         | (Inr None, c') \<Rightarrow>
             reply_error E k attached ''Could not parse header from server'' (upd_conn k (\<lambda>_. c') s)
         | (Inr (Some h), c') \<Rightarrow> (upd_conn k (\<lambda>_. c') s, [Reply_payload k h attached])))"

text \<open>The reply is in: its session selects the slot.\<close>

definition process_reply ::
    "('is, 'sem, 'gate) seastar_env \<Rightarrow> nat \<Rightarrow> bool \<Rightarrow> rpc_recv_context option \<Rightarrow>
     ('is, 'sem, 'gate) rpc_client \<Rightarrow> ('is, 'sem, 'gate) rpc_client \<times> cfiber list" where
  "process_reply E k attached opt s =
     (if env_dbg E \<and> read_counter s \<le> 0 then reads_exception E attached s
      else (case opt of
          None \<Rightarrow>
            reply_error E k attached ''Could not parse response from server. Bad payload'' s
        | Some ctx \<Rightarrow> (case map_of (rpc_slots s) (ctx_session ctx) of
              None \<Rightarrow> reply_error E k attached ''Invalid session'' s
            | Some w \<Rightarrow>
                (s\<lparr>read_counter := read_counter s - 1,
                   promises := (promises s)(w := Fulfilled (Some ctx)),
                   rpc_slots := AList.delete (ctx_session ctx) (rpc_slots s)\<rparr>,
                 next_read attached))))"

definition reply_payload ::
    "('is, 'sem, 'gate) seastar_env \<Rightarrow> outcome \<Rightarrow> nat \<Rightarrow> header \<Rightarrow> bool \<Rightarrow> 'is rpc_connection \<Rightarrow>
     ('is, 'sem, 'gate) rpc_client \<Rightarrow> ('is, 'sem, 'gate) rpc_client \<times> cfiber list" where
  "reply_payload E oc k h attached c s = (case oc of
       Fail ex \<Rightarrow> reads_exception E attached s
     | Proceed \<Rightarrow> (case parse_payload (env_dbg E) (env_istream E) (env_xxh E) c h of
           (Inl ex, c') \<Rightarrow> reads_exception E attached (upd_conn k (\<lambda>_. c') s)
         | (Inr opt, c') \<Rightarrow> process_reply E k attached opt (upd_conn k (\<lambda>_. c') s)))"

section \<open>Connecting\<close>

definition connect ::
    "('is, 'sem, 'gate) seastar_env \<Rightarrow> ('is, 'sem, 'gate) rpc_client \<Rightarrow> ('is, 'sem, 'gate) rpc_client" where
  "connect E s =
     (if is_conn_valid E s
      then s\<lparr>connect_results := connect_results s @ [Inl (Runtime_error
             ''Client already connected to server: connect called more than once.'')]\<rparr>
      else s\<lparr>cfibers := cfibers s @ [Connecting]\<rparr>)"

text \<open>
  The connection is made: \<open>input\<close> is its input stream. The read loop starts in the
  background, inside the gate.
\<close>

definition connected ::
    "('is, 'sem, 'gate) seastar_env \<Rightarrow> 'is \<Rightarrow> nat option \<Rightarrow> ('is, 'sem, 'gate) rpc_client \<Rightarrow>
     ('is, 'sem, 'gate) rpc_client \<times> cfiber list" where
  "connected E input tls s =
     (let k = next_connection s;
          c = rpc_connection_new input (0, 0) (Some 0);
          s1 = s\<lparr>connections := (connections s)(k \<mapsto> (c, tls)), next_connection := Suc k,
                 cli_conn := Some k, connect_results := connect_results s @ [Inr ()]\<rparr>
      in (case gate_enter E (dispatch_gate s1) of
            None \<Rightarrow> (s1, [])
          | Some g \<Rightarrow> (s1\<lparr>dispatch_gate := g\<rparr>, [Reads])))"

definition connect_failed ::
    "exn \<Rightarrow> ('is, 'sem, 'gate) rpc_client \<Rightarrow> ('is, 'sem, 'gate) rpc_client \<times> cfiber list" where
  "connect_failed ex s = (s\<lparr>connect_results := connect_results s @ [Inl ex]\<rparr>, [])"

definition socket_connected ::
    "('is, 'sem, 'gate) seastar_env \<Rightarrow> outcome \<Rightarrow> 'is \<Rightarrow> ('is, 'sem, 'gate) rpc_client \<Rightarrow>
     ('is, 'sem, 'gate) rpc_client \<times> cfiber list" where
  "socket_connected E oc input s = (case oc of
       Fail ex \<Rightarrow> connect_failed ex s
     | Proceed \<Rightarrow> (case creds s of
           None \<Rightarrow> connected E input None s
         | Some cr \<Rightarrow> (s\<lparr>creds := None\<rparr>, [Tls_wrapping cr])))"

definition tls_wrapped ::
    "('is, 'sem, 'gate) seastar_env \<Rightarrow> outcome \<Rightarrow> 'is \<Rightarrow> nat \<Rightarrow> ('is, 'sem, 'gate) rpc_client \<Rightarrow>
     ('is, 'sem, 'gate) rpc_client \<times> cfiber list" where
  "tls_wrapped E oc input cr s = (case oc of
       Fail ex \<Rightarrow> connect_failed ex s
     | Proceed \<Rightarrow> connected E input (Some cr) s)"

definition cli_stop ::
    "('is, 'sem, 'gate) seastar_env \<Rightarrow> ('is, 'sem, 'gate) rpc_client \<Rightarrow> ('is, 'sem, 'gate) rpc_client" where
  "cli_stop E s = (let s1 = fail_outstanding_futures E s
     in s1\<lparr>dispatch_gate := gate_close E (dispatch_gate s1)\<rparr>)"

definition reconnect ::
    "('is, 'sem, 'gate) seastar_env \<Rightarrow> ('is, 'sem, 'gate) rpc_client \<Rightarrow> ('is, 'sem, 'gate) rpc_client" where
  "reconnect E s = (let s1 = cli_stop E (fail_outstanding_futures E s)
     in s1\<lparr>cfibers := cfibers s1 @ [Reconnecting]\<rparr>)"

text \<open>What follows \<^verbatim>\<open>stop\<close> in \<^verbatim>\<open>reconnect\<close>, when the gate is empty.\<close>

definition reconnect_continuation ::
    "('is, 'sem, 'gate) seastar_env \<Rightarrow> ('is, 'sem, 'gate) rpc_client \<Rightarrow>
     (('is, 'sem, 'gate) rpc_client \<times> cfiber list) option" where
  "reconnect_continuation E s =
     (if \<not> gate_drained E (dispatch_gate s) then None
      else if \<not> gate_is_closed E (dispatch_gate s)
      then Some (connect_failed (Runtime_error
        ''Dispatch gate is not properly closed. Unrecoverable error.'') s)
      else Some (s\<lparr>dispatch_gate := gate_init E, cli_conn := None\<rparr>, [Connecting]))"

section \<open>The transition system\<close>

fun exec_cfiber ::
    "('is, 'sem, 'gate) seastar_env \<Rightarrow> outcome \<Rightarrow> 'is \<Rightarrow> cfiber \<Rightarrow> ('is, 'sem, 'gate) rpc_client \<Rightarrow>
     (('is, 'sem, 'gate) rpc_client \<times> cfiber list) option" where
  "exec_cfiber E oc i (Out_filters w m e) s = Some (call_outgoing E w m e s)"
| "exec_cfiber E oc i (Await w m) s = call_await E w m s"
| "exec_cfiber E oc i (In_filters w m ctx) s = Some (call_incoming E w m ctx s, [])"
| "exec_cfiber E oc i (Write_wait e) s = write_memory E e s"
| "exec_cfiber E oc i (Write_turn e n) s = Some (write_send E oc e n s, [])"
| "exec_cfiber E oc i Reads s = Some (reads_loop E s)"
| "exec_cfiber E oc i (Reply_header k a) s =
     map_option (\<lambda>(c, tls). reply_header E oc k a c s) (connections s k)"
| "exec_cfiber E oc i (Reply_payload k h a) s =
     map_option (\<lambda>(c, tls). reply_payload E oc k h a c s) (connections s k)"
| "exec_cfiber E oc i Reconnecting s = reconnect_continuation E s"
| "exec_cfiber E oc i Connecting s = Some (socket_connected E oc i s)"
| "exec_cfiber E oc i (Tls_wrapping cr) s = Some (tls_wrapped E oc i cr s)"

text \<open>The read the loop waits for, left behind by a timeout.\<close>

fun detach :: "cfiber \<Rightarrow> cfiber option" where
  "detach (Reply_header k True) = Some (Reply_header k False)"
| "detach (Reply_payload k h True) = Some (Reply_payload k h False)"
| "detach _ = None"

datatype 'is cli_event =
    Ev_send rpc_envelope
  | Ev_connect
  | Ev_reconnect
  | Ev_cli_stop
  | Ev_timeout cfiber
  | Ev_cli_run cfiber outcome 'is

inductive client_step ::
    "('is, 'sem, 'gate) seastar_env \<Rightarrow> ('is, 'sem, 'gate) rpc_client \<Rightarrow> 'is cli_event \<Rightarrow>
     ('is, 'sem, 'gate) rpc_client \<Rightarrow> bool" for E where
  cl_send: "client_step E s (Ev_send e) (send E e s)"
| cl_connect: "client_step E s Ev_connect (connect E s)"
| cl_reconnect: "client_step E s Ev_reconnect (reconnect E s)"
| cl_stop: "client_step E s Ev_cli_stop (cli_stop E s)"
| cl_timeout: "cfibers s = xs @ f # ys \<Longrightarrow> detach f = Some f' \<Longrightarrow>
    client_step E s (Ev_timeout f) ((reads_timeout E s)\<lparr>cfibers := xs @ f' # ys\<rparr>)"
| cl_run: "cfibers s = xs @ f # ys \<Longrightarrow> exec_cfiber E oc i f s = Some (s', fs) \<Longrightarrow>
    client_step E s (Ev_cli_run f oc i) (s'\<lparr>cfibers := xs @ fs @ ys\<rparr>)"

text \<open>The same steps as a function of the choices of the environment, for evaluation.\<close>

datatype 'is cli_action =
    Dc_send rpc_envelope
  | Dc_connect
  | Dc_reconnect
  | Dc_stop
  | Dc_timeout nat
  | Dc_fiber nat outcome 'is

fun cli_act ::
    "('is, 'sem, 'gate) seastar_env \<Rightarrow> 'is cli_action \<Rightarrow> ('is, 'sem, 'gate) rpc_client \<Rightarrow>
     ('is cli_event \<times> ('is, 'sem, 'gate) rpc_client) option" where
  "cli_act E (Dc_send e) s = Some (Ev_send e, send E e s)"
| "cli_act E Dc_connect s = Some (Ev_connect, connect E s)"
| "cli_act E Dc_reconnect s = Some (Ev_reconnect, reconnect E s)"
| "cli_act E Dc_stop s = Some (Ev_cli_stop, cli_stop E s)"
| "cli_act E (Dc_timeout n) s =
     (if n < length (cfibers s)
      then (case detach (cfibers s ! n) of
              None \<Rightarrow> None
            | Some f' \<Rightarrow> Some (Ev_timeout (cfibers s ! n),
                (reads_timeout E s)\<lparr>cfibers := take n (cfibers s) @ f' # drop (Suc n) (cfibers s)\<rparr>))
      else None)"
| "cli_act E (Dc_fiber n oc i) s =
     (if n < length (cfibers s)
      then (case exec_cfiber E oc i (cfibers s ! n) s of
              None \<Rightarrow> None
            | Some (s', fs) \<Rightarrow> Some (Ev_cli_run (cfibers s ! n) oc i,
                s'\<lparr>cfibers := take n (cfibers s) @ fs @ drop (Suc n) (cfibers s)\<rparr>))
      else None)"

lemma cli_act_step: "cli_act E a s = Some (e, t) \<Longrightarrow> client_step E s e t"
proof (induction E a s rule: cli_act.induct)
  case (5 E n s)
  then show ?case
    by (auto simp: id_take_nth_drop intro!: cl_timeout split: if_splits option.splits)
next
  case (6 E n oc i s)
  then show ?case
    by (auto simp: id_take_nth_drop intro!: cl_run split: if_splits option.splits)
qed (auto intro: client_step.intros)

fun cli_play ::
    "('is, 'sem, 'gate) seastar_env \<Rightarrow> 'is cli_action list \<Rightarrow> ('is, 'sem, 'gate) rpc_client \<Rightarrow>
     ('is cli_event list \<times> ('is, 'sem, 'gate) rpc_client) option" where
  "cli_play E [] s = Some ([], s)"
| "cli_play E (a # as) s = (case cli_act E a s of
       None \<Rightarrow> None
     | Some (e, s') \<Rightarrow> (case cli_play E as s' of
           None \<Rightarrow> None
         | Some (es, t) \<Rightarrow> Some (e # es, t)))"

lemma cli_play_run: "cli_play E as s = Some (es, t) \<Longrightarrow> run (client_step E) s es t"
proof (induction as arbitrary: s es)
  case Nil
  then show ?case by (simp add: run_Nil_iff)
next
  case (Cons a as)
  then obtain e s' es' where "cli_act E a s = Some (e, s')" "cli_play E as s' = Some (es', t)"
      "es = e # es'"
    by (auto split: option.splits)
  with Cons.IH show ?case using cli_act_step run_cons by metis
qed

text \<open>A client with its filters set.\<close>

definition configured_client ::
    "('is, 'sem, 'gate) seastar_env \<Rightarrow> rpc_client_opts \<Rightarrow>
     (rpc_recv_context \<Rightarrow> rpc_recv_context res) list \<Rightarrow> (rpc_envelope \<Rightarrow> rpc_envelope res) list \<Rightarrow>
     ('is, 'sem, 'gate) rpc_client" where
  "configured_client E opts ins outs =
     (rpc_client_new E opts)\<lparr>cli_in_filters := ins, cli_out_filters := outs\<rparr>"

section \<open>An exchange for evaluation\<close>

definition example_reply_stream :: bytes where
  "example_reply_stream = header_bytes ((env_header example_envelope)\<lparr>hdr_session := 1\<rparr>) @ [104, 105]"

definition example_opts :: rpc_client_opts where
  "example_opts = rpc_client_opts_default (1, 2)"

definition example_exchange :: "bytes cli_action list" where
  "example_exchange = [Dc_connect, Dc_fiber 0 Proceed example_reply_stream, Dc_send example_envelope,
     Dc_fiber 1 Proceed [], Dc_fiber 1 Proceed [], Dc_fiber 1 Proceed [],
     Dc_fiber 0 Proceed [], Dc_fiber 0 Proceed [], Dc_fiber 0 Proceed []]"

lemmas client_eval = configured_client_def rpc_client_new_def rpc_client_opts_default_def
  rpc_connection_limits_new_def connect_def connect_failed_def is_conn_valid_def is_valid_def has_error_def
  socket_connected_def connected_def rpc_connection_new_def send_def raw_send_def finish_call_def
  leave_gate_def call_outgoing_def dispatch_write_def write_memory_def write_send_def write_done_def
  upd_conn_def reads_loop_def reads_exception_def reply_header_def reply_payload_def parse_header_def
  process_reply_def reply_error_def call_await_def call_incoming_def tls_wrapped_def cli_stop_def
  reconnect_def reconnect_continuation_def fail_outstanding_futures_def next_read_def
  reads_timeout_def disable_def socket_do_def list_istream_def example_env_def

definition example_reply_header :: header where
  "example_reply_header = normalise_compression ((env_header example_envelope)\<lparr>hdr_session := 1\<rparr>)"

lemma example_reply_parsed:
  "parse_header_bytes (take kHeaderSize example_reply_stream) = Some example_reply_header"
  "drop kHeaderSize example_reply_stream = [104, 105]"
  by code_simp+

lemma example_reply_payload:
  "parse_payload_bytes dbg example_xxh lim a example_reply_header [104, 105] =
     Inr (Some \<lparr>ctx_limits = lim, ctx_remote_address = a, ctx_header = example_reply_header,
                ctx_payload = [104, 105]\<rparr>)"
  "hdr_size example_reply_header = 2" "hdr_session example_reply_header = 1"
  "hdr_compression example_reply_header = compression_flags_none"
  by (simp_all add: parse_payload_bytes_def example_reply_header_def example_envelope_def
      max_flatbuffers_size_def rpc_checksum_payload_def example_xxh_def rpc_recv_context_new_def
      normalise_compression_def compression_flags_defs)

lemma example_request_size: "envelope_size (mutate_session s example_envelope) = 18"
  by (simp add: envelope_size_def mutate_session_def map_header_def example_envelope_def
      letter_size_def kHeaderSize_def)

lemmas exchange_eval = example_exchange_def example_opts_def client_eval example_reply_parsed
  example_reply_payload example_request_size Let_def rpc_envelope_send_def ctx_session_def
  parse_payload_def

end
