(* ===== verification/Rpc_Client_Calls.thy ===== *)
theory Rpc_Client_Calls
  imports Rpc_Client
begin

text \<open>
  The calls of a client: a reply fulfils the promise of the session it carries, a promise is
  set once, a call is resolved once, and which builds can lose a call.
\<close>

section \<open>Slots and promises\<close>

lemma fail_slots_apply:
  "fail_slots slots ps w =
     (if w \<in> snd ` set slots then Broken Remote_connection_error else ps w)"
  by (induction slots ps rule: fail_slots.induct) (simp_all add: fun_upd_def)

lemma upd_conn_simps [simp]:
  "promises (upd_conn k f s) = promises s" "rpc_slots (upd_conn k f s) = rpc_slots s"
  "work_session (upd_conn k f s) = work_session s" "next_work (upd_conn k f s) = next_work s"
  "results (upd_conn k f s) = results s" "read_counter (upd_conn k f s) = read_counter s"
  "cli_conn (upd_conn k f s) = cli_conn s" "creds (upd_conn k f s) = creds s"
  "next_connection (upd_conn k f s) = next_connection s" "cfibers (upd_conn k f s) = cfibers s"
  by (simp_all add: upd_conn_def)

lemma fail_outstanding_simps [simp]:
  "rpc_slots (fail_outstanding_futures E s) = []"
  "promises (fail_outstanding_futures E s) = fail_slots (rpc_slots s) (promises s)"
  "work_session (fail_outstanding_futures E s) = work_session s"
  "next_work (fail_outstanding_futures E s) = next_work s"
  "results (fail_outstanding_futures E s) = results s"
  "cli_conn (fail_outstanding_futures E s) = cli_conn s"
  "creds (fail_outstanding_futures E s) = creds s"
  "next_connection (fail_outstanding_futures E s) = next_connection s"
  "cfibers (fail_outstanding_futures E s) = cfibers s"
  by (simp_all add: fail_outstanding_futures_def Let_def)

lemma finish_call_simps [simp]:
  "promises (finish_call E w m r s) = promises s" "rpc_slots (finish_call E w m r s) = rpc_slots s"
  "work_session (finish_call E w m r s) = work_session s"
  "next_work (finish_call E w m r s) = next_work s"
  "results (finish_call E w m r s) = (results s)(w \<mapsto> r)"
  "creds (finish_call E w m r s) = creds s" "cfibers (finish_call E w m r s) = cfibers s"
  "next_connection (finish_call E w m r s) = next_connection s"
  "connections (finish_call E w m r s) = connections s"
  by (simp_all add: finish_call_def leave_gate_def)

lemma leave_gate_simps [simp]:
  "promises (leave_gate E s) = promises s" "rpc_slots (leave_gate E s) = rpc_slots s"
  "work_session (leave_gate E s) = work_session s" "next_work (leave_gate E s) = next_work s"
  "results (leave_gate E s) = results s" "creds (leave_gate E s) = creds s"
  "next_connection (leave_gate E s) = next_connection s" "cfibers (leave_gate E s) = cfibers s"
  "connections (leave_gate E s) = connections s"
  by (simp_all add: leave_gate_def)

definition slot_inv :: "('is, 'sem, 'gate) rpc_client \<Rightarrow> bool" where
  "slot_inv s \<longleftrightarrow>
     distinct (map fst (rpc_slots s)) \<and>
     (\<forall>sess w. (sess, w) \<in> set (rpc_slots s) \<longrightarrow>
        promises s w = Pending \<and> w < next_work s \<and> work_session s w = sess) \<and>
     (\<forall>w ctx. promises s w = Fulfilled (Some ctx) \<longrightarrow> ctx_session ctx = work_session s w) \<and>
     (\<forall>w. promises s w \<noteq> Fulfilled None) \<and>
     (\<forall>w. next_work s \<le> w \<longrightarrow> promises s w = Pending)"

text \<open>
  What a step may do to the promises: those that are set stay; those that change are set to
  the error or to a message of their session; a promise leaves the slots only when it is set.
\<close>

definition slot_step :: "('is, 'sem, 'gate) rpc_client \<Rightarrow> ('is, 'sem, 'gate) rpc_client \<Rightarrow> bool" where
  "slot_step s t \<longleftrightarrow> (slot_inv s \<longrightarrow> slot_inv t \<and>
     (\<forall>w. promises s w \<noteq> Pending \<longrightarrow> promises t w = promises s w) \<and>
     (\<forall>w. w \<in> snd ` set (rpc_slots s) \<longrightarrow> promises t w = Pending \<longrightarrow> w \<in> snd ` set (rpc_slots t)))"

lemma slot_step_refl [simp]: "slot_step s s"
  by (simp add: slot_step_def)

lemma slot_step_trans: "slot_step s t \<Longrightarrow> slot_step t u \<Longrightarrow> slot_step s u"
  unfolding slot_step_def by metis

lemma slot_step_frame:
  assumes "rpc_slots t = rpc_slots s" "promises t = promises s" "work_session t = work_session s"
    "next_work s \<le> next_work t"
  shows "slot_step s t"
  using assms unfolding slot_step_def slot_inv_def by (auto intro: less_le_trans)

lemma slot_step_fail: "slot_step s (fail_outstanding_futures E s)"
  by (auto simp: slot_step_def slot_inv_def fail_slots_apply split: if_splits) (meson leD)

lemma slot_step_fulfil:
  assumes "map_of (rpc_slots s) (ctx_session ctx) = Some w"
  shows "slot_step s (s\<lparr>read_counter := n, promises := (promises s)(w := Fulfilled (Some ctx)),
    rpc_slots := AList.delete (ctx_session ctx) (rpc_slots s)\<rparr>)"
proof -
  have mem: "(ctx_session ctx, w) \<in> set (rpc_slots s)" using assms by (rule map_of_SomeD)
  have "promises s w = Pending \<and> work_session s w = ctx_session ctx \<and> w < next_work s"
    if "slot_inv s" using that mem by (auto simp: slot_inv_def)
  moreover have "(sess, w) \<notin> set (AList.delete (ctx_session ctx) (rpc_slots s))"
    if "slot_inv s" for sess
  proof
    assume "(sess, w) \<in> set (AList.delete (ctx_session ctx) (rpc_slots s))"
    then have "(sess, w) \<in> set (rpc_slots s)" "sess \<noteq> ctx_session ctx"
      by (auto simp: AList.delete_eq)
    with that mem show False unfolding slot_inv_def by metis
  qed
  moreover have "v = w \<or> v \<in> snd ` set (AList.delete (ctx_session ctx) (rpc_slots s))"
    if "slot_inv s" "(sess, v) \<in> set (rpc_slots s)" for sess v
  proof (cases "sess = ctx_session ctx")
    case True
    with that mem show ?thesis by (auto simp: slot_inv_def dest: eq_key_imp_eq_value)
  next
    case False
    with that show ?thesis by (force simp: AList.delete_eq)
  qed
  ultimately show ?thesis
    by (fastforce simp: slot_step_def slot_inv_def AList.delete_eq distinct_map_filter)
qed

lemma slot_step_raw_send: "slot_step s (raw_send E e s)"
proof (cases "is_conn_valid E s \<and> \<not> (env_dbg E \<and> map_of (rpc_slots s) (session_idx s + 1) \<noteq> None)")
  case True
  then show ?thesis
    by (auto simp: slot_step_def slot_inv_def raw_send_def Let_def map_of_eq_None_iff image_iff)
       (meson less_Suc_eq)+
next
  case False
  then show ?thesis
    by (intro slot_step_frame) (auto simp: raw_send_def Let_def)
qed

lemma slot_step_send: "slot_step s (send E e s)"
proof (cases "gate_enter E (dispatch_gate s)")
  case None
  then show ?thesis by (intro slot_step_frame) (simp_all add: send_def)
next
  case (Some g)
  have "slot_step s (s\<lparr>dispatch_gate := g\<rparr>)" by (rule slot_step_frame) simp_all
  with Some show ?thesis by (simp add: send_def slot_step_trans [OF _ slot_step_raw_send])
qed

lemma slot_step_process_reply:
  assumes "process_reply E k a opt s = (s', fs)"
  shows "slot_step s s'"
proof -
  have err: "slot_step s (fail_outstanding_futures E (upd_conn k (set_error m) s))" for m
    by (rule slot_step_trans [OF slot_step_frame slot_step_fail]) simp_all
  have exc: "slot_step s (leave_gate E (fail_outstanding_futures E s))"
    by (rule slot_step_trans [OF slot_step_fail slot_step_frame]) simp_all
  from assms show ?thesis
    by (auto simp: process_reply_def reply_error_def reads_exception_def
        intro: err exc slot_step_fulfil split: if_splits option.splits)
qed

lemma slot_step_reads_exception: "slot_step s (fst (reads_exception E a s))"
  by (auto simp: reads_exception_def intro: slot_step_trans [OF slot_step_fail slot_step_frame])

lemma slot_step_reply_error: "slot_step s (fst (reply_error E k a m s))"
  by (simp add: reply_error_def slot_step_trans [OF slot_step_frame slot_step_fail])

lemma slot_step_upd_conn: "slot_step s (upd_conn k f s)"
  by (rule slot_step_frame) simp_all

lemma slot_step_reply_header: "slot_step s (fst (reply_header E oc k a c s))"
  using slot_step_trans [OF slot_step_upd_conn slot_step_reads_exception]
    slot_step_trans [OF slot_step_upd_conn slot_step_reply_error]
  by (auto simp: reply_header_def slot_step_reads_exception slot_step_upd_conn
      split: outcome.splits prod.splits sum.splits option.splits)

lemma slot_step_reply_payload: "slot_step s (fst (reply_payload E oc k h a c s))"
proof -
  have "slot_step s (fst (process_reply E k a opt (upd_conn k f s)))" for opt f
    using slot_step_process_reply [of E k a opt "upd_conn k f s"] slot_step_trans [OF slot_step_upd_conn]
    by (metis prod.collapse)
  then show ?thesis
    using slot_step_trans [OF slot_step_upd_conn slot_step_reads_exception]
    by (auto simp: reply_payload_def slot_step_reads_exception split: outcome.splits prod.splits sum.splits)
qed

lemma slot_step_write_send: "slot_step s (write_send E oc e n s)"
proof -
  have "slot_step s u \<Longrightarrow> slot_step s (write_done E n u)" for u
    by (erule slot_step_trans, rule slot_step_frame) (simp_all add: write_done_def)
  then show ?thesis
    by (auto simp: write_send_def slot_step_fail slot_step_upd_conn
        split: option.splits sum.splits outcome.splits)
qed

lemma slot_step_exec:
  assumes "exec_cfiber E oc i f s = Some (s', fs)"
  shows "slot_step s s'"
proof (cases f)
  case (Reply_header k a)
  with assms slot_step_reply_header show ?thesis by (auto dest!: arg_cong [where f = fst])
next
  case (Reply_payload k h a)
  with assms slot_step_reply_payload show ?thesis by (auto dest!: arg_cong [where f = fst])
next
  case (Write_turn e n)
  with assms slot_step_write_send show ?thesis by auto
qed (use assms in \<open>auto simp: call_outgoing_def dispatch_write_def call_await_def call_incoming_def
    write_memory_def reads_loop_def reconnect_continuation_def connect_failed_def socket_connected_def
    tls_wrapped_def connected_def Let_def intro!: slot_step_frame
    split: sum.splits option.splits promise.splits if_splits outcome.splits\<close>)

lemma slot_step_step: "client_step E s e t \<Longrightarrow> slot_step s t"
proof (induction rule: client_step.induct)
  case (cl_send s e)
  show ?case by (rule slot_step_send)
next
  case (cl_connect s)
  show ?case by (auto simp: connect_def intro: slot_step_frame)
next
  case (cl_reconnect s)
  show ?case
    unfolding reconnect_def cli_stop_def Let_def
    by (rule slot_step_trans [OF slot_step_fail], rule slot_step_trans [OF slot_step_fail])
       (rule slot_step_frame, simp_all)
next
  case (cl_stop s)
  show ?case unfolding cli_stop_def Let_def
    by (rule slot_step_trans [OF slot_step_fail], rule slot_step_frame) simp_all
next
  case (cl_timeout s xs f ys f')
  show ?case unfolding reads_timeout_def
    by (rule slot_step_trans [OF slot_step_reads_exception [of s E True]])
       (rule slot_step_frame, simp_all)
next
  case (cl_run s xs f ys oc i s' fs)
  from slot_step_exec [OF cl_run(2)] show ?case
    by (rule slot_step_trans) (rule slot_step_frame, simp_all)
qed

definition fresh_client :: "('is, 'sem, 'gate) rpc_client \<Rightarrow> bool" where
  "fresh_client s \<longleftrightarrow> rpc_slots s = [] \<and> (\<forall>w. promises s w = Pending) \<and> next_work s = 0 \<and>
     results s = Map.empty \<and> cfibers s = []"

lemma fresh_client_new: "fresh_client (configured_client E opts ins outs)"
  by (simp add: fresh_client_def configured_client_def rpc_client_new_def)

interpretation slots: invariant_system "client_step E" fresh_client "\<lambda>e. True" slot_inv
  for E :: "('is, 'sem, 'gate) seastar_env"
proof unfold_locales
  show "slot_inv s" if "fresh_client s" for s :: "('is, 'sem, 'gate) rpc_client"
    using that by (simp add: fresh_client_def slot_inv_def)
  show "slot_inv t" if "slot_inv s" "client_step E s e t" for s e t
    using that slot_step_step unfolding slot_step_def by blast
qed

section \<open>Calls and their futures\<close>

fun call_of :: "cfiber \<Rightarrow> nat list" where
  "call_of (Out_filters w m e) = [w]"
| "call_of (Await w m) = [w]"
| "call_of (In_filters w m ctx) = [w]"
| "call_of _ = []"

text \<open>The calls that still wait for their promise, or will.\<close>

fun waits :: "cfiber \<Rightarrow> nat list" where
  "waits (Out_filters w m e) = [w]"
| "waits (Await w m) = [w]"
| "waits _ = []"

definition calls :: "cfiber list \<Rightarrow> nat list" where
  "calls fs = concat (map call_of fs)"

definition waiting :: "cfiber list \<Rightarrow> nat list" where
  "waiting fs = concat (map waits fs)"

lemma calls_simps [simp]:
  "calls [] = []" "calls (f # fs) = call_of f @ calls fs" "calls (xs @ ys) = calls xs @ calls ys"
  "waiting [] = []" "waiting (f # fs) = waits f @ waiting fs" "waiting (xs @ ys) = waiting xs @ waiting ys"
  by (simp_all add: calls_def waiting_def)

lemma waiting_calls: "w \<in> set (waiting fs) \<Longrightarrow> w \<in> set (calls fs)"
proof (induction fs)
  case (Cons f fs)
  have "w \<in> set (waits f) \<Longrightarrow> w \<in> set (call_of f)" by (cases f) simp_all
  with Cons show ?case by auto
qed simp

definition call_inv :: "('is, 'sem, 'gate) seastar_env \<Rightarrow> ('is, 'sem, 'gate) rpc_client \<Rightarrow> bool" where
  "call_inv E s \<longleftrightarrow> slot_inv s \<and> distinct (calls (cfibers s)) \<and>
     (\<forall>w. w \<in> set (calls (cfibers s)) \<longleftrightarrow> w < next_work s \<and> results s w = None) \<and>
     (\<forall>w. next_work s \<le> w \<longrightarrow> results s w = None) \<and>
     (env_dbg E \<longrightarrow> (\<forall>w \<in> set (waiting (cfibers s)). promises s w = Pending \<longrightarrow>
        w \<in> snd ` set (rpc_slots s)))"

text \<open>The effect of a continuation on the call of its fiber: it goes on, or it is resolved.\<close>

definition call_step ::
    "('is, 'sem, 'gate) rpc_client \<Rightarrow> cfiber \<Rightarrow> ('is, 'sem, 'gate) rpc_client \<Rightarrow> cfiber list \<Rightarrow> bool" where
  "call_step s f s' fs \<longleftrightarrow> next_work s' = next_work s \<and> set (waiting fs) \<subseteq> set (waits f) \<and>
     (calls fs = call_of f \<and> results s' = results s \<or>
      (\<exists>w r. call_of f = [w] \<and> calls fs = [] \<and> results s' = (results s)(w \<mapsto> r)))"

lemma reads_frame [simp]:
  "next_work (fst (reads_exception E a s)) = next_work s"
  "results (fst (reads_exception E a s)) = results s"
  "cfibers (fst (reads_exception E a s)) = cfibers s"
  "calls (snd (reads_exception E a s)) = []" "waiting (snd (reads_exception E a s)) = []"
  "next_work (fst (reply_error E k a m s)) = next_work s"
  "results (fst (reply_error E k a m s)) = results s"
  "calls (snd (reply_error E k a m s)) = []" "waiting (snd (reply_error E k a m s)) = []"
  "calls (next_read a) = []" "waiting (next_read a) = []"
  by (simp_all add: reads_exception_def reply_error_def next_read_def)

lemma process_reply_frame [simp]:
  "next_work (fst (process_reply E k a opt s)) = next_work s"
  "results (fst (process_reply E k a opt s)) = results s"
  "calls (snd (process_reply E k a opt s)) = []" "waiting (snd (process_reply E k a opt s)) = []"
  by (simp_all add: process_reply_def split: option.splits)

lemma call_step_exec:
  assumes "exec_cfiber E oc i f s = Some (s', fs)"
  shows "call_step s f s' fs"
proof (cases f)
  case (Reply_header k a)
  have "call_step s (Reply_header k a) (fst r) (snd r)" if "reply_header E oc k a c s = r" for r c
    using that by (auto simp: call_step_def reply_header_def
        split: outcome.splits prod.splits sum.splits option.splits)
  moreover from Reply_header assms obtain c where "reply_header E oc k a c s = (s', fs)" by auto
  ultimately have "call_step s (Reply_header k a) (fst (s', fs)) (snd (s', fs))" by blast
  with Reply_header show ?thesis by simp
next
  case (Reply_payload k h a)
  have "call_step s (Reply_payload k h a) (fst r) (snd r)" if "reply_payload E oc k h a c s = r" for r c
    using that by (auto simp: call_step_def reply_payload_def
        split: outcome.splits prod.splits sum.splits)
  moreover from Reply_payload assms obtain c where "reply_payload E oc k h a c s = (s', fs)"
    by auto
  ultimately have "call_step s (Reply_payload k h a) (fst (s', fs)) (snd (s', fs))" by blast
  with Reply_payload show ?thesis by simp
next
  case (Write_turn e n)
  have "next_work (write_send E oc e n s) = next_work s" "results (write_send E oc e n s) = results s"
    by (simp_all add: write_send_def write_done_def split: option.splits sum.splits outcome.splits)
  with Write_turn assms show ?thesis by (auto simp: call_step_def)
qed (use assms in \<open>auto simp: call_step_def call_outgoing_def dispatch_write_def call_await_def
    call_incoming_def write_memory_def reads_loop_def reconnect_continuation_def connect_failed_def
    socket_connected_def tls_wrapped_def connected_def Let_def
    split: sum.splits option.splits promise.splits if_splits outcome.splits\<close>)

text \<open>A call that waits keeps its slot until its promise is set.\<close>

lemma kept_in_slots:
  assumes "slot_step s t" "slot_inv s" "w \<in> W'" "W' \<subseteq> W"
    and "\<forall>w \<in> W. promises s w = Pending \<longrightarrow> w \<in> snd ` set (rpc_slots s)" "promises t w = Pending"
  shows "w \<in> snd ` set (rpc_slots t)"
proof -
  have "promises s w = Pending" using assms(1,2,6) unfolding slot_step_def by metis
  with assms(3-5) have "w \<in> snd ` set (rpc_slots s)" by blast
  with assms(1,2,6) show ?thesis unfolding slot_step_def by blast
qed

lemma call_inv_frame:
  assumes i: "call_inv E s" and st: "slot_step s t"
    and "results t = results s" "next_work t = next_work s" "calls (cfibers t) = calls (cfibers s)"
      "set (waiting (cfibers t)) \<subseteq> set (waiting (cfibers s))"
  shows "call_inv E t"
proof -
  have "slot_inv s" "slot_inv t" using i st by (simp_all add: call_inv_def slot_step_def)
  with assms kept_in_slots [OF st _ _ assms(6)] show ?thesis by (auto simp: call_inv_def)
qed

lemma call_inv_run:
  assumes i: "call_inv E s" and f: "cfibers s = xs @ f # ys"
    and x: "exec_cfiber E oc j f s = Some (s', fs)"
  shows "call_inv E (s'\<lparr>cfibers := xs @ fs @ ys\<rparr>)"
proof -
  let ?t = "s'\<lparr>cfibers := xs @ fs @ ys\<rparr>"
  have st: "slot_step s ?t" by (rule slot_step_step [OF cl_run [OF f x]])
  from call_step_exec [OF x] have cs: "next_work s' = next_work s" "set (waiting fs) \<subseteq> set (waits f)"
    and ways: "calls fs = call_of f \<and> results s' = results s \<or>
      (\<exists>w r. call_of f = [w] \<and> calls fs = [] \<and> results s' = (results s)(w \<mapsto> r))"
    by (simp_all add: call_step_def)
  have sub: "set (waiting (cfibers ?t)) \<subseteq> set (waiting (cfibers s))" using cs(2) f by auto
  have si: "slot_inv s" "slot_inv ?t" using i st by (simp_all add: call_inv_def slot_step_def)
  from ways show ?thesis
  proof
    assume "calls fs = call_of f \<and> results s' = results s"
    with i st sub f cs show ?thesis by (intro call_inv_frame [OF i st]) simp_all
  next
    assume "\<exists>w r. call_of f = [w] \<and> calls fs = [] \<and> results s' = (results s)(w \<mapsto> r)"
    then obtain w r where w: "call_of f = [w]" "calls fs = []" "results s' = (results s)(w \<mapsto> r)"
      by blast
    have "env_dbg E \<longrightarrow> (\<forall>v \<in> set (waiting (cfibers ?t)). promises ?t v = Pending \<longrightarrow>
        v \<in> snd ` set (rpc_slots ?t))"
      using kept_in_slots [OF st si(1) _ sub] i unfolding call_inv_def by blast
    moreover have "w < next_work s" "distinct (calls xs @ w # calls ys)"
      "\<forall>v. v \<in> set (calls xs @ w # calls ys) \<longleftrightarrow> v < next_work s \<and> results s v = None"
      "\<forall>v. next_work s \<le> v \<longrightarrow> results s v = None"
      using i f w(1) by (auto simp: call_inv_def)
    ultimately show ?thesis using si(2) w cs(1) by (auto simp: call_inv_def)
  qed
qed

lemma send_effect:
  "next_work (send E e s) = Suc (next_work s) \<and>
   ((\<exists>r. results (send E e s) = (results s)(next_work s \<mapsto> r) \<and> cfibers (send E e s) = cfibers s) \<or>
    (\<exists>m e'. results (send E e s) = results s \<and>
       cfibers (send E e s) = cfibers s @ [Out_filters (next_work s) m e'] \<and>
       (env_dbg E \<longrightarrow> next_work s \<in> snd ` set (rpc_slots (send E e s)))))"
proof (cases "gate_enter E (dispatch_gate s)")
  case None
  then show ?thesis by (auto simp: send_def)
next
  case (Some g)
  then show ?thesis by (auto simp: send_def raw_send_def Let_def)
qed

lemma call_inv_send:
  assumes i: "call_inv E s"
  shows "call_inv E (send E e s)"
proof -
  let ?w = "next_work s" and ?t = "send E e s"
  have st: "slot_step s ?t" by (rule slot_step_send)
  have si: "slot_inv s" "slot_inv ?t" using i st by (simp_all add: call_inv_def slot_step_def)
  have old: "env_dbg E \<longrightarrow> (\<forall>v \<in> set (waiting (cfibers s)). promises ?t v = Pending \<longrightarrow>
        v \<in> snd ` set (rpc_slots ?t))"
    using kept_in_slots [OF st si(1) _ subset_refl] i unfolding call_inv_def by blast
  have fresh: "?w \<notin> set (calls (cfibers s))" "results s ?w = None"
    using i by (auto simp: call_inv_def)
  from send_effect [of E e s] show ?thesis
  proof (elim conjE disjE exE)
    fix r assume "next_work ?t = Suc ?w" "results ?t = (results s)(?w \<mapsto> r)" "cfibers ?t = cfibers s"
    with i si(2) old fresh show ?thesis by (auto simp: call_inv_def less_Suc_eq)
  next
    fix m e' assume "next_work ?t = Suc ?w" "results ?t = results s"
      "cfibers ?t = cfibers s @ [Out_filters ?w m e']"
      "env_dbg E \<longrightarrow> ?w \<in> snd ` set (rpc_slots ?t)"
    with i si(2) old fresh show ?thesis by (auto simp: call_inv_def less_Suc_eq)
  qed
qed

lemma detach_calls: "detach f = Some f' \<Longrightarrow> call_of f' = call_of f \<and> waits f' = waits f"
  by (induction f rule: detach.induct) auto

lemma call_inv_step:
  assumes "client_step E s e t" "call_inv E s"
  shows "call_inv E t"
  using assms(2) slot_step_step [OF assms(1)] assms(1)
proof (elim client_step.cases, goal_cases)
  case (1 s0 e0)
  then show ?case using call_inv_send by simp
next
  case (2 s0)
  then show ?case by (intro call_inv_frame [of E s t]) (auto simp: connect_def)
next
  case (3 s0)
  then show ?case
    by (intro call_inv_frame [of E s t]) (auto simp: reconnect_def cli_stop_def Let_def)
next
  case (4 s0)
  then show ?case by (intro call_inv_frame [of E s t]) (auto simp: cli_stop_def Let_def)
next
  case (5 s0 xs f ys f')
  then show ?case using detach_calls [of f f']
    by (intro call_inv_frame [of E s t]) (auto simp: reads_timeout_def)
next
  case (6 s0 xs f ys oc i s' fs)
  then show ?case using call_inv_run [of E s xs f ys oc i s' fs] by simp
qed

interpretation calls: invariant_system "client_step E" fresh_client "\<lambda>e. True" "call_inv E"
  for E :: "('is, 'sem, 'gate) seastar_env"
proof unfold_locales
  show "call_inv E s" if "fresh_client s" for s
    using that slots.inv_init [of s] by (simp add: fresh_client_def call_inv_def)
  show "call_inv E t" if "call_inv E s" "client_step E s e t" for s e t
    using that call_inv_step by blast
qed

lemma results_kept:
  assumes "client_step E s e t" "call_inv E s" "results s w = Some r"
  shows "results t w = Some r"
  using assms
proof (elim client_step.cases, goal_cases)
  case (1 s0 e0)
  then have "w \<noteq> next_work s" by (auto simp: call_inv_def)
  with 1 show ?case using send_effect [of E e0 s] by auto
next
  case (6 s0 xs f ys oc i s' fs)
  then have "w \<notin> set (call_of f)" by (auto simp: call_inv_def)
  with 6 show ?case using call_step_exec [of E oc i f s s' fs] by (auto simp: call_step_def)
qed (simp_all add: connect_def reconnect_def cli_stop_def reads_timeout_def Let_def)

lemma promises_kept:
  assumes "run (client_step E) s es t" "call_inv E s"
  shows "(promises s w \<noteq> Pending \<longrightarrow> promises t w = promises s w) \<and>
    (\<forall>r. results s w = Some r \<longrightarrow> results t w = Some r)"
  using assms
proof (induction rule: run.induct)
  case (run_nil s)
  then show ?case by simp
next
  case (run_cons s e t es u)
  have "slot_inv s" using run_cons.prems by (simp add: call_inv_def)
  then have "promises s w \<noteq> Pending \<longrightarrow> promises t w = promises s w"
    using slot_step_step [OF run_cons.hyps(1)] unfolding slot_step_def by blast
  with run_cons results_kept [OF run_cons.hyps(1) run_cons.prems] call_inv_step show ?case by metis
qed

section \<open>The properties of the calls\<close>



text \<open>
  C9: a call is resolved once. Every call ever made is either in flight, in exactly one fiber, or
  its future is resolved; a promise that is set and a future that is resolved never change
  again, whatever arrives, times out or is reconnected.
\<close>

theorem calls_resolved_once:
  assumes "run (client_step E) (configured_client E opts ins outs) es s"
    and "run (client_step E) s es' t"
  shows "distinct (calls (cfibers s)) \<and>
    (\<forall>w. w < next_work s \<longrightarrow> (w \<in> set (calls (cfibers s)) \<longleftrightarrow> results s w = None)) \<and>
    (\<forall>w. promises s w \<noteq> Pending \<longrightarrow> promises t w = promises s w) \<and>
    (\<forall>w r. results s w = Some r \<longrightarrow> results t w = Some r)"
proof -
  have i: "call_inv E s" using calls.inv_run [OF fresh_client_new assms(1)] by (simp add: list.pred_True)
  with promises_kept [OF assms(2) i] show ?thesis by (simp add: call_inv_def)
qed

theorem calls_resolved_once_witness:
  "\<exists>es s es' t ctx. cli_play example_env example_exchange
       (configured_client example_env example_opts [] []) = Some (es, s) \<and>
     cli_play example_env [Dc_stop] s = Some (es', t) \<and>
     promises s 0 = Fulfilled (Some ctx) \<and> promises t 0 = Fulfilled (Some ctx)"
proof -
  let ?s = "configured_client example_env example_opts [] []"
  have "case cli_play example_env example_exchange ?s of None \<Rightarrow> False
    | Some (es, t) \<Rightarrow> \<exists>ctx. promises t 0 = Fulfilled (Some ctx)"
    by (simp add: exchange_eval)
  then obtain es s ctx where p: "cli_play example_env example_exchange ?s = Some (es, s)"
    and c: "promises s 0 = Fulfilled (Some ctx)" by (auto split: option.splits)
  obtain es' t where q: "cli_play example_env [Dc_stop] s = Some (es', t)" by simp
  have "promises t 0 = promises s 0"
    using calls_resolved_once [OF cli_play_run [OF p] cli_play_run [OF q]] c by simp
  with p q c show ?thesis by metis
qed

text \<open>
  C10: in a build with the debug checks no call is lost. A call that waits on a promise that is
  not set has a slot, so a reply to its session or the failure of the connection will set
  it; after \<^verbatim>\<open>stop\<close> no call waits on a promise that is not set.
\<close>

theorem no_call_lost:
  assumes "env_dbg E" and "run (client_step E) (configured_client E opts ins outs) es s"
    and "w \<in> set (waiting (cfibers s))"
  shows "(promises s w = Pending \<longrightarrow> map_of (rpc_slots s) (work_session s w) = Some w) \<and>
    promises (cli_stop E s) w \<noteq> Pending"
proof -
  have i: "call_inv E s" using calls.inv_run [OF fresh_client_new assms(2)] by (simp add: list.pred_True)
  with assms(1,3) have slot: "promises s w = Pending \<Longrightarrow> w \<in> snd ` set (rpc_slots s)"
    by (simp add: call_inv_def)
  moreover have "map_of (rpc_slots s) (work_session s w) = Some w" if p: "w \<in> snd ` set (rpc_slots s)"
  proof -
    from p obtain sess where "(sess, w) \<in> set (rpc_slots s)" by auto
    with i show ?thesis by (auto simp: call_inv_def slot_inv_def)
  qed
  ultimately show ?thesis by (auto simp: cli_stop_def Let_def fail_slots_apply)
qed

theorem no_call_lost_witness:
  "\<exists>es s. cli_play (example_env\<lparr>env_dbg := True\<rparr>)
       [Dc_connect, Dc_fiber 0 Proceed [], Dc_send example_envelope]
       (configured_client (example_env\<lparr>env_dbg := True\<rparr>) example_opts [] []) = Some (es, s) \<and>
     0 \<in> set (waiting (cfibers s)) \<and> promises (cli_stop (example_env\<lparr>env_dbg := True\<rparr>) s) 0 \<noteq> Pending"
proof -
  let ?E = "example_env\<lparr>env_dbg := True\<rparr>"
  let ?s = "configured_client ?E example_opts [] []"
  let ?acts = "[Dc_connect, Dc_fiber 0 Proceed [], Dc_send example_envelope]"
  have "case cli_play ?E ?acts ?s of None \<Rightarrow> False | Some (es, t) \<Rightarrow> 0 \<in> set (waiting (cfibers t))"
    by (simp add: exchange_eval)
  then obtain es s where p: "cli_play ?E ?acts ?s = Some (es, s)" and w: "0 \<in> set (waiting (cfibers s))"
    by (auto split: option.splits)
  have "promises (cli_stop ?E s) 0 \<noteq> Pending"
    using no_call_lost [OF _ cli_play_run [OF p] w] by simp
  with p w show ?thesis by blast
qed

end
