(* ===== verification/Rpc_Client_Failures.thy ===== *)
theory Rpc_Client_Failures
  imports Rpc_Client_Calls
begin

text \<open>
  What the client does not guarantee: calls that share a session in a build without the debug
  checks, reads left behind by a timeout, and the credentials of a second connection.
\<close>

lemma is_conn_valid_frame:
  assumes "connections t = connections s" "cli_conn t = cli_conn s"
  shows "is_conn_valid E t = is_conn_valid E s"
  by (simp only: is_conn_valid_def assms)

section \<open>Sessions that wrap around\<close>

text \<open>
  C20: without the debug checks, a call whose 16-bit session is still taken by an outstanding
  call is lost: it gets no slot, so its promise stays pending when the failure of the
  connection sets every outstanding one.
\<close>

theorem slot_collision_loses_call:
  assumes "run (client_step E) (configured_client E opts ins outs) es s"
    and "\<not> env_dbg E" "is_conn_valid E s" "gate_enter E (dispatch_gate s) \<noteq> None"
    and "map_of (rpc_slots s) (session_idx s + 1) \<noteq> None"
  shows "next_work s \<in> set (waiting (cfibers (send E e s))) \<and>
    next_work s \<notin> snd ` set (rpc_slots (send E e s)) \<and>
    promises (cli_stop E (send E e s)) (next_work s) = Pending"
proof -
  have i: "slot_inv s" using slots.inv_run [OF fresh_client_new assms(1)] by (simp add: list.pred_True)
  from assms(4) obtain g where g: "gate_enter E (dispatch_gate s) = Some g" by blast
  have v: "is_conn_valid E (s\<lparr>dispatch_gate := g\<rparr>)"
    using assms(3) is_conn_valid_frame [of "s\<lparr>dispatch_gate := g\<rparr>" s E] by simp
  have slots: "rpc_slots (send E e s) = rpc_slots s" "promises (send E e s) = promises s"
    "next_work s \<in> set (waiting (cfibers (send E e s)))"
    using assms(2,5) g v by (auto simp: send_def raw_send_def Let_def)
  have "w \<noteq> next_work s" if "(sess, w) \<in> set (rpc_slots s)" for sess w
    using i that unfolding slot_inv_def by blast
  then have fresh: "next_work s \<notin> snd ` set (rpc_slots s)" by force
  have "promises s (next_work s) = Pending" using i by (simp add: slot_inv_def)
  with slots fresh show ?thesis by (simp add: cli_stop_def Let_def fail_slots_apply)
qed

text \<open>Such a state is reached when 65536 calls are outstanding.\<close>

lemma sends_run: "run (client_step E) s (replicate n (Ev_send e)) ((send E e ^^ n) s)"
proof (induction n arbitrary: s)
  case 0
  show ?case by (simp add: run_Nil_iff)
next
  case (Suc n)
  have "run (client_step E) (send E e s) (replicate n (Ev_send e)) ((send E e ^^ n) (send E e s))"
    by (rule Suc.IH)
  then have "run (client_step E) s (Ev_send e # replicate n (Ev_send e)) ((send E e ^^ n) (send E e s))"
    by (intro run_cons) (rule cl_send)
  then show ?case by (simp add: funpow_swap1)
qed

lemma send_state:
  assumes v: "is_conn_valid example_env s" and g: "dispatch_gate s = (m, False)"
    and k: "map_of (rpc_slots s) k = Some w"
  shows "is_conn_valid example_env (send example_env e s) \<and>
    dispatch_gate (send example_env e s) = (Suc m, False) \<and>
    session_idx (send example_env e s) = session_idx s + 1 \<and>
    map_of (rpc_slots (send example_env e s)) k = Some w"
proof -
  let ?g = "s\<lparr>dispatch_gate := (Suc m, False)\<rparr>"
  have E: "gate_enter example_env (m, False) = Some (Suc m, False)" "\<not> env_dbg example_env"
    by (simp_all add: example_env_def)
  have vg: "is_conn_valid example_env ?g" using v is_conn_valid_frame [of ?g s example_env] by simp
  then have "is_conn_valid example_env (send example_env e s) = is_conn_valid example_env ?g"
    using g E by (intro is_conn_valid_frame) (simp_all add: send_def raw_send_def Let_def)
  with vg g E k show ?thesis by (auto simp: send_def raw_send_def Let_def)
qed

lemma sends_state:
  assumes "is_conn_valid example_env s" "dispatch_gate s = (m, False)" "map_of (rpc_slots s) k = Some w"
  shows "is_conn_valid example_env ((send example_env e ^^ n) s) \<and>
    dispatch_gate ((send example_env e ^^ n) s) = (m + n, False) \<and>
    session_idx ((send example_env e ^^ n) s) = session_idx s + word_of_nat n \<and>
    map_of (rpc_slots ((send example_env e ^^ n) s)) k = Some w"
proof (induction n)
  case 0
  show ?case using assms by simp
next
  case (Suc n)
  then show ?case using send_state [of "(send example_env e ^^ n) s" "m + n" k w e] by simp
qed

theorem slot_collision_loses_call_witness:
  "\<exists>es s. run (client_step example_env) (configured_client example_env example_opts [] []) es s \<and>
     next_work s \<in> set (waiting (cfibers (send example_env example_envelope s))) \<and>
     promises (cli_stop example_env (send example_env example_envelope s)) (next_work s) = Pending"
proof -
  let ?E = example_env
  let ?acts = "[Dc_connect, Dc_fiber 0 Proceed [], Dc_send example_envelope]"
  let ?c = "configured_client ?E example_opts [] []"
  have "case cli_play ?E ?acts ?c of None \<Rightarrow> False
    | Some (es, t) \<Rightarrow> is_conn_valid ?E t \<and> dispatch_gate t = (2, False) \<and> session_idx t = 1 \<and>
        map_of (rpc_slots t) 1 = Some 0"
    by (simp add: exchange_eval)
  then obtain es u where p: "cli_play ?E ?acts ?c = Some (es, u)"
    and u: "is_conn_valid ?E u" "dispatch_gate u = (2, False)" "session_idx u = 1" "map_of (rpc_slots u) 1 = Some 0"
    by (auto split: option.splits)
  define s where "s = (send ?E example_envelope ^^ 65535) u"
  have n: "is_conn_valid ?E s" "dispatch_gate s = (2 + 65535, False)"
    "session_idx s = session_idx u + word_of_nat 65535" "map_of (rpc_slots s) 1 = Some 0"
    unfolding s_def using sends_state [OF u(1,2,4), where e = example_envelope and n = 65535]
    by blast+
  have wrap: "(1 + word_of_nat 65535 + 1 :: u16) = 1" by simp
  have st: "map_of (rpc_slots s) (session_idx s + 1) \<noteq> None"
    by (simp only: n(3,4) u(3) wrap option.distinct not_False_eq_True)
  have g: "gate_enter ?E (dispatch_gate s) \<noteq> None" "\<not> env_dbg ?E"
    by (simp_all only: n(2)) (simp_all add: example_env_def)
  have r: "run (client_step ?E) ?c (es @ replicate 65535 (Ev_send example_envelope)) s"
    unfolding s_def by (rule run_append [OF cli_play_run [OF p] sends_run])
  from slot_collision_loses_call [OF r g(2) n(1) g(1) st] r show ?thesis by blast
qed

section \<open>Reads left behind\<close>



section \<open>Credentials\<close>

text \<open>What of the state the credentials concern; updates of a connection keep it.\<close>

definition tls_view ::
    "('is, 'sem, 'gate) rpc_client \<Rightarrow> nat option \<times> nat \<times> (nat \<Rightarrow> nat option option)" where
  "tls_view s = (creds s, next_connection s, \<lambda>k. map_option snd (connections s k))"

lemma tls_view_updates [simp]:
  "tls_view (s\<lparr>cfibers := fs\<rparr>) = tls_view s" "tls_view (s\<lparr>dispatch_gate := g\<rparr>) = tls_view s"
  "tls_view (s\<lparr>cli_limits := l\<rparr>) = tls_view s" "tls_view (s\<lparr>cli_conn := k\<rparr>) = tls_view s"
  "tls_view (s\<lparr>promises := p\<rparr>) = tls_view s" "tls_view (s\<lparr>rpc_slots := q\<rparr>) = tls_view s"
  "tls_view (s\<lparr>read_counter := n\<rparr>) = tls_view s" "tls_view (s\<lparr>results := r\<rparr>) = tls_view s"
  "tls_view (s\<lparr>connect_results := cs\<rparr>) = tls_view s" "tls_view (s\<lparr>next_work := w\<rparr>) = tls_view s"
  "tls_view (s\<lparr>session_idx := i\<rparr>) = tls_view s" "tls_view (s\<lparr>work_session := ws\<rparr>) = tls_view s"
  "tls_view (s\<lparr>cli_measured := m\<rparr>) = tls_view s"
  by (simp_all add: tls_view_def)

lemma tls_view_upd_conn [simp]: "tls_view (upd_conn k f s) = tls_view s"
  by (auto simp: tls_view_def upd_conn_def option.map_comp comp_def case_prod_unfold)

lemma tls_view_frame [simp]:
  "tls_view (fail_outstanding_futures E s) = tls_view s"
  "tls_view (leave_gate E s) = tls_view s" "tls_view (finish_call E w m r s) = tls_view s"
  "tls_view (write_done E n s) = tls_view s" "tls_view (send E e s) = tls_view s"
  "tls_view (cli_stop E s) = tls_view s" "tls_view (reconnect E s) = tls_view s"
  by (simp_all add: fail_outstanding_futures_def leave_gate_def finish_call_def write_done_def
      send_def raw_send_def cli_stop_def reconnect_def Let_def split: option.splits)

lemma tls_view_reads [simp]:
  "tls_view (fst (reads_exception E a s)) = tls_view s" "tls_view (fst (reply_error E k a m s)) = tls_view s"
  by (simp_all add: reads_exception_def reply_error_def)

lemma tls_view_process_reply [simp]: "tls_view (fst (process_reply E k a opt s)) = tls_view s"
  by (simp add: process_reply_def split: option.splits)

lemma tls_view_reply_header [simp]: "tls_view (fst (reply_header E oc k a c s)) = tls_view s"
  by (simp add: reply_header_def split: outcome.splits prod.splits sum.splits option.splits)

lemma tls_view_reply_payload [simp]: "tls_view (fst (reply_payload E oc k h a c s)) = tls_view s"
  by (simp add: reply_payload_def split: outcome.splits prod.splits sum.splits)

lemma tls_view_write_send [simp]: "tls_view (write_send E oc e n s) = tls_view s"
  by (simp add: write_send_def split: option.splits sum.splits outcome.splits)

text \<open>No fiber but \<open>Connecting\<close> starts a TLS session.\<close>

definition no_tls :: "cfiber list \<Rightarrow> bool" where
  "no_tls fs \<longleftrightarrow> list_all (\<lambda>f. case f of Tls_wrapping cr \<Rightarrow> False | _ \<Rightarrow> True) fs"

lemma no_tls_simps [simp]:
  "no_tls []" "no_tls (xs @ ys) \<longleftrightarrow> no_tls xs \<and> no_tls ys"
  "no_tls (f # fs) \<longleftrightarrow> (case f of Tls_wrapping cr \<Rightarrow> False | _ \<Rightarrow> True) \<and> no_tls fs"
  by (simp_all add: no_tls_def)

lemma no_tls_reads [simp]:
  "no_tls (next_read a)" "no_tls (snd (reads_exception E a s))" "no_tls (snd (reply_error E k a m s))"
  "no_tls (snd (process_reply E k a opt s))" "no_tls (snd (reply_header E oc k a c s))"
  "no_tls (snd (reply_payload E oc k h a c s))"
  by (simp_all add: next_read_def reads_exception_def reply_error_def process_reply_def
      reply_header_def reply_payload_def split: option.splits outcome.splits prod.splits sum.splits)

lemma exec_tls:
  assumes "exec_cfiber E oc i f s = Some r" "f \<noteq> Connecting" "no_tls [f]"
  shows "tls_view (fst r) = tls_view s \<and> no_tls (snd r)"
proof (cases f)
  case (Reply_header k a)
  with assms(1) obtain c where "r = reply_header E oc k a c s" by auto
  then show ?thesis by simp
next
  case (Reply_payload k h a)
  with assms(1) obtain c where "r = reply_payload E oc k h a c s" by auto
  then show ?thesis by simp
qed (use assms in \<open>auto simp: call_outgoing_def dispatch_write_def call_await_def call_incoming_def
    write_memory_def reads_loop_def reconnect_continuation_def connect_failed_def Let_def
    split: sum.splits option.splits promise.splits if_splits\<close>)

definition plain_from :: "nat \<Rightarrow> ('is, 'sem, 'gate) rpc_client \<Rightarrow> bool" where
  "plain_from n s \<longleftrightarrow> creds s = None \<and> n \<le> next_connection s \<and> no_tls (cfibers s) \<and>
     (\<forall>k c tls. n \<le> k \<longrightarrow> connections s k = Some (c, tls) \<longrightarrow> tls = None)"

lemma plain_from_view:
  assumes "plain_from n s" "tls_view t = tls_view s" "no_tls (cfibers t)"
  shows "plain_from n t"
proof -
  have v: "creds t = creds s" "next_connection t = next_connection s"
    "map_option snd (connections t k) = map_option snd (connections s k)" for k
    using assms(2) by (simp_all add: tls_view_def fun_eq_iff)
  have "tls = None" if "n \<le> k" "connections t k = Some (c, tls)" for k c tls
  proof -
    from that(2) v(3) [of k] obtain c' where "connections s k = Some (c', tls)"
      by (cases "connections s k") auto
    with assms(1) that(1) show ?thesis by (simp add: plain_from_def)
  qed
  with assms(1,3) v show ?thesis by (auto simp: plain_from_def)
qed

lemma plain_connecting:
  assumes "plain_from n s" "socket_connected E oc i s = (s', fs)"
  shows "plain_from n (s'\<lparr>cfibers := gs\<rparr>) = no_tls gs \<and> no_tls fs"
  using assms
  by (auto simp: plain_from_def socket_connected_def connect_failed_def connected_def Let_def
      split: outcome.splits option.splits if_splits)

lemma detach_tls: "detach f = Some f' \<Longrightarrow> no_tls [f']"
  by (induction f rule: detach.induct) auto

lemma plain_step:
  assumes "client_step E s e t" "plain_from n s"
  shows "plain_from n t"
  using assms
proof (induction rule: client_step.induct)
  case (cl_send s e)
  then have "no_tls (cfibers (send E e s))"
    using send_effect [of E e s] by (auto simp: plain_from_def)
  with plain_from_view [OF cl_send, of "send E e s"] show ?case by simp
next
  case (cl_connect s)
  then show ?case by (auto simp: connect_def plain_from_def)
next
  case (cl_reconnect s)
  have "no_tls (cfibers (reconnect E s))"
    using cl_reconnect by (simp add: plain_from_def reconnect_def cli_stop_def Let_def)
  with plain_from_view [OF cl_reconnect, of "reconnect E s"] show ?case by simp
next
  case (cl_stop s)
  have "no_tls (cfibers (cli_stop E s))"
    using cl_stop by (simp add: plain_from_def cli_stop_def Let_def)
  with plain_from_view [OF cl_stop, of "cli_stop E s"] show ?case by simp
next
  case (cl_timeout s xs f ys f')
  let ?t = "(reads_timeout E s)\<lparr>cfibers := xs @ f' # ys\<rparr>"
  have "no_tls (cfibers ?t)"
    using cl_timeout detach_tls [OF cl_timeout(2)] by (simp add: plain_from_def)
  with plain_from_view [OF cl_timeout.prems, of ?t] show ?case by (simp add: reads_timeout_def)
next
  case (cl_run s xs f ys oc i s' fs)
  show ?case
  proof (cases "f = Connecting")
    case True
    with cl_run have "socket_connected E oc i s = (s', fs)" by simp
    from plain_connecting [OF cl_run.prems this, of "xs @ fs @ ys"] cl_run show ?thesis
      by (auto simp: plain_from_def)
  next
    case False
    have "no_tls [f]" using cl_run by (simp add: plain_from_def)
    from exec_tls [OF cl_run(2) False this] have "tls_view s' = tls_view s" "no_tls fs" by simp_all
    with cl_run have "no_tls (cfibers (s'\<lparr>cfibers := xs @ fs @ ys\<rparr>))"
      by (simp add: plain_from_def)
    with plain_from_view [OF cl_run.prems, of "s'\<lparr>cfibers := xs @ fs @ ys\<rparr>"] \<open>tls_view s' = tls_view s\<close>
    show ?thesis by simp
  qed
qed

interpretation plain: invariant_system "client_step E" "plain_from n" "\<lambda>e. True" "plain_from n"
  for E :: "('is, 'sem, 'gate) seastar_env" and n
  by unfold_locales (auto intro: plain_step)



end
