(* ===== verification/Smfc_Printer.thy ===== *)
theory Smfc_Printer
  imports Smf_Prelude
begin

text \<open>
  The printer of smfc (smf_printer.h): substitution of \<^verbatim>\<open>$name$\<close> placeholders in a
  template, indentation of every line, and the contract the code generators rely on. The
  substitution loop can run forever, so an operation of the printer is a function into
  \<open>printer res option\<close>: \<open>None\<close> when it does not return, \<open>Inl\<close> when an assertion fails.
\<close>

section \<open>Strings of the standard library\<close>

type_synonym vars = "string \<rightharpoonup> string"

text \<open>\<^verbatim>\<open>std::string::find(c, pos)\<close>, with \<open>None\<close> for \<^verbatim>\<open>npos\<close>.\<close>

definition find_from :: "char \<Rightarrow> string \<Rightarrow> nat \<Rightarrow> nat option" where
  "find_from c s pos =
     (if c \<in> set (drop pos s) then Some (pos + length (takeWhile (\<lambda>x. x \<noteq> c) (drop pos s)))
      else None)"

definition substr :: "string \<Rightarrow> nat \<Rightarrow> nat \<Rightarrow> string" where
  "substr s pos n = take n (drop pos s)"

definition str_replace :: "string \<Rightarrow> nat \<Rightarrow> nat \<Rightarrow> string \<Rightarrow> string" where
  "str_replace s pos n v = take pos s @ v @ drop (pos + n) s"

text \<open>A string read through its \<^verbatim>\<open>c_str()\<close> ends at its first zero byte.\<close>

definition c_str :: "string \<Rightarrow> string" where
  "c_str s = takeWhile (\<lambda>c. c \<noteq> CHR 0x00) s"

lemma c_str_id: "CHR 0x00 \<notin> set s \<Longrightarrow> c_str s = s"
  by (auto simp: c_str_def intro!: takeWhile_eq_all_conv [THEN iffD2])

definition newline :: char where
  "newline = CHR 0x0A"

text \<open>\<^verbatim>\<open>std::to_string\<close> of an unsigned number.\<close>

definition digit :: "nat \<Rightarrow> char" where
  "digit d = char_of (48 + d)"

fun to_string :: "nat \<Rightarrow> string" where
  "to_string n = (if n < 10 then [digit n] else to_string (n div 10) @ [digit (n mod 10)])"

declare to_string.simps [simp del]

section \<open>The printer\<close>

record smf_printer =
  p_escape_char :: char
  p_out :: string
  p_indent :: int
  p_indent_char :: char
  p_indent_step :: u16

definition smf_printer_new :: smf_printer where
  "smf_printer_new = \<lparr>p_escape_char = CHR ''$'', p_out = [], p_indent = 0, p_indent_char = CHR '' '',
     p_indent_step = 2\<rparr>"

type_synonym printing = "smf_printer \<Rightarrow> smf_printer res option"

definition emit :: "string \<Rightarrow> smf_printer \<Rightarrow> smf_printer" where
  "emit s p = p\<lparr>p_out := p_out p @ s\<rparr>"

text \<open>The loop of \<^verbatim>\<open>print(const char *)\<close>: one round per line.\<close>

function print_lines :: "string \<Rightarrow> smf_printer \<Rightarrow> smf_printer" where
  "print_lines s p =
     (let p1 = emit (replicate (nat (p_indent p * int (unat (p_indent_step p)))) (p_indent_char p)) p
      in case find_from newline s 0 of
           Some lf \<Rightarrow>
             (let p2 = emit (take (lf + 1) s) p1; rest = drop (lf + 1) s
              in if rest = [] then p2 else print_lines rest p2)
         | None \<Rightarrow> emit s p1)"
  by pat_completeness auto

lemma takeWhile_until [simp]: "c \<notin> set u \<Longrightarrow> takeWhile (\<lambda>x. x \<noteq> c) (u @ c # r) = u"
  by (induction u) auto

lemma find_from_bound: "find_from c s pos = Some i \<Longrightarrow> i < length s"
proof -
  assume "find_from c s pos = Some i"
  then obtain u r where d: "drop pos s = u @ c # r" and i: "i = pos + length u"
    by (auto simp: find_from_def split: if_splits dest!: split_list_first)
  from d have "length s - pos = length u + Suc (length r)"
    by (metis length_Cons length_append length_drop)
  with i show "i < length s" by simp
qed

termination print_lines
  by (relation "measure (\<lambda>(s, p). length s)") (auto dest!: find_from_bound)

declare print_lines.simps [simp del]

definition print_raw :: "string \<Rightarrow> printing" where
  "print_raw s p = Some (Inr (print_lines (c_str s) p))"

text \<open>
  The substitution loop of \<^verbatim>\<open>print(vars, template)\<close>. The search restarts at the beginning,
  so a placeholder inside a substituted value is substituted too.
\<close>

partial_function (option) substitute :: "char \<Rightarrow> vars \<Rightarrow> string \<Rightarrow> string option" where
  "substitute esc vars s =
     (case find_from esc s 0 of
        None \<Rightarrow> Some s
      | Some pos \<Rightarrow>
          (case find_from esc s (pos + 1) of
             None \<Rightarrow> Some s
           | Some pos2 \<Rightarrow>
               (case vars (substr s (pos + 1) (pos2 - pos - 1)) of
                  None \<Rightarrow> Some s
                | Some v \<Rightarrow> substitute esc vars (str_replace s pos (pos2 - pos + 1) v))))"

definition print :: "vars \<Rightarrow> string \<Rightarrow> printing" where
  "print vars string_template p =
     (case substitute (p_escape_char p) vars string_template of
        None \<Rightarrow> None
      | Some s \<Rightarrow> print_raw s p)"

definition indent :: printing where
  "indent p = Some (Inr (p\<lparr>p_indent := p_indent p + 1\<rparr>))"

definition outdent :: printing where
  "outdent p =
     (let i = p_indent p - 1
      in Some (if i \<ge> 0 then Inr (p\<lparr>p_indent := i\<rparr>) else Inl Assertion_failed))"

definition set_indent_char :: "char \<Rightarrow> smf_printer \<Rightarrow> smf_printer" where
  "set_indent_char i p = p\<lparr>p_indent_char := i\<rparr>"

definition set_indent_step :: "u16 \<Rightarrow> smf_printer \<Rightarrow> smf_printer" where
  "set_indent_step s p = p\<lparr>p_indent_step := s\<rparr>"

definition contents :: "smf_printer \<Rightarrow> string" where
  "contents p = p_out p"

text \<open>Statements in sequence, and a statement that first computes a value that may fail.\<close>

fun block :: "printing list \<Rightarrow> printing" where
  "block [] p = Some (Inr p)"
| "block (f # fs) p =
     (case f p of
        None \<Rightarrow> None
      | Some (Inl e) \<Rightarrow> Some (Inl e)
      | Some (Inr p1) \<Rightarrow> block fs p1)"

definition given :: "'a res \<Rightarrow> ('a \<Rightarrow> printing) \<Rightarrow> printing" where
  "given r f p = (case r of Inl e \<Rightarrow> Some (Inl e) | Inr x \<Rightarrow> f x p)"

section \<open>Substitution in one pass\<close>

text \<open>
  The reference: the template is read once from left to right, and the text of a value is
  not looked at. An unclosed or unknown placeholder ends the substitution.
\<close>

function expand :: "char \<Rightarrow> vars \<Rightarrow> string \<Rightarrow> string" where
  "expand esc vars s =
     (case dropWhile (\<lambda>c. c \<noteq> esc) s of
        [] \<Rightarrow> s
      | _ # r \<Rightarrow>
          (case dropWhile (\<lambda>c. c \<noteq> esc) r of
             [] \<Rightarrow> s
           | _ # r' \<Rightarrow>
               (case vars (takeWhile (\<lambda>c. c \<noteq> esc) r) of
                  None \<Rightarrow> s
                | Some v \<Rightarrow> takeWhile (\<lambda>c. c \<noteq> esc) s @ v @ expand esc vars r')))"
  by pat_completeness auto
termination
proof (relation "measure (\<lambda>(esc, vars, s). length s)", goal_cases)
  case 1
  show ?case by simp
next
  case (2 esc vars s a r b r' v)
  have "length r < length s" "length r' < length r"
    using 2(1,2) length_dropWhile_le [of "\<lambda>c. c \<noteq> esc" s] length_dropWhile_le [of "\<lambda>c. c \<noteq> esc" r]
    by auto
  then show ?case by simp
qed

declare expand.simps [simp del]

definition clean :: "char \<Rightarrow> vars \<Rightarrow> bool" where
  "clean esc vars \<longleftrightarrow> (\<forall>v \<in> ran vars. esc \<notin> set v)"

lemma dropWhile_until [simp]:
  "c \<notin> set u \<Longrightarrow> dropWhile (\<lambda>x. x \<noteq> c) (u @ c # r) = c # r"
  "c \<notin> set u \<Longrightarrow> dropWhile (\<lambda>x. x \<noteq> c) u = []"
  by (induction u) auto

lemma clean_empty [simp]: "clean esc (\<lambda>_. None)"
  by (auto simp: clean_def)

lemma clean_upd:
  "esc \<notin> set v \<Longrightarrow> clean esc m \<Longrightarrow> clean esc (m(k \<mapsto> v))"
  by (auto simp: clean_def ran_def)

lemma find_from_none: "c \<notin> set s \<Longrightarrow> find_from c s pos = None"
  using set_drop_subset [of pos s] by (auto simp: find_from_def)

lemma find_from_first [simp]: "c \<notin> set u \<Longrightarrow> find_from c (u @ c # r) 0 = Some (length u)"
  by (simp add: find_from_def)

lemma find_from_second [simp]:
  "c \<notin> set k \<Longrightarrow> find_from c (u @ c # k @ c # r) (Suc (length u)) = Some (Suc (length u + length k))"
  "c \<notin> set k \<Longrightarrow> find_from c (u @ c # k) (Suc (length u)) = None"
  by (simp_all add: find_from_def)

text \<open>The four ways a round of the loop can end.\<close>

lemma substitute_plain: "esc \<notin> set u \<Longrightarrow> substitute esc vars u = Some u"
  by (subst substitute.simps) (simp add: find_from_none)

lemma substitute_unclosed:
  "esc \<notin> set u \<Longrightarrow> esc \<notin> set k \<Longrightarrow> substitute esc vars (u @ esc # k) = Some (u @ esc # k)"
  by (subst substitute.simps) simp

lemma substitute_known:
  "esc \<notin> set u \<Longrightarrow> esc \<notin> set k \<Longrightarrow> vars k = Some v \<Longrightarrow>
   substitute esc vars (u @ esc # k @ esc # r) = substitute esc vars (u @ v @ r)"
  by (subst substitute.simps) (simp add: substr_def str_replace_def)

lemma substitute_unknown:
  "esc \<notin> set u \<Longrightarrow> esc \<notin> set k \<Longrightarrow> vars k = None \<Longrightarrow>
   substitute esc vars (u @ esc # k @ esc # r) = Some (u @ esc # k @ esc # r)"
  by (subst substitute.simps) (simp add: substr_def)

lemma expand_plain: "esc \<notin> set u \<Longrightarrow> expand esc vars u = u"
  by (subst expand.simps) simp

lemma expand_unclosed: "esc \<notin> set u \<Longrightarrow> esc \<notin> set k \<Longrightarrow> expand esc vars (u @ esc # k) = u @ esc # k"
  by (subst expand.simps) simp

lemma expand_placeholder:
  "esc \<notin> set u \<Longrightarrow> esc \<notin> set k \<Longrightarrow> expand esc vars (u @ esc # k @ esc # r) =
   (case vars k of None \<Rightarrow> u @ esc # k @ esc # r | Some v \<Rightarrow> u @ v @ expand esc vars r)"
  by (subst expand.simps) (simp split: option.split)

lemma template_cases:
  obtains (plain) "esc \<notin> set s"
    | (unclosed) u k where "s = u @ esc # k" "esc \<notin> set u" "esc \<notin> set k"
    | (placeholder) u k r where "s = u @ esc # k @ esc # r" "esc \<notin> set u" "esc \<notin> set k"
proof (cases "esc \<in> set s")
  case True
  then obtain u s' where u: "s = u @ esc # s'" "esc \<notin> set u"
    by (auto dest: split_list_first)
  then show thesis
  proof (cases "esc \<in> set s'")
    case True
    then obtain k r where "s' = k @ esc # r" "esc \<notin> set k"
      by (auto dest: split_list_first)
    with u show thesis using placeholder by blast
  qed (use u unclosed in blast)
qed (use plain in blast)

lemma substitute_expand_prefix:
  assumes "clean esc vars"
  shows "esc \<notin> set u \<Longrightarrow> substitute esc vars (u @ s) = Some (u @ expand esc vars s)"
proof (induction s arbitrary: u rule: length_induct)
  case (1 s)
  show ?case
  proof (rule template_cases [of esc s])
    assume "esc \<notin> set s"
    with 1 show ?thesis by (simp add: substitute_plain expand_plain)
  next
    fix w k assume "s = w @ esc # k" "esc \<notin> set w" "esc \<notin> set k"
    with 1 show ?thesis
      using substitute_unclosed [of esc "u @ w" k] by (simp add: expand_unclosed)
  next
    fix w k r assume s: "s = w @ esc # k @ esc # r" "esc \<notin> set w" "esc \<notin> set k"
    show ?thesis
    proof (cases "vars k")
      case None
      with 1 s show ?thesis
        using substitute_unknown [of esc "u @ w" k] by (simp add: expand_placeholder)
    next
      case (Some v)
      then have v: "esc \<notin> set v" using assms by (auto simp: clean_def ran_def)
      have "substitute esc vars (u @ s) = substitute esc vars ((u @ w @ v) @ r)"
        using substitute_known [of esc "u @ w" k vars v r] 1(2) s Some by simp
      also have "\<dots> = Some ((u @ w @ v) @ expand esc vars r)"
        using 1(2) s v by (intro 1(1) [rule_format]) auto
      finally show ?thesis using s Some by (simp add: expand_placeholder)
    qed
  qed
qed

text \<open>
  C29: the substitution loop of the printer returns, and computes the one-pass substitution,
  for every template, whenever no value contains the escape character.
\<close>

theorem substitute_expand:
  "clean esc vars \<Longrightarrow> substitute esc vars template = Some (expand esc vars template)"
  using substitute_expand_prefix [of esc vars "[]" template] by simp

theorem substitute_expand_witness:
  "substitute CHR ''$'' [''Service'' \<mapsto> ''Kv'', ''Id'' \<mapsto> ''7''] ''class $Service$: $Id$ ^ $x$''
     = Some ''class Kv: 7 ^ $x$''"
proof -
  have "clean CHR ''$'' [''Service'' \<mapsto> ''Kv'', ''Id'' \<mapsto> ''7'']"
    by (simp add: clean_upd)
  from substitute_expand [OF this, of "''class $Service$: $Id$ ^ $x$''"] show ?thesis
    by (simp add: expand.simps)
qed

text \<open>
  A value that contains its own placeholder never disappears: a template that reaches it
  keeps the loop running.
\<close>

lemma substitute_returns_no_self:
  assumes "substitute esc vars s = Some y"
  shows "\<forall>k a b u r. vars k = Some (a @ esc # k @ esc # b) \<longrightarrow>
    esc \<notin> set a \<longrightarrow> esc \<notin> set k \<longrightarrow> esc \<notin> set u \<longrightarrow> s \<noteq> u @ esc # k @ esc # r"
proof (rule substitute.raw_induct [OF _ assms], intro allI impI notI)
  fix sub and esc vars s y and k a b u r :: string
  assume IH: "\<And>esc vars s y. sub esc vars s = Some y \<Longrightarrow>
      \<forall>k a b u r. vars k = Some (a @ esc # k @ esc # b) \<longrightarrow>
        esc \<notin> set a \<longrightarrow> esc \<notin> set k \<longrightarrow> esc \<notin> set u \<longrightarrow> s \<noteq> u @ esc # k @ esc # r"
    and body: "(case find_from esc s 0 of None \<Rightarrow> Some s
      | Some pos \<Rightarrow> (case find_from esc s (pos + 1) of None \<Rightarrow> Some s
        | Some pos2 \<Rightarrow> (case vars (substr s (pos + 1) (pos2 - pos - 1)) of None \<Rightarrow> Some s
          | Some v \<Rightarrow> sub esc vars (str_replace s pos (pos2 - pos + 1) v)))) = Some y"
    and v: "vars k = Some (a @ esc # k @ esc # b)" "esc \<notin> set a" "esc \<notin> set k" "esc \<notin> set u"
    and s: "s = u @ esc # k @ esc # r"
  have "sub esc vars ((u @ a) @ esc # k @ esc # (b @ r)) = Some y"
    using body v unfolding s by (simp add: substr_def str_replace_def)
  from IH [OF this, rule_format, of k a b "u @ a" "b @ r"] v show False by simp
qed

lemma substitute_diverges:
  "vars k = Some (a @ esc # k @ esc # b) \<Longrightarrow> esc \<notin> set a \<Longrightarrow> esc \<notin> set k \<Longrightarrow> esc \<notin> set u \<Longrightarrow>
   substitute esc vars (u @ esc # k @ esc # r) = None"
  using substitute_returns_no_self [of esc vars "u @ esc # k @ esc # r"]
  by (cases "substitute esc vars (u @ esc # k @ esc # r)") blast+

section \<open>Layout of lines\<close>

text \<open>The reference: the indentation stands before the text and after every inner newline.\<close>

fun indent_lines :: "string \<Rightarrow> string \<Rightarrow> string" where
  "indent_lines pre [] = []"
| "indent_lines pre (c # cs) =
     (if c = newline \<and> cs \<noteq> [] then c # pre @ indent_lines pre cs else c # indent_lines pre cs)"

definition layout :: "string \<Rightarrow> string \<Rightarrow> string" where
  "layout pre s = pre @ indent_lines pre s"

lemma indent_lines_line: "newline \<notin> set u \<Longrightarrow> indent_lines pre u = u"
  by (induction u) auto

lemma indent_lines_step:
  "newline \<notin> set u \<Longrightarrow> indent_lines pre (u @ newline # rest) =
     u @ newline # (if rest = [] then [] else layout pre rest)"
  by (induction u) (auto simp: layout_def)

type_synonym style = "char \<times> char \<times> u16"

definition style :: "smf_printer \<Rightarrow> style" where
  "style p = (p_escape_char p, p_indent_char p, p_indent_step p)"

fun pad :: "style \<Rightarrow> nat \<Rightarrow> string" where
  "pad (esc, c, step) k = replicate (k * unat step) c"

lemma emit_emit [simp]: "emit t (emit s p) = emit (s @ t) p"
  by (simp add: emit_def)

lemma emit_fields [simp]:
  "p_indent (emit s p) = p_indent p" "style (emit s p) = style p"
  by (simp_all add: emit_def style_def)

lemma pad_style:
  "p_indent p = int k \<Longrightarrow>
   replicate (nat (p_indent p * int (unat (p_indent_step p)))) (p_indent_char p) = pad (style p) k"
  by (simp add: style_def nat_mult_distrib)

lemma print_lines_layout:
  "p_indent p = int k \<Longrightarrow> print_lines s p = emit (layout (pad (style p) k) s) p"
proof (induction s arbitrary: p rule: length_induct)
  case (1 s)
  note pad = pad_style [OF 1(2)]
  show ?case
  proof (cases "newline \<in> set s")
    case True
    then obtain u rest where s: "s = u @ newline # rest" "newline \<notin> set u"
      by (auto dest: split_list_first)
    have "print_lines rest (emit t p) = emit (layout (pad (style p) k) rest) (emit t p)" for t
      using 1 s by simp
    with s pad show ?thesis
      by (subst print_lines.simps) (simp add: layout_def indent_lines_step)
  next
    case False
    with pad show ?thesis
      by (subst print_lines.simps) (simp add: find_from_none layout_def indent_lines_line)
  qed
qed

section \<open>The contract of the printer\<close>

text \<open>
  \<open>emits st f k t k'\<close>: run at level \<open>k\<close> by any printer of style \<open>st\<close>, \<open>f\<close> returns, appends
  exactly \<open>t\<close> and leaves the level \<open>k'\<close>. \<open>writes\<close> leaves the text open.
\<close>

definition emits :: "style \<Rightarrow> printing \<Rightarrow> nat \<Rightarrow> string \<Rightarrow> nat \<Rightarrow> bool" where
  "emits st f k t k' \<longleftrightarrow> (\<forall>p. style p = st \<longrightarrow> p_indent p = int k \<longrightarrow>
     f p = Some (Inr (p\<lparr>p_out := p_out p @ t, p_indent := int k'\<rparr>)))"

definition writes :: "style \<Rightarrow> printing \<Rightarrow> nat \<Rightarrow> nat \<Rightarrow> bool" where
  "writes st f k k' \<longleftrightarrow> (\<exists>t. emits st f k t k')"

lemma emits_print_raw: "emits st (print_raw s) k (layout (pad st k) (c_str s)) k"
  by (auto simp: emits_def print_raw_def print_lines_layout emit_def)

lemma emits_print:
  assumes "clean (fst st) vars"
  shows "emits st (print vars s) k (layout (pad st k) (c_str (expand (fst st) vars s))) k"
proof -
  have "print vars s p = print_raw (expand (fst st) vars s) p" if "style p = st" for p
    using that assms substitute_expand_prefix [of "fst st" vars "[]" s]
    by (auto simp: print_def style_def)
  then show ?thesis
    using emits_print_raw [of st "expand (fst st) vars s" k] by (auto simp: emits_def)
qed

text \<open>
  C30: \<^verbatim>\<open>print\<close> returns and lays its text out. If no value contains the escape character, the
  call appends the template with its placeholders replaced, the indentation of the current
  level in front of it and after every newline that is not its last character, and changes
  nothing else of the printer.
\<close>

theorem print_appends:
  assumes "clean (p_escape_char p) vars" and "p_indent p = int k"
    and "CHR 0x00 \<notin> set (expand (p_escape_char p) vars template)"
  shows "print vars template p =
    Some (Inr (p\<lparr>p_out := p_out p @ layout (pad (style p) k) (expand (p_escape_char p) vars template)\<rparr>))"
proof -
  have esc: "p_escape_char p = fst (style p)" by (simp add: style_def)
  have c: "c_str (expand (p_escape_char p) vars template) = expand (p_escape_char p) vars template"
    using assms(3) by (auto simp: c_str_def intro!: takeWhile_eq_all_conv [THEN iffD2])
  show ?thesis
    using emits_print [OF assms(1) [unfolded esc], of template k] assms(2) c
    by (simp add: emits_def flip: esc)
qed

theorem print_appends_witness:
  "print [''x'' \<mapsto> ''y''] ''if $x$ {\<newline>}\<newline>'' (smf_printer_new\<lparr>p_indent := 1, p_indent_step := 1\<rparr>)
     = Some (Inr (smf_printer_new\<lparr>p_out := '' if y {\<newline> }\<newline>'', p_indent := 1, p_indent_step := 1\<rparr>))"
proof -
  let ?p = "smf_printer_new\<lparr>p_indent := 1, p_indent_step := 1\<rparr>"
  have e: "expand CHR ''$'' [''x'' \<mapsto> ''y''] ''if $x$ {\<newline>}\<newline>'' = ''if y {\<newline>}\<newline>''"
    by (simp add: expand.simps)
  have "clean (p_escape_char ?p) [''x'' \<mapsto> ''y'']" "p_indent ?p = int 1"
    "CHR 0x00 \<notin> set (expand (p_escape_char ?p) [''x'' \<mapsto> ''y''] ''if $x$ {\<newline>}\<newline>'')"
    by (simp_all add: smf_printer_new_def e clean_upd)
  from print_appends [OF this] show ?thesis
    by (simp add: smf_printer_new_def e style_def layout_def newline_def)
qed

lemma emits_indent: "emits st indent k [] (Suc k)"
  by (auto simp: emits_def indent_def)

lemma emits_outdent: "emits st outdent (Suc k) [] k"
  by (auto simp: emits_def outdent_def)

lemma emits_nil: "emits st (block []) k [] k"
  by (auto simp: emits_def)

lemma style_written [simp]: "style (p\<lparr>p_out := t, p_indent := i\<rparr>) = style p"
  by (simp add: style_def)

lemma emits_cons:
  "emits st f k t k1 \<Longrightarrow> emits st (block fs) k1 u k2 \<Longrightarrow> emits st (block (f # fs)) k (t @ u) k2"
  by (auto simp: emits_def)

lemma block_append:
  "block (fs @ gs) p = (case block fs p of None \<Rightarrow> None | Some (Inl e) \<Rightarrow> Some (Inl e)
     | Some (Inr q) \<Rightarrow> block gs q)"
  by (induction fs arbitrary: p) (auto split: option.splits sum.splits)

lemma emits_append:
  "emits st (block fs) k t k1 \<Longrightarrow> emits st (block gs) k1 u k2 \<Longrightarrow>
   emits st (block (fs @ gs)) k (t @ u) k2"
  by (auto simp: emits_def block_append)

lemma emits_each:
  "(\<And>x. x \<in> set xs \<Longrightarrow> emits st (f x) k (g x) k) \<Longrightarrow>
   emits st (block (map f xs)) k (concat (map g xs)) k"
  by (induction xs) (auto intro: emits_nil emits_cons)

lemma emits_given: "r = Inr x \<Longrightarrow> emits st (f x) k t k' \<Longrightarrow> emits st (given r f) k t k'"
  by (auto simp: emits_def given_def)

lemma writesI: "emits st f k t k' \<Longrightarrow> writes st f k k'"
  by (auto simp: writes_def)

lemma writes_cons:
  "writes st f k k1 \<Longrightarrow> writes st (block fs) k1 k2 \<Longrightarrow> writes st (block (f # fs)) k k2"
  unfolding writes_def by (blast intro: emits_cons)

lemma writes_append:
  "writes st (block fs) k k1 \<Longrightarrow> writes st (block gs) k1 k2 \<Longrightarrow> writes st (block (fs @ gs)) k k2"
  unfolding writes_def by (blast intro: emits_append)

lemma writes_given: "r = Inr x \<Longrightarrow> writes st (f x) k k' \<Longrightarrow> writes st (given r f) k k'"
  unfolding writes_def by (blast intro: emits_given)

lemma writes_each:
  "(\<And>x. x \<in> set xs \<Longrightarrow> writes st (f x) k k) \<Longrightarrow> writes st (block (map f xs)) k k"
  by (induction xs) (auto intro: writes_cons writesI [OF emits_nil])

lemmas writes_intros =
  writes_cons writes_each writesI [OF emits_nil]
  writesI [OF emits_print_raw] writesI [OF emits_print]
  writesI [OF emits_indent] writesI [OF emits_outdent]

section \<open>Lines and decimal numbers\<close>

text \<open>The lines of a text, the empty one after the last line break included.\<close>

fun split_lines :: "string \<Rightarrow> string list" where
  "split_lines [] = [[]]"
| "split_lines (c # cs) =
     (if c = newline then [] # split_lines cs
      else case split_lines cs of l # ls \<Rightarrow> (c # l) # ls)"

definition of_digits :: "string \<Rightarrow> nat" where
  "of_digits s = foldl (\<lambda>n c. 10 * n + (of_char c - 48)) 0 s"

definition is_digit :: "char \<Rightarrow> bool" where
  "is_digit c \<longleftrightarrow> 48 \<le> (of_char c :: nat) \<and> (of_char c :: nat) \<le> 57"

lemma digit_simps [simp]:
  "d < 10 \<Longrightarrow> of_char (digit d) = 48 + d"
  "d < 10 \<Longrightarrow> is_digit (digit d)"
  by (simp_all add: digit_def is_digit_def)

lemma to_string_digits: "\<forall>c \<in> set (to_string n). is_digit c"
  by (induction n rule: to_string.induct) (subst to_string.simps, simp)

lemma of_digits_to_string [simp]: "of_digits (to_string n) = n"
  by (induction n rule: to_string.induct) (subst to_string.simps, simp add: of_digits_def)

lemma to_string_not [simp]: "\<not> is_digit c \<Longrightarrow> c \<notin> set (to_string n)"
  using to_string_digits by blast

end
