(* ===== verification/Smfc_Cpp_Generator.thy ===== *)
theory Smfc_Cpp_Generator
  imports Smfc_Printer Smfc_Service
begin

text \<open>
  The C++ code generator of smfc (generator.h, cpp_generator.h, cpp_generator.cc), statement
  by statement over the printer of Smfc_Printer. The flatbuffers parser is a record of the
  members the generators read; the file name helpers of flatbuffers are arguments.
\<close>

section \<open>Characters\<close>

definition isupper :: "char \<Rightarrow> bool" where
  "isupper c \<longleftrightarrow> 65 \<le> (of_char c :: nat) \<and> (of_char c :: nat) \<le> 90"

definition islower :: "char \<Rightarrow> bool" where
  "islower c \<longleftrightarrow> 97 \<le> (of_char c :: nat) \<and> (of_char c :: nat) \<le> 122"

definition isalnum :: "char \<Rightarrow> bool" where
  "isalnum c \<longleftrightarrow> isupper c \<or> islower c \<or> is_digit c"

definition toupper :: "char \<Rightarrow> char" where
  "toupper c = (if islower c then char_of (of_char c - 32 :: nat) else c)"

definition tolower :: "char \<Rightarrow> char" where
  "tolower c = (if isupper c then char_of (of_char c + 32 :: nat) else c)"

text \<open>\<^verbatim>\<open>s[0] = toupper(s[0])\<close>, which leaves an empty string as it is.\<close>

fun upper_first :: "string \<Rightarrow> string" where
  "upper_first [] = []"
| "upper_first (c # cs) = toupper c # cs"

section \<open>The base class of the generators\<close>

record fb_parser =
  fp_services :: "service_def list"
  fp_included_files :: "string list"
  fp_namespace :: "string list"

record flatbuffers_lib =
  fb_strip_path :: "string \<Rightarrow> string"
  fb_strip_extension :: "string \<Rightarrow> string"
  fb_qualified_name :: "string list \<Rightarrow> string \<Rightarrow> string"

record generator =
  g_parser :: fb_parser
  g_input_filename :: string
  g_output_dir :: string
  g_services :: "smf_service list"

definition generator_new :: "boost_lib \<Rightarrow> fb_parser \<Rightarrow> string \<Rightarrow> string \<Rightarrow> generator" where
  "generator_new B p ifname out_dir =
     \<lparr>g_parser = p, g_input_filename = ifname, g_output_dir = out_dir,
      g_services = generator_services B (fp_services p)\<rparr>"

definition package :: "flatbuffers_lib \<Rightarrow> generator \<Rightarrow> string" where
  "package F g = fb_qualified_name F (fp_namespace (g_parser g)) []"

definition package_parts :: "generator \<Rightarrow> string list" where
  "package_parts g = fp_namespace (g_parser g)"

definition input_filename_without_path :: "flatbuffers_lib \<Rightarrow> generator \<Rightarrow> string" where
  "input_filename_without_path F g = fb_strip_path F (g_input_filename g)"

definition input_filename_without_ext :: "flatbuffers_lib \<Rightarrow> generator \<Rightarrow> string" where
  "input_filename_without_ext F g = fb_strip_extension F (input_filename_without_path F g)"

definition for_each :: "('a \<Rightarrow> printing) \<Rightarrow> 'a list \<Rightarrow> printing" where
  "for_each f xs = block (map f xs)"

definition id_string :: "u32 \<Rightarrow> string" where
  "id_string w = to_string (unat w)"

section \<open>Identifiers\<close>

definition hex :: string where
  "hex = ''0123456789abcdef''"

fun file_name_identifier :: "string \<Rightarrow> string" where
  "file_name_identifier [] = []"
| "file_name_identifier (c # cs) =
     (if isalnum c then [toupper c]
      else if c = CHR ''_'' then [c]
      else [CHR ''_'', hex ! (of_char c div 16 mod 16), hex ! (of_char c mod 16)])
     @ file_name_identifier cs"

definition is_camel_case :: "string \<Rightarrow> bool" where
  "is_camel_case s \<longleftrightarrow> (\<exists>c \<in> set s. isupper c)"

definition lower_vec :: "string list \<Rightarrow> string" where
  "lower_vec vec = map (\<lambda>c. if isalnum c then tolower c else c) (concat vec)"

definition proper_postfix_token :: "string \<Rightarrow> string \<Rightarrow> string res" where
  "proper_postfix_token s postfix =
     (if s = [] \<and> postfix = [] then Inl (Fatal ''Can't compute postfix token'')
      else if is_camel_case s then Inr (upper_first s @ upper_first postfix)
      else Inr (lower_vec [s, ''_'', postfix]))"

definition proper_prefix_token :: "string \<Rightarrow> string \<Rightarrow> string res" where
  "proper_prefix_token prefix s =
     (if s = [] \<and> prefix = [] then Inl (Fatal ''Can't compute prefix token'')
      else if is_camel_case s then Inr (upper_first prefix @ upper_first s)
      else Inr (lower_vec [prefix, ''_'', s]))"

section \<open>The service class\<close>

definition print_header_service_ctor_dtor :: "boost_lib \<Rightarrow> smf_service \<Rightarrow> printing" where
  "print_header_service_ctor_dtor B srv =
     (let vars = [''Service'' \<mapsto> s_name srv]; n = length (s_methods srv) in
      block [
        print vars ''virtual ~$Service$() = default;\<newline>'',
        print vars ''$Service$() : handles_{{\<newline>'',
        indent,
        for_each (\<lambda>(i, method).
          given (proper_prefix_token ''raw'' (m_name method)) (\<lambda>raw.
          given (input_type_name B method Lang_cpp) (\<lambda>in_type.
          given (output_type_name B method Lang_cpp) (\<lambda>out_type.
          let vars = vars(''MethodName'' \<mapsto> m_name method, ''RawMethodName'' \<mapsto> raw,
                ''InType'' \<mapsto> in_type, ''OutType'' \<mapsto> out_type,
                ''MethodId'' \<mapsto> id_string (m_id method)) in
          block [
            print_raw ''smf::rpc_service_method_handle(\<newline>'',
            indent,
            print_raw ''[this](smf::rpc_recv_context c) -> seastar::future<smf::rpc_envelope> {\<newline>'',
            indent,
            print_raw ''// Session accounting\<newline>auto session_id = c.session();\<newline>'',
            print vars ''return $RawMethodName$(std::move(c)).then([session_id](smf::rpc_envelope e) {\<newline>'',
            indent,
            print_raw ''e.letter.header.mutate_session(session_id);\<newline>return seastar::make_ready_future<smf::rpc_envelope>(std::move(e));\<newline>'',
            outdent,
            print_raw (if i + 1 < n then ''});}),\<newline>'' else ''});})\<newline>''),
            outdent,
            outdent]))))
          (enumerate 0 (s_methods srv)),
        outdent,
        print_raw ''}} {}\<newline>''])"

definition print_header_service_handle_request_id :: "smf_service \<Rightarrow> printing" where
  "print_header_service_handle_request_id srv =
     block [
       print_raw ''virtual smf::rpc_service_method_handle *\<newline>method_for_request_id(uint32_t idx) override final {\<newline>'',
       indent,
       print_raw ''switch(idx){\<newline>'',
       indent,
       for_each (\<lambda>(i, method).
         print [''ServiceID'' \<mapsto> id_string (m_service_id method), ''MethodId'' \<mapsto> id_string (m_id method),
             ''VectorIdx'' \<mapsto> to_string i]
           ''case ($ServiceID$ ^ $MethodId$): return &handles_[$VectorIdx$];\<newline>'')
         (enumerate 0 (s_methods srv)),
       print_raw ''default: return nullptr;\<newline>'',
       outdent,
       print_raw ''}\<newline>'',
       outdent,
       print_raw ''}\<newline>'']"

definition print_header_service_handles :: "smf_service \<Rightarrow> printing" where
  "print_header_service_handles srv =
     block [
       print [''ServiceHandleSize'' \<mapsto> to_string (length (s_methods srv))]
         ''virtual const std::array<smf::rpc_service_method_handle, $ServiceHandleSize$> &\<newline>methods() final {\<newline>'',
       indent,
       print_raw ''return handles_;\<newline>'',
       outdent,
       print_raw ''}\<newline>'']"

definition print_header_service_method :: "boost_lib \<Rightarrow> smf_method \<Rightarrow> printing" where
  "print_header_service_method B method =
     given (proper_prefix_token ''raw'' (m_name method)) (\<lambda>raw.
     given (input_type_name B method Lang_cpp) (\<lambda>in_type.
     given (output_type_name B method Lang_cpp) (\<lambda>out_type.
     let vars = [''RawMethodName'' \<mapsto> raw, ''MethodName'' \<mapsto> m_name method,
           ''MethodId'' \<mapsto> id_string (m_id method), ''InType'' \<mapsto> in_type, ''OutType'' \<mapsto> out_type] in
     block [
       print vars ''inline virtual\<newline>seastar::future<smf::rpc_typed_envelope<$OutType$>>\<newline>'',
       print vars ''$MethodName$(smf::rpc_recv_typed_context<$InType$> &&rec) {\<newline>'',
       indent,
       print vars ''using out_type = $OutType$;\<newline>using env_t = smf::rpc_typed_envelope<out_type>;\<newline>env_t data;\<newline>// User should override this method.\<newline>//\<newline>// Helpful for clients to set the status.\<newline>// Typically follows HTTP style. Not imposed by smf whatsoever.\<newline>// i.e. 501 == Method not implemented\<newline>data.envelope.set_status(501);\<newline>return seastar::make_ready_future<env_t>(std::move(data));\<newline>'',
       outdent,
       print_raw ''}\<newline>'',
       print vars ''inline virtual\<newline>seastar::future<smf::rpc_envelope>\<newline>'',
       print vars ''$RawMethodName$(smf::rpc_recv_context &&c) {\<newline>'',
       indent,
       print vars ''using inner_t = $InType$;\<newline>using input_t = smf::rpc_recv_typed_context<inner_t>;\<newline>using mid_t = smf::rpc_typed_envelope<$OutType$>;\<newline>return $MethodName$(input_t(std::move(c))).then([this](mid_t x) {\<newline>'',
       indent,
       print_raw ''return seastar::make_ready_future<smf::rpc_envelope>(x.serialize_data());\<newline>'',
       outdent,
       print_raw ''});\<newline>'',
       outdent,
       print_raw ''}\<newline>''])))"

definition print_header_service :: "boost_lib \<Rightarrow> smf_service \<Rightarrow> printing" where
  \<open>print_header_service B srv =
     (let vars = [''Service'' \<mapsto> s_name srv, ''ServiceID'' \<mapsto> id_string (s_id srv),
            ''ServiceHandleSize'' \<mapsto> to_string (length (s_methods srv))] in
      block [
        print vars ''class $Service$: public smf::rpc_service {\<newline>'',
        print_raw '' private:\<newline>'',
        print vars ''  std::array<smf::rpc_service_method_handle, $ServiceHandleSize$> handles_;\<newline>'',
        print_raw '' public:\<newline>'',
        indent,
        print_header_service_ctor_dtor B srv,
        print_raw ''virtual const char *\<newline>service_name() const override final {\<newline>'',
        indent,
        print vars ''return "$Service$";\<newline>'',
        outdent,
        print_raw ''}\<newline>'',
        print_raw ''virtual uint32_t\<newline>service_id() const override final {\<newline>'',
        indent,
        print vars ''return $ServiceID$;\<newline>'',
        outdent,
        print_raw ''}\<newline>'',
        print_raw ''virtual std::ostream &\<newline>print(std::ostream &o) const override final {\<newline>'',
        indent,
        print_raw ''return o << *this;\<newline>'',
        outdent,
        print_raw ''}\<newline>'',
        print_header_service_handles srv,
        print_header_service_handle_request_id srv,
        for_each (print_header_service_method B) (s_methods srv),
        outdent,
        print vars ''}; // end of service: $Service$\<newline>''])\<close>

section \<open>The client class\<close>

definition print_header_client_method :: "boost_lib \<Rightarrow> smf_method \<Rightarrow> printing" where
  "print_header_client_method B method =
     given (proper_prefix_token ''raw'' (m_name method)) (\<lambda>raw.
     given (input_type_name B method Lang_cpp) (\<lambda>in_type.
     given (output_type_name B method Lang_cpp) (\<lambda>out_type.
     let vars = [''RawMethodName'' \<mapsto> raw, ''MethodName'' \<mapsto> m_name method,
           ''MethodID'' \<mapsto> id_string (m_id method), ''ServiceID'' \<mapsto> id_string (m_service_id method),
           ''ServiceName'' \<mapsto> m_service_name method, ''InType'' \<mapsto> in_type, ''OutType'' \<mapsto> out_type] in
     block [
       print vars ''inline virtual\<newline>seastar::future<smf::rpc_recv_typed_context<$OutType$>>\<newline>$MethodName$(smf::rpc_typed_envelope<$InType$> x) {\<newline>'',
       print vars ''  return $MethodName$(x.serialize_data());\<newline>'',
       print_raw ''}\<newline>'',
       print vars ''inline virtual\<newline>seastar::future<smf::rpc_recv_typed_context<$OutType$>>\<newline>$MethodName$(smf::rpc_envelope e) {\<newline>'',
       indent,
       print vars ''/// ServiceID: $ServiceID$\<newline>/// MethodID:  $MethodID$\<newline>e.set_request_id($ServiceID$ ^ $MethodID$);\<newline>return send<$OutType$>(std::move(e));\<newline>'',
       outdent,
       print_raw ''}\<newline>''])))"

definition print_header_client :: "boost_lib \<Rightarrow> smf_service \<Rightarrow> printing" where
  \<open>print_header_client B srv =
     given (proper_postfix_token (s_name srv) ''client'') (\<lambda>client_name.
     let vars = [''ClientName'' \<mapsto> client_name, ''ServiceID'' \<mapsto> id_string (s_id srv)] in
     block [
       print vars ''class $ClientName$: '',
       print_raw ''public smf::rpc_client {\<newline>'',
       indent,
       print_raw ''public:\<newline>'',
       indent,
       print vars ''explicit $ClientName$(seastar::ipv4_addr server_addr)\<newline>:smf::rpc_client(std::move(server_addr)) {}\<newline>'',
       print vars ''explicit $ClientName$(smf::rpc_client_opts o)\<newline>:smf::rpc_client(std::move(o)) {}\<newline>'',
       print vars ''$ClientName$($ClientName$ &&o) = default;\<newline>'',
       print vars ''virtual ~$ClientName$() = default;\<newline>'',
       print_raw ''virtual const char *name() const final {\<newline>'',
       indent,
       print vars ''return "$ClientName$";\<newline>'',
       outdent,
       print_raw ''}\<newline>'',
       for_each (print_header_client_method B) (s_methods srv),
       outdent,
       print vars ''}; // end of rpc client: $ClientName$\<newline>'',
       outdent])\<close>

definition print_std_ostream_services :: "boost_lib \<Rightarrow> smf_service \<Rightarrow> printing" where
  \<open>print_std_ostream_services B srv =
     (let tmp = sdef_namespace (s_def srv) @ [s_name srv];
          vars = [''FQDNService'' \<mapsto> boost_join B tmp ''::'', ''ServiceID'' \<mapsto> id_string (s_id srv),
            ''ServiceHandleSize'' \<mapsto> to_string (length (s_methods srv))] in
      block [
        print_raw ''namespace std {\<newline>'',
        indent,
        print vars ''inline ostream& operator<<(ostream &o, const $FQDNService$ &s) {\<newline>'',
        indent,
        print vars ''o << "$FQDNService$={total_handles=$ServiceHandleSize$,";\<newline>'',
        for_each (\<lambda>(i, method).
          given (input_type_name B method Lang_cpp) (\<lambda>in_type.
          given (output_type_name B method Lang_cpp) (\<lambda>out_type.
          let vars = vars(''MethodName'' \<mapsto> m_name method, ''InType'' \<mapsto> in_type,
                ''OutType'' \<mapsto> out_type, ''MethodId'' \<mapsto> id_string (m_id method)) in
          block [
            block (if i \<noteq> 0 then [print_raw ''o << ", ";\<newline>''] else []),
            print vars ''o << "method={id=$MethodId$, fn=$MethodName$($InType$):$OutType$}";\<newline>''])))
          (enumerate 0 (s_methods srv)),
        print_raw ''return o << "}";\<newline>'',
        outdent,
        print_raw ''}\<newline>'',
        outdent,
        print_raw ''} // namespace std\<newline>''])\<close>

section \<open>The header file\<close>

definition message_header_ext :: string where
  "message_header_ext = ''_generated.h''"

definition generate_header_prologue :: "flatbuffers_lib \<Rightarrow> generator \<Rightarrow> printing" where
  "generate_header_prologue F g =
     (let vars = [''filename'' \<mapsto> g_input_filename g,
            ''filename_identifier'' \<mapsto> file_name_identifier (input_filename_without_ext F g),
            ''filename_base'' \<mapsto> input_filename_without_ext F g,
            ''message_header_ext'' \<mapsto> message_header_ext] in
      block [
        print_raw ''// Generated by smfc.\<newline>'',
        print_raw ''// Any local changes WILL BE LOST.\<newline>'',
        print vars ''// source: $filename$\<newline>'',
        for_each (\<lambda>p.
          block (if p = g_input_filename g then []
            else [print (vars(''header'' \<mapsto> p)) ''// transitive fbs: $header$\<newline>'']))
          (fp_included_files (g_parser g)),
        print_raw ''#pragma once\<newline>'',
        print vars ''#ifndef SMF_$filename_identifier$_INCLUDED\<newline>'',
        print vars ''#define SMF_$filename_identifier$_INCLUDED\<newline>\<newline>''])"

definition generate_header_prologue_forward_decl_external ::
    "boost_lib \<Rightarrow> generator \<Rightarrow> printing" where
  "generate_header_prologue_forward_decl_external B g =
     block [for_each (print_std_ostream_services B) (g_services g), print_raw ''\<newline>'']"

definition generate_header_prologue_forward_decl :: "generator \<Rightarrow> printing" where
  "generate_header_prologue_forward_decl g =
     block [
       for_each (\<lambda>srv.
         given (proper_postfix_token (s_name srv) ''client'') (\<lambda>client_name.
         let vars = [''Service'' \<mapsto> s_name srv, ''ClientName'' \<mapsto> client_name] in
         block [
           print vars ''class $Service$;\<newline>'',
           print vars ''class $ClientName$;\<newline>'']))
         (g_services g),
       print_raw ''\<newline>'']"

definition generate_header_prologue_namespace :: "flatbuffers_lib \<Rightarrow> generator \<Rightarrow> printing" where
  "generate_header_prologue_namespace F g =
     block (if package F g \<noteq> [] then [
       for_each (\<lambda>part. print [''part'' \<mapsto> part] ''namespace $part$ {\<newline>'') (package_parts g),
       print_raw ''\<newline>''] else [])"

definition cpp_headers :: "string list" where
  "cpp_headers = [''ostream'', ''seastar/core/sstring.hh'', ''smf/rpc_service.h'', ''smf/rpc_client.h'',
     ''smf/rpc_recv_typed_context.h'', ''smf/rpc_typed_envelope.h'', ''smf/log.h'']"

definition generate_header_prologue_includes :: "flatbuffers_lib \<Rightarrow> generator \<Rightarrow> printing" where
  \<open>generate_header_prologue_includes F g =
     (let vars = [''header'' \<mapsto> last cpp_headers, ''filename'' \<mapsto> g_input_filename g,
            ''filename_identifier'' \<mapsto> file_name_identifier (input_filename_without_ext F g),
            ''filename_base'' \<mapsto> input_filename_without_ext F g,
            ''message_header_ext'' \<mapsto> message_header_ext] in
      block [
        for_each (\<lambda>hdr. print [''header'' \<mapsto> hdr] ''#include <$header$>\<newline>'') cpp_headers,
        print_raw ''\<newline>'',
        print vars ''#include "$filename_base$$message_header_ext$"\<newline>\<newline>''])\<close>

definition generate_header_epilogue_namespace :: "flatbuffers_lib \<Rightarrow> generator \<Rightarrow> printing" where
  "generate_header_epilogue_namespace F g =
     (let vars = [''filename'' \<mapsto> g_input_filename g,
            ''filename_identifier'' \<mapsto> file_name_identifier (input_filename_without_ext F g)] in
      block [
        block (if package F g \<noteq> [] then [
          for_each (\<lambda>part. print (vars(''part'' \<mapsto> part)) ''}  // namespace $part$\<newline>'')
            (rev (package_parts g)),
          print vars ''\<newline>''] else []),
        print vars ''\<newline>''])"

definition generate_header_epilogue :: "flatbuffers_lib \<Rightarrow> generator \<Rightarrow> printing" where
  "generate_header_epilogue F g =
     (let vars = [''filename'' \<mapsto> g_input_filename g,
            ''filename_identifier'' \<mapsto> file_name_identifier (input_filename_without_ext F g)] in
      block [
        print_raw ''\<newline>\<newline>'',
        print vars ''#endif  // SMF_$filename_identifier$_INCLUDED\<newline>''])"

definition generate_header_services :: "boost_lib \<Rightarrow> generator \<Rightarrow> printing" where
  "generate_header_services B g =
     for_each (\<lambda>srv. block [
       print_header_service B srv,
       print_raw ''\<newline>'',
       print_header_client B srv,
       print_raw ''\<newline>'']) (g_services g)"

definition cpp_output_filename :: "flatbuffers_lib \<Rightarrow> generator \<Rightarrow> string" where
  "cpp_output_filename F g = g_output_dir g @ ''/'' @ input_filename_without_ext F g @ ''.smf.fb.h''"

text \<open>What \<^verbatim>\<open>cpp_generator::gen\<close> prints before it saves the file.\<close>

definition cpp_generate :: "boost_lib \<Rightarrow> flatbuffers_lib \<Rightarrow> generator \<Rightarrow> printing" where
  "cpp_generate B F g =
     block [
       generate_header_prologue F g,
       generate_header_prologue_includes F g,
       generate_header_prologue_namespace F g,
       generate_header_prologue_forward_decl g,
       generate_header_epilogue_namespace F g,
       generate_header_prologue_forward_decl_external B g,
       generate_header_prologue_namespace F g,
       generate_header_services B g,
       generate_header_epilogue_namespace F g,
       generate_header_epilogue F g]"

section \<open>Schemas without the escape character\<close>

abbreviation (input) dollar :: char where
  "dollar \<equiv> CHR ''$''"

text \<open>
  \<^verbatim>\<open>boost::algorithm::join\<close> puts the separator between the parts. The names of a schema are
  identifiers of flatbuffers, which have no \<^verbatim>\<open>$\<close>; a file name may have one.
\<close>

fun join_with :: "string \<Rightarrow> string list \<Rightarrow> string" where
  "join_with sep [] = []"
| "join_with sep [x] = x"
| "join_with sep (x # y # ys) = x @ sep @ join_with sep (y # ys)"

definition join_law :: "boost_lib \<Rightarrow> bool" where
  "join_law B \<longleftrightarrow> (\<forall>xs sep. boost_join B xs sep = join_with sep xs)"

definition plain :: "string \<Rightarrow> bool" where
  "plain s \<longleftrightarrow> dollar \<notin> set s"

definition plain_struct :: "struct_def \<Rightarrow> bool" where
  "plain_struct sd \<longleftrightarrow> plain (sd_name sd) \<and> list_all plain (sd_namespace sd)"

definition plain_call :: "rpc_call \<Rightarrow> bool" where
  "plain_call c \<longleftrightarrow> plain (call_name c) \<and> plain_struct (call_request c) \<and> plain_struct (call_response c)"

definition plain_service :: "service_def \<Rightarrow> bool" where
  "plain_service d \<longleftrightarrow> plain (sdef_name d) \<and> list_all plain (sdef_namespace d) \<and> list_all plain_call (sdef_calls d)"

definition plain_parser :: "fb_parser \<Rightarrow> bool" where
  "plain_parser p \<longleftrightarrow> list_all plain_service (fp_services p) \<and> list_all plain (fp_included_files p) \<and>
     list_all plain (fp_namespace p)"

named_theorems plain_simps

lemma plain_append [plain_simps]: "plain (s @ t) \<longleftrightarrow> plain s \<and> plain t"
  by (auto simp: plain_def)

lemma plain_Cons [plain_simps]: "plain []" "plain (c # s) \<longleftrightarrow> c \<noteq> dollar \<and> plain s"
  by (auto simp: plain_def)

lemma plain_id_string [plain_simps]: "plain (id_string w)" "plain (to_string n)"
  by (simp_all add: plain_def id_string_def is_digit_def)

lemma plain_join: "list_all plain xs \<Longrightarrow> plain sep \<Longrightarrow> plain (join_with sep xs)"
  by (induction sep xs rule: join_with.induct) (auto simp: plain_simps)

lemma toupper_dollar: "toupper c = dollar \<longleftrightarrow> c = dollar"
proof -
  have "toupper c = dollar \<Longrightarrow> islower c \<Longrightarrow> False"
    by (drule arg_cong [where f = "of_char :: char \<Rightarrow> nat"]) (auto simp: toupper_def islower_def)
  then show ?thesis by (auto simp: toupper_def islower_def split: if_splits)
qed

lemma tolower_dollar: "tolower c = dollar \<longleftrightarrow> c = dollar"
proof -
  have "tolower c = dollar \<Longrightarrow> isupper c \<Longrightarrow> False"
    by (drule arg_cong [where f = "of_char :: char \<Rightarrow> nat"]) (auto simp: tolower_def isupper_def)
  then show ?thesis by (auto simp: tolower_def isupper_def split: if_splits)
qed

lemma plain_upper_first: "plain s \<Longrightarrow> plain (upper_first s)"
  by (cases s) (auto simp: plain_def toupper_dollar eq_commute [of dollar])

lemma plain_lower_vec: "list_all plain ss \<Longrightarrow> plain (lower_vec ss)"
  by (auto simp: plain_def lower_vec_def list_all_iff tolower_dollar eq_commute [of dollar] split: if_splits)

lemma plain_prefix_token:
  "proper_prefix_token q s = Inr t \<Longrightarrow> plain q \<Longrightarrow> plain s \<Longrightarrow> plain t"
  by (auto simp: proper_prefix_token_def plain_simps plain_upper_first split: if_splits
    intro!: plain_lower_vec)

lemma plain_postfix_token:
  "proper_postfix_token s q = Inr t \<Longrightarrow> plain q \<Longrightarrow> plain s \<Longrightarrow> plain t"
  by (auto simp: proper_postfix_token_def plain_simps plain_upper_first split: if_splits
    intro!: plain_lower_vec)

definition plain_method :: "smf_method \<Rightarrow> bool" where
  "plain_method m \<longleftrightarrow> plain_call (m_call m) \<and> plain (m_service_name m)"

definition plain_smf_service :: "smf_service \<Rightarrow> bool" where
  "plain_smf_service s \<longleftrightarrow> plain (s_name s) \<and> list_all plain (sdef_namespace (s_def s)) \<and>
     list_all plain_method (s_methods s)"

lemma plain_service_new: "plain_service d \<Longrightarrow> plain_smf_service (smf_service_new B d)"
  by (auto simp: plain_service_def plain_smf_service_def plain_method_def smf_service_new_def
    smf_method_new_def s_name_def Let_def list_all_iff)

lemma plain_generator_services:
  "plain_parser p \<Longrightarrow> list_all plain_smf_service (g_services (generator_new B p ifname out))"
  by (auto simp: plain_parser_def generator_new_def generator_services_def list_all_iff
    intro: plain_service_new)

lemma plain_m_name: "plain_method m \<Longrightarrow> plain (m_name m)"
  by (simp add: plain_method_def m_name_def plain_call_def)

lemma plain_type:
  "join_law B \<Longrightarrow> plain_struct sd \<Longrightarrow> smf_method_type B sd l = Inr t \<Longrightarrow> plain t"
  by (auto simp: smf_method_type_def type_cpp_def plain_struct_def join_law_def plain_simps
    split: language.splits intro!: plain_join)

lemma plain_type_names:
  "join_law B \<Longrightarrow> plain_method m \<Longrightarrow> input_type_name B m l = Inr t \<Longrightarrow> plain t"
  "join_law B \<Longrightarrow> plain_method m \<Longrightarrow> output_type_name B m l = Inr t \<Longrightarrow> plain t"
  by (auto simp: input_type_name_def output_type_name_def plain_method_def plain_call_def
    intro: plain_type)

lemma clean_plain: "plain v \<Longrightarrow> clean dollar m \<Longrightarrow> clean dollar (m(k \<mapsto> v))"
  by (simp add: plain_def clean_upd)

lemma type_names_ok [simp]:
  "l \<in> {Lang_cpp, Lang_go, Lang_python} \<Longrightarrow> \<not> isl (input_type_name B m l)"
  "l \<in> {Lang_cpp, Lang_go, Lang_python} \<Longrightarrow> \<not> isl (output_type_name B m l)"
  by (auto simp: input_type_name_def output_type_name_def smf_method_type_def)

lemma tokens_ok [simp]:
  "\<not> isl (proper_prefix_token (c # cs) s)" "\<not> isl (proper_postfix_token s (c # cs))"
  by (simp_all add: proper_prefix_token_def proper_postfix_token_def)

lemma writes_given_ok:
  "\<not> isl r \<Longrightarrow> (\<And>x. r = Inr x \<Longrightarrow> writes st (f x) k k') \<Longrightarrow> writes st (given r f) k k'"
  by (cases r) (auto intro: writes_given)

section \<open>Every generator returns\<close>

abbreviation cpp_style :: style where
  "cpp_style \<equiv> (dollar, CHR '' '', 2)"

text \<open>One rule per kind of statement, each with the level of the statements after it.\<close>

lemma writes_level:
  "writes st f k k \<Longrightarrow> writes st (block fs) k k2 \<Longrightarrow> writes st (block (f # fs)) k k2"
  by (rule writes_cons)

lemma writes_print:
  "clean dollar vars \<Longrightarrow> writes (dollar, st) (block fs) k k2 \<Longrightarrow>
   writes (dollar, st) (block (print vars s # fs)) k k2"
  by (rule writes_cons [OF writesI [OF emits_print]]) simp_all

lemma writes_print_raw: "writes st (block fs) k k2 \<Longrightarrow> writes st (block (print_raw s # fs)) k k2"
  by (rule writes_cons [OF writesI [OF emits_print_raw]])

lemma writes_indent: "writes st (block fs) (Suc k) k2 \<Longrightarrow> writes st (block (indent # fs)) k k2"
  by (rule writes_cons [OF writesI [OF emits_indent]])

lemma writes_outdent: "writes st (block fs) k k2 \<Longrightarrow> writes st (block (outdent # fs)) (Suc k) k2"
  by (rule writes_cons [OF writesI [OF emits_outdent]])

lemma writes_for_each:
  "(\<And>x. x \<in> set xs \<Longrightarrow> writes st (f x) k k) \<Longrightarrow> writes st (for_each f xs) k k"
  unfolding for_each_def by (rule writes_each)

lemma writes_enumerate:
  "(\<And>i m. m \<in> set ms \<Longrightarrow> writes st (f i m) k k) \<Longrightarrow>
   writes st (for_each (\<lambda>(i, m). f i m) (enumerate n ms)) k k"
  by (rule writes_for_each) (auto simp: in_set_enumerate_eq)

lemma writes_print_alone: "clean dollar vars \<Longrightarrow> writes (dollar, st) (print vars s) k k"
  by (rule writesI [OF emits_print]) simp

lemmas printing_intros =
  writesI [OF emits_nil] writes_print writes_print_raw writes_indent writes_outdent
  writes_level [OF writes_enumerate] writes_level [OF writes_for_each] writes_given_ok
  writes_print_alone writes_for_each

lemma plain_smf_serviceD:
  "plain_smf_service s \<Longrightarrow> plain (s_name s)"
  "plain_smf_service s \<Longrightarrow> m \<in> set (s_methods s) \<Longrightarrow> plain_method m"
  by (auto simp: plain_smf_service_def list_all_iff)

lemma plain_tokens:
  "proper_prefix_token ''raw'' s = Inr t \<Longrightarrow> plain s \<Longrightarrow> plain t"
  "proper_postfix_token s ''client'' = Inr t \<Longrightarrow> plain s \<Longrightarrow> plain t"
  by (auto simp: plain_simps dest: plain_prefix_token plain_postfix_token)

lemmas plain_rules =
  plain_m_name plain_tokens plain_type_names plain_smf_serviceD

lemma ctor_dtor_writes:
  assumes "join_law B" "plain_smf_service s"
  shows "writes cpp_style (print_header_service_ctor_dtor B s) k k"
  unfolding print_header_service_ctor_dtor_def Let_def
  using assms
  by (intro printing_intros; auto simp: plain_simps intro!: clean_plain intro: plain_rules)

lemma handles_writes:
  "writes cpp_style (print_header_service_handles s) k k"
  "writes cpp_style (print_header_service_handle_request_id s) k k"
  unfolding print_header_service_handles_def print_header_service_handle_request_id_def
  by (intro printing_intros; auto simp: plain_simps intro!: clean_plain)+

lemma service_method_writes:
  assumes "join_law B" "plain_method m"
  shows "writes cpp_style (print_header_service_method B m) k k"
  unfolding print_header_service_method_def Let_def
  using assms
  by (intro printing_intros; auto simp: plain_simps intro!: clean_plain intro: plain_rules)

lemma client_method_writes:
  assumes "join_law B" "plain_method m"
  shows "writes cpp_style (print_header_client_method B m) k k"
proof -
  have "plain (m_service_name m)" using assms by (simp add: plain_method_def)
  with assms show ?thesis
    unfolding print_header_client_method_def Let_def
    by (intro printing_intros; auto simp: plain_simps intro!: clean_plain intro: plain_rules)
qed

lemma service_writes:
  assumes "join_law B" "plain_smf_service s"
  shows "writes cpp_style (print_header_service B s) k k"
  unfolding print_header_service_def Let_def
  using assms
  by (intro printing_intros writes_level [OF ctor_dtor_writes] writes_level [OF handles_writes(1)]
      writes_level [OF handles_writes(2)] service_method_writes;
    auto simp: plain_simps intro!: clean_plain intro: plain_rules)

lemma client_writes:
  assumes "join_law B" "plain_smf_service s"
  shows "writes cpp_style (print_header_client B s) k k"
  unfolding print_header_client_def Let_def
  using assms
  by (intro printing_intros client_method_writes;
    auto simp: plain_simps intro!: clean_plain intro: plain_rules)

lemma ostream_writes:
  assumes "join_law B" "plain_smf_service s"
  shows "writes cpp_style (print_std_ostream_services B s) k k"
proof -
  have fqdn: "plain (boost_join B (sdef_namespace (s_def s) @ [s_name s]) ''::'')"
    using assms by (auto simp: join_law_def plain_smf_service_def plain_simps intro!: plain_join)
  have comma: "writes cpp_style (block (if i \<noteq> 0 then [print_raw t] else [])) j j" for i :: nat and t j
    by (auto intro!: printing_intros)
  show ?thesis
    unfolding print_std_ostream_services_def Let_def
    using assms fqdn
    by (intro printing_intros writes_level [OF comma];
      auto simp: plain_simps intro!: clean_plain intro: plain_rules)
qed

definition identifier_char :: "char \<Rightarrow> bool" where
  "identifier_char c \<longleftrightarrow> isalnum c \<or> c = CHR ''_''"

lemma hex_identifier: "n < 16 \<Longrightarrow> identifier_char (hex ! n)"
proof -
  have "\<forall>n \<in> {..<16}. identifier_char (hex ! n)"
    by code_simp
  then show "n < 16 \<Longrightarrow> identifier_char (hex ! n)" by simp
qed

lemma toupper_alnum: "isalnum c \<Longrightarrow> isalnum (toupper c)"
  by (auto simp: toupper_def isalnum_def islower_def isupper_def is_digit_def)

lemma file_name_identifier_chars: "list_all identifier_char (file_name_identifier s)"
  by (induction s rule: file_name_identifier.induct)
    (auto simp: hex_identifier toupper_alnum, auto simp: identifier_char_def toupper_alnum)

lemma plain_file_name_identifier: "plain (file_name_identifier s)"
  using file_name_identifier_chars [of s]
  by (auto simp: plain_def list_all_iff identifier_char_def isalnum_def isupper_def islower_def
    is_digit_def)

text \<open>
  A schema file whose contents and whose name are free of the escape character; the
  extension and the path of the name are flatbuffers' to strip.
\<close>

definition plain_input :: "flatbuffers_lib \<Rightarrow> fb_parser \<Rightarrow> string \<Rightarrow> bool" where
  "plain_input F p ifname \<longleftrightarrow> plain_parser p \<and> plain ifname \<and>
     plain (fb_strip_extension F (fb_strip_path F ifname))"

definition plain_generator :: "flatbuffers_lib \<Rightarrow> generator \<Rightarrow> bool" where
  "plain_generator F g \<longleftrightarrow> list_all plain_smf_service (g_services g) \<and> plain (g_input_filename g) \<and>
     plain (input_filename_without_ext F g) \<and> list_all plain (fp_included_files (g_parser g)) \<and>
     list_all plain (package_parts g)"

lemma plain_generator_new:
  "plain_input F p ifname \<Longrightarrow> plain_generator F (generator_new B p ifname out)"
  using plain_generator_services [of p B ifname out]
  by (simp add: plain_input_def plain_generator_def plain_parser_def generator_new_def
    input_filename_without_ext_def input_filename_without_path_def package_parts_def)

lemma plain_generatorD:
  "plain_generator F g \<Longrightarrow> plain (g_input_filename g)"
  "plain_generator F g \<Longrightarrow> plain (input_filename_without_ext F g)"
  "plain_generator F g \<Longrightarrow> x \<in> set (fp_included_files (g_parser g)) \<Longrightarrow> plain x"
  "plain_generator F g \<Longrightarrow> y \<in> set (package_parts g) \<Longrightarrow> plain y"
  "plain_generator F g \<Longrightarrow> s \<in> set (g_services g) \<Longrightarrow> plain_smf_service s"
  by (auto simp: plain_generator_def list_all_iff)

lemmas file_rules = plain_generatorD plain_file_name_identifier

lemma prologue_writes:
  assumes "plain_generator F g"
  shows "writes cpp_style (generate_header_prologue F g) k k"
proof -
  let ?vars = "[''filename'' \<mapsto> g_input_filename g,
    ''filename_identifier'' \<mapsto> file_name_identifier (input_filename_without_ext F g),
    ''filename_base'' \<mapsto> input_filename_without_ext F g, ''message_header_ext'' \<mapsto> message_header_ext]"
  have c: "clean dollar ?vars"
    using assms by (auto simp: plain_simps message_header_ext_def intro!: clean_plain intro: file_rules)
  have inc: "writes cpp_style (block (if p = g_input_filename g then []
      else [print (?vars(''header'' \<mapsto> p)) t])) k k" if "plain p" for p t
    using that c by (auto intro!: printing_intros clean_plain)
  show ?thesis
    unfolding generate_header_prologue_def Let_def
    by (intro printing_intros inc c plain_generatorD(3) [OF assms])
qed

lemma includes_writes:
  assumes "plain_generator F g"
  shows "writes cpp_style (generate_header_prologue_includes F g) k k"
proof -
  have "list_all plain cpp_headers"
    by (simp add: cpp_headers_def plain_simps)
  with assms show ?thesis
    unfolding generate_header_prologue_includes_def Let_def
    by (intro printing_intros;
      auto simp: plain_simps message_header_ext_def list_all_iff cpp_headers_def
        intro!: clean_plain intro: file_rules)
qed

lemma forward_decl_writes:
  assumes "join_law B" "plain_generator F g"
  shows "writes cpp_style (generate_header_prologue_forward_decl_external B g) k k"
    and "writes cpp_style (generate_header_prologue_forward_decl g) k k"
  unfolding generate_header_prologue_forward_decl_external_def
    generate_header_prologue_forward_decl_def Let_def
  using assms
  by (intro printing_intros ostream_writes;
    auto intro!: clean_plain intro: plain_rules plain_generatorD)+

lemma namespace_writes:
  assumes "plain_generator F g"
  shows "writes cpp_style (generate_header_prologue_namespace F g) k k"
    and "writes cpp_style (generate_header_epilogue_namespace F g) k k"
    and "writes cpp_style (generate_header_epilogue F g) k k"
proof -
  let ?vars = "[''filename'' \<mapsto> g_input_filename g,
    ''filename_identifier'' \<mapsto> file_name_identifier (input_filename_without_ext F g)]"
  have c: "clean dollar ?vars"
    using assms by (auto intro!: clean_plain intro: file_rules)
  have parts: "plain x" if "x \<in> set (package_parts g)" for x
    using assms that by (rule plain_generatorD)
  show "writes cpp_style (generate_header_prologue_namespace F g) k k"
    unfolding generate_header_prologue_namespace_def
    by (cases "package F g = []") (auto intro!: printing_intros clean_plain parts)
  show "writes cpp_style (generate_header_epilogue F g) k k"
    unfolding generate_header_epilogue_def Let_def using c by (auto intro!: printing_intros)
  have inner: "writes cpp_style (block (if package F g \<noteq> [] then [
      for_each (\<lambda>part. print (?vars(''part'' \<mapsto> part)) t) (rev (package_parts g)), print ?vars u] else []))
      k k" for t u
    using c by (cases "package F g = []") (auto intro!: printing_intros clean_plain parts)
  show "writes cpp_style (generate_header_epilogue_namespace F g) k k"
    unfolding generate_header_epilogue_namespace_def Let_def
    by (intro writes_level [OF inner] writes_print writesI [OF emits_nil] c)
qed

lemma services_writes:
  assumes "join_law B" "plain_generator F g"
  shows "writes cpp_style (generate_header_services B g) k k"
  unfolding generate_header_services_def
  using assms
  by (intro printing_intros writes_level [OF service_writes] writes_level [OF client_writes];
    auto intro: plain_generatorD)

lemma cpp_generate_writes:
  assumes "join_law B" "plain_generator F g"
  shows "writes cpp_style (cpp_generate B F g) k k"
  unfolding cpp_generate_def
  by (intro writes_level writesI [OF emits_nil] prologue_writes includes_writes services_writes
    forward_decl_writes namespace_writes) (use assms in auto)

end
