(* ===== verification/Smfc_Go_Python_Generators.thy ===== *)
theory Smfc_Go_Python_Generators
  imports Smfc_Cpp_Generator "HOL-Library.List_Lexorder" "HOL-Library.Char_ord"
begin

text \<open>
  The Go and the Python code generators of smfc (go_generator.cc, python_generator.cc and
  their headers), and the ids that the clients of the three languages send.
\<close>

section \<open>Go\<close>

definition go_public_name :: "string \<Rightarrow> string" where
  "go_public_name s = upper_first s"

definition go_print_server_method :: "boost_lib \<Rightarrow> smf_method \<Rightarrow> printing" where
  "go_print_server_method B method =
     given (input_type_name B method Lang_go) (\<lambda>in_type.
     let vars = [''InterfaceName'' \<mapsto> go_public_name (m_service_name method),
           ''ServiceName'' \<mapsto> go_public_name (m_service_name method) @ ''Service'',
           ''MethodID'' \<mapsto> id_string (m_id method),
           ''RawMethodName'' \<mapsto> ''Raw'' @ go_public_name (m_name method),
           ''MethodName'' \<mapsto> go_public_name (m_name method), ''InType'' \<mapsto> in_type] in
     block [
       print vars ''func (s *$ServiceName$) $RawMethodName$(ctx context.Context, req []byte) ([]byte, error) {\<newline>'',
       indent,
       print vars ''return s.$InterfaceName$.$MethodName$(ctx, GetRootAs$InType$(req, 0))\<newline>'',
       outdent,
       print_raw ''}\<newline>\<newline>''])"

definition go_print_server_jump_table :: "smf_service \<Rightarrow> printing" where
  "go_print_server_jump_table srv =
     (let vars = [''InterfaceName'' \<mapsto> go_public_name (s_name srv),
            ''ServiceName'' \<mapsto> go_public_name (s_name srv) @ ''Service'',
            ''ServiceID'' \<mapsto> id_string (s_id srv)] in
      block [
        print vars ''func (s *$ServiceName$) MethodHandle(id uint32) smf.RawHandle {\<newline>'',
        indent,
        print_raw ''switch id {\<newline>'',
        for_each (\<lambda>m.
          let vars = vars(''MethodID'' \<mapsto> id_string (m_id m),
                ''RawMethodName'' \<mapsto> ''Raw'' @ go_public_name (m_name m)) in
          block [
            print vars ''case $ServiceID$ ^ $MethodID$:\<newline>'',
            indent,
            print vars ''return s.$RawMethodName$\<newline>'',
            outdent]) (s_methods srv),
        print_raw ''default:\<newline>'',
        indent,
        print_raw ''return nil\<newline>'',
        outdent,
        print_raw ''}\<newline>'',
        outdent,
        print_raw ''}\<newline>\<newline>''])"

text \<open>
  The variables of the method printed last stay in \<^verbatim>\<open>vars\<close>; the templates after the loop do
  not use them.
\<close>

definition go_print_server :: "boost_lib \<Rightarrow> smf_service \<Rightarrow> printing" where
  \<open>go_print_server B srv =
     (let vars = [''InterfaceName'' \<mapsto> go_public_name (s_name srv),
            ''ServiceName'' \<mapsto> go_public_name (s_name srv) @ ''Service'',
            ''ServiceID'' \<mapsto> id_string (s_id srv)] in
      block [
        print vars ''\<newline>// $InterfaceName$ - $InterfaceName$ Server interface\<newline>'',
        print vars ''type $InterfaceName$ interface {\<newline>'',
        indent,
        for_each (\<lambda>m.
          given (input_type_name B m Lang_go) (\<lambda>in_type.
          print (vars(''MethodName'' \<mapsto> go_public_name (m_name m), ''InType'' \<mapsto> in_type))
            ''$MethodName$(context.Context, *$InType$) ([]byte, error)\<newline>'')) (s_methods srv),
        outdent,
        print_raw ''}\<newline>\<newline>'',
        print vars ''type $ServiceName$ struct {\<newline>'',
        indent,
        print vars ''$InterfaceName$\<newline>'',
        outdent,
        print_raw ''}\<newline>\<newline>'',
        print vars ''func New$ServiceName$(s $InterfaceName$) *$ServiceName$ {\<newline>'',
        indent,
        print vars ''return &$ServiceName${$InterfaceName$: s}\<newline>'',
        outdent,
        print_raw ''}\<newline>\<newline>'',
        print vars ''func (s *$ServiceName$) ServiceName() string {\<newline>'',
        indent,
        print vars ''return "$InterfaceName$"\<newline>'',
        outdent,
        print_raw ''}\<newline>\<newline>'',
        print vars ''func (s *$ServiceName$) ServiceID() uint32 {\<newline>'',
        indent,
        print vars ''return $ServiceID$\<newline>'',
        outdent,
        print_raw ''}\<newline>\<newline>'',
        go_print_server_jump_table srv,
        for_each (go_print_server_method B) (s_methods srv)])\<close>

definition go_print_client_method :: "boost_lib \<Rightarrow> smf_method \<Rightarrow> printing" where
  "go_print_client_method B method =
     given (output_type_name B method Lang_go) (\<lambda>output_type.
     let vars = [''InterfaceName'' \<mapsto> go_public_name (m_service_name method),
           ''ClientName'' \<mapsto> go_public_name (m_service_name method) @ ''Client'',
           ''MethodID'' \<mapsto> id_string (m_id method), ''ServiceID'' \<mapsto> id_string (m_service_id method),
           ''RawMethodName'' \<mapsto> ''Raw'' @ go_public_name (m_name method),
           ''MethodName'' \<mapsto> go_public_name (m_name method), ''OutputType'' \<mapsto> output_type] in
     block [
       print vars ''func (s *$ClientName$) $MethodName$(ctx context.Context, req []byte) (*$OutputType$, error) {\<newline>'',
       indent,
       print vars ''res, err := s.$RawMethodName$(ctx, req)\<newline>if err != nil {\<newline>'',
       indent,
       print_raw ''return nil, err\<newline>'',
       outdent,
       print_raw ''}\<newline>'',
       print vars ''return GetRootAs$OutputType$(res, 0), nil\<newline>'',
       outdent,
       print_raw ''}\<newline>\<newline>'',
       print vars ''func (s *$ClientName$) $RawMethodName$(ctx context.Context, req []byte) ([]byte, error) {\<newline>'',
       indent,
       print vars ''return s.Client.SendRecv(req, $ServiceID$^$MethodID$)\<newline>'',
       outdent,
       print_raw ''}\<newline>''])"

definition go_print_client :: "boost_lib \<Rightarrow> smf_service \<Rightarrow> printing" where
  "go_print_client B srv =
     (let vars = [''InterfaceName'' \<mapsto> go_public_name (s_name srv),
            ''ClientName'' \<mapsto> go_public_name (s_name srv) @ ''Client'',
            ''ServiceID'' \<mapsto> id_string (s_id srv)] in
      block [
        print_raw ''// Client\<newline>'',
        print vars ''type $ClientName$ struct {\<newline>'',
        indent,
        print vars ''*smf.Client\<newline>'',
        outdent,
        print_raw ''}\<newline>\<newline>'',
        print vars ''func New$ClientName$(c *smf.Client) *$ClientName$ {\<newline>'',
        indent,
        print vars ''return &$ClientName${Client: c}\<newline>'',
        outdent,
        print_raw ''}\<newline>\<newline>'',
        for_each (go_print_client_method B) (s_methods srv)])"

text \<open>\<^verbatim>\<open>package_parts().back()\<close> has no value for a schema without a namespace.\<close>

definition go_generate_header_prologue :: "generator \<Rightarrow> printing" where
  "go_generate_header_prologue g =
     given (if package_parts g = [] then Inl (Undefined_behaviour ''back of an empty vector'')
            else Inr (last (package_parts g))) (\<lambda>package.
     let vars = [''filename'' \<mapsto> g_input_filename g, ''package'' \<mapsto> package] in
     block [
       print_raw ''// Generated by smfc.\<newline>'',
       print_raw ''// Any local changes WILL BE LOST.\<newline>'',
       print vars ''// source: $filename$\<newline>'',
       print vars ''package $package$\<newline>\<newline>''])"

definition go_generate_header_includes :: printing where
  \<open>go_generate_header_includes =
     block [
       print_raw ''import (\<newline>'',
       indent,
       print_raw ''"context"\<newline>"github.com/smfrpc/smf-go/src/smf"\<newline>'',
       outdent,
       print_raw '')\<newline>'']\<close>

definition go_generate_header_services :: "boost_lib \<Rightarrow> generator \<Rightarrow> printing" where
  "go_generate_header_services B g =
     block [
       for_each (go_print_server B) (g_services g),
       for_each (go_print_client B) (g_services g)]"

definition go_printer :: smf_printer where
  "go_printer = set_indent_step 1 (set_indent_char CHR 0x09 smf_printer_new)"

definition package_output_filename :: "flatbuffers_lib \<Rightarrow> string \<Rightarrow> generator \<Rightarrow> string" where
  "package_output_filename F suffix g =
     g_output_dir g @ ''/'' @ concat (map (\<lambda>part. part @ ''/'') (package_parts g)) @
     input_filename_without_ext F g @ suffix"

definition go_output_filename :: "flatbuffers_lib \<Rightarrow> generator \<Rightarrow> string" where
  "go_output_filename F g = package_output_filename F ''.smf.fb.go'' g"

definition go_generate :: "boost_lib \<Rightarrow> generator \<Rightarrow> printing" where
  "go_generate B g =
     block [
       go_generate_header_prologue g,
       go_generate_header_includes,
       go_generate_header_services B g]"

section \<open>Python\<close>

definition python_public_name :: "string \<Rightarrow> string" where
  "python_public_name s = upper_first s"

definition python_print_client_method :: "boost_lib \<Rightarrow> smf_method \<Rightarrow> printing" where
  "python_print_client_method B method =
     given (output_type_name B method Lang_python) (\<lambda>out_type.
     let vars = [''MethodName'' \<mapsto> python_public_name (m_name method),
           ''MethodID'' \<mapsto> id_string (m_id method), ''ServiceID'' \<mapsto> id_string (m_service_id method),
           ''OutType'' \<mapsto> out_type,
           ''RequestID'' \<mapsto> id_string (xor (m_service_id method) (m_id method))] in
     block [
       print vars ''async def $MethodName$(self, x):\<newline>'',
       indent,
       print vars ''# request id = $ServiceID$ ^ $MethodID$\<newline>'',
       print vars ''buf, status = await self._conn.call(x, $RequestID$)\<newline>'',
       print vars ''return $OutType$.GetRootAsPutResponse(buf, 0), status\<newline>'',
       outdent])"

definition python_print_client :: "boost_lib \<Rightarrow> smf_service \<Rightarrow> printing" where
  "python_print_client B srv =
     (let vars = [''InterfaceName'' \<mapsto> python_public_name (s_name srv),
            ''ClientName'' \<mapsto> python_public_name (s_name srv) @ ''Client'',
            ''ServiceID'' \<mapsto> id_string (s_id srv)];
          n = length (s_methods srv) in
      block [
        print vars ''class $ClientName$:\<newline>'',
        indent,
        print_raw ''def __init__(self, conn):\<newline>'',
        indent,
        print_raw ''self._conn = conn\<newline>\<newline>'',
        outdent,
        outdent,
        for_each (\<lambda>(i, method). block [
          indent,
          python_print_client_method B method,
          outdent,
          block (if i + 1 < n then [print_raw ''\<newline>''] else [])]) (enumerate 0 (s_methods srv))])"

definition python_generate_header_prologue :: "generator \<Rightarrow> printing" where
  "python_generate_header_prologue g =
     (let vars = [''filename'' \<mapsto> g_input_filename g] in
      block [
        print_raw ''# Generated by smfc.\<newline>'',
        print_raw ''# Any local changes WILL BE LOST.\<newline>'',
        print vars ''# source: $filename$\<newline>\<newline>''])"

text \<open>\<^verbatim>\<open>std::string::rfind\<close>, and the module of a type.\<close>

definition rfind :: "char \<Rightarrow> string \<Rightarrow> nat option" where
  "rfind c s = (if c \<in> set s then Some (length s - 1 - length (takeWhile (\<lambda>x. x \<noteq> c) (rev s))) else None)"

definition python_import :: "boost_lib \<Rightarrow> smf_method \<Rightarrow> string res" where
  "python_import B method =
     rbind (output_type_name B method Lang_python) (\<lambda>type.
       case rfind CHR ''.'' type of
         None \<Rightarrow> Inl (Fatal ''Invalid type'')
       | Some point \<Rightarrow> Inr (substr type 0 point))"

fun collect :: "('a \<Rightarrow> 'b res) \<Rightarrow> 'a list \<Rightarrow> 'b list res" where
  "collect f [] = Inr []"
| "collect f (x # xs) = rbind (f x) (\<lambda>y. rbind (collect f xs) (\<lambda>ys. Inr (y # ys)))"

text \<open>A \<^verbatim>\<open>std::set<std::string>\<close> is visited in the lexicographic order of the bytes.\<close>

definition python_imports :: "boost_lib \<Rightarrow> generator \<Rightarrow> string list res" where
  "python_imports B g =
     rbind (collect (python_import B) (concat (map s_methods (g_services g))))
       (\<lambda>imports. Inr (sort (remdups imports)))"

definition python_generate_header_includes :: "boost_lib \<Rightarrow> generator \<Rightarrow> printing" where
  "python_generate_header_includes B g =
     given (python_imports B g) (\<lambda>imports.
     block [
       for_each (\<lambda>import. block [
         print_raw ''import '',
         print_raw import,
         print_raw ''\<newline>'']) imports,
       print_raw ''\<newline>''])"

definition python_generate_header_services :: "boost_lib \<Rightarrow> generator \<Rightarrow> printing" where
  "python_generate_header_services B g = for_each (python_print_client B) (g_services g)"

definition python_printer :: smf_printer where
  "python_printer = set_indent_step 4 (set_indent_char CHR '' '' smf_printer_new)"

definition python_output_filename :: "flatbuffers_lib \<Rightarrow> generator \<Rightarrow> string" where
  "python_output_filename F g = package_output_filename F ''_smf_client.py'' g"

definition python_generate :: "boost_lib \<Rightarrow> generator \<Rightarrow> printing" where
  "python_generate B g =
     block [
       python_generate_header_prologue g,
       python_generate_header_includes B g,
       python_generate_header_services B g]"

section \<open>Both generators return\<close>

abbreviation go_style :: style where
  "go_style \<equiv> (dollar, CHR 0x09, 1)"

abbreviation python_style :: style where
  "python_style \<equiv> (dollar, CHR '' '', 4)"

lemma plain_m_service_name: "plain_method m \<Longrightarrow> plain (m_service_name m)"
  by (simp add: plain_method_def)

lemma plain_public_name:
  "plain s \<Longrightarrow> plain (go_public_name s)" "plain s \<Longrightarrow> plain (python_public_name s)"
  by (simp_all add: go_public_name_def python_public_name_def plain_upper_first)

lemmas public_rules = plain_m_service_name plain_rules

lemma go_method_writes:
  assumes "join_law B" "plain_method m"
  shows "writes go_style (go_print_server_method B m) k k"
    and "writes go_style (go_print_client_method B m) k k"
  unfolding go_print_server_method_def go_print_client_method_def Let_def
  using assms
  by (intro printing_intros; auto simp: plain_simps intro!: clean_plain plain_public_name plain_m_name intro: public_rules)+

lemma go_jump_table_writes:
  assumes "plain_smf_service s"
  shows "writes go_style (go_print_server_jump_table s) k k"
  unfolding go_print_server_jump_table_def Let_def
  using assms
  by (intro printing_intros; auto simp: plain_simps intro!: clean_plain plain_public_name plain_m_name intro: public_rules)

lemma go_service_writes:
  assumes "join_law B" "plain_smf_service s"
  shows "writes go_style (go_print_server B s) k k"
    and "writes go_style (go_print_client B s) k k"
  unfolding go_print_server_def go_print_client_def Let_def
  using assms
  by (intro printing_intros writes_level [OF go_jump_table_writes] go_method_writes;
    auto simp: plain_simps intro!: clean_plain plain_public_name plain_m_name intro: public_rules)+

lemma go_generate_writes:
  assumes "join_law B" "plain_generator F g" "package_parts g \<noteq> []"
  shows "writes go_style (go_generate B g) k k"
proof -
  have pro: "writes go_style (go_generate_header_prologue g) k k"
    unfolding go_generate_header_prologue_def Let_def
    using assms by (intro printing_intros; auto intro!: clean_plain intro: plain_generatorD)
  have inc: "writes go_style go_generate_header_includes k k"
    unfolding go_generate_header_includes_def by (intro printing_intros)
  have srv: "writes go_style (go_generate_header_services B g) k k"
    unfolding go_generate_header_services_def
    using assms by (intro printing_intros go_service_writes; auto intro: plain_generatorD)
  show ?thesis
    unfolding go_generate_def
    by (intro writes_level [OF pro] writes_level [OF inc] writes_level [OF srv] writesI [OF emits_nil])
qed

lemma python_method_writes:
  assumes "join_law B" "plain_method m"
  shows "writes python_style (python_print_client_method B m) k k"
  unfolding python_print_client_method_def Let_def
  using assms
  by (intro printing_intros; auto simp: plain_simps intro!: clean_plain plain_public_name plain_m_name intro: public_rules)

lemma python_client_writes:
  assumes "join_law B" "plain_smf_service s"
  shows "writes python_style (python_print_client B s) k k"
proof -
  have sep: "writes python_style (block (if b then [print_raw t] else [])) j j" for b t j
    by (auto intro!: printing_intros)
  show ?thesis
    unfolding python_print_client_def Let_def
    using assms
    by (intro printing_intros writes_level [OF python_method_writes] writes_level [OF sep];
      auto simp: plain_simps intro!: clean_plain plain_public_name plain_m_name intro: public_rules)
qed

lemma join_with_separator: "xs \<noteq> [] \<Longrightarrow> ys \<noteq> [] \<Longrightarrow> c \<in> set sep \<Longrightarrow> c \<in> set (join_with sep (xs @ ys))"
  by (induction sep xs rule: join_with.induct) (auto simp: neq_Nil_conv)

lemma python_import_ok: "join_law B \<Longrightarrow> \<exists>x. python_import B m = Inr x"
  using join_with_separator [of "sd_namespace (call_response (m_call m)) @ [sd_name (call_response (m_call m))]"
      "[sd_name (call_response (m_call m))]" "CHR ''.''" "''.''"]
  by (simp add: python_import_def output_type_name_def smf_method_type_def join_law_def rfind_def)

lemma collect_ok: "(\<And>x. x \<in> set xs \<Longrightarrow> \<exists>y. f x = Inr y) \<Longrightarrow> \<exists>ys. collect f xs = Inr ys"
  by (induction xs) fastforce+

lemma python_generate_writes:
  assumes "join_law B" "plain_generator F g"
  shows "writes python_style (python_generate B g) k k"
proof -
  have pro: "writes python_style (python_generate_header_prologue g) k k"
    unfolding python_generate_header_prologue_def Let_def
    using assms by (intro printing_intros; auto intro!: clean_plain intro: plain_generatorD)
  obtain ys where "collect (python_import B) (concat (map s_methods (g_services g))) = Inr ys"
    using collect_ok [of _ "python_import B"] python_import_ok [OF assms(1)] by metis
  then have "\<not> isl (python_imports B g)" by (simp add: python_imports_def)
  then have inc: "writes python_style (python_generate_header_includes B g) k k"
    unfolding python_generate_header_includes_def by (intro printing_intros)
  have srv: "writes python_style (python_generate_header_services B g) k k"
    unfolding python_generate_header_services_def
    using assms by (intro printing_intros python_client_writes; auto intro: plain_generatorD)
  show ?thesis
    unfolding python_generate_def
    by (intro writes_level [OF pro] writes_level [OF inc] writes_level [OF srv] writesI [OF emits_nil])
qed

end
