(* ===== verification/Smfc_Codegen.thy ===== *)
theory Smfc_Codegen
  imports Smfc_Text
begin

text \<open>
  The driver of smfc: saving a generated file (generator.h), the class \<^verbatim>\<open>codegen\<close>
  (codegen.cc) and \<^verbatim>\<open>main\<close> (main.cc). The file system and the flatbuffers parser are a
  record of functions over a state of the world of any type.
\<close>

section \<open>What the driver calls\<close>

record 'w os_lib =
  fs_exists :: "string \<Rightarrow> 'w \<Rightarrow> bool"
  fs_remove :: "string \<Rightarrow> 'w \<Rightarrow> 'w"
  fs_create_directories :: "string \<Rightarrow> 'w \<Rightarrow> exn option \<times> 'w"
  fs_save :: "string \<Rightarrow> string \<Rightarrow> 'w \<Rightarrow> bool \<times> 'w"
  fs_load :: "string \<Rightarrow> 'w \<Rightarrow> string option"
  fs_canonical :: "string \<Rightarrow> 'w \<Rightarrow> string res"
  fs_dir_exists :: "string \<Rightarrow> 'w \<Rightarrow> bool"
  fb_strip_file_name :: "string \<Rightarrow> string"
  fb_parse :: "string \<Rightarrow> string list \<Rightarrow> string \<Rightarrow> 'w \<Rightarrow> bool \<times> fb_parser \<times> string"
  boost_split_comma :: "string \<Rightarrow> string list"
  boost_trim :: "string \<Rightarrow> string"

text \<open>
  The outcome of a run: \<open>None\<close> if it does not return, else an exception or a value, and the
  world it leaves.
\<close>

type_synonym ('a, 'w) run = "('a res \<times> 'w) option"

type_synonym status = "string option"

section \<open>Generators\<close>

definition save_conents_to_file :: "'w os_lib \<Rightarrow> string \<Rightarrow> smf_printer \<Rightarrow> 'w \<Rightarrow> status \<times> 'w" where
  "save_conents_to_file L outname printer w =
     (let w1 = (if fs_exists L outname w then fs_remove L outname w else w);
          (ok, w2) = fs_save L outname (contents printer) w1
      in (if \<not> ok then Some (''Could not create filename: '' @ outname) else None, w2))"

definition cpp_gen :: "boost_lib \<Rightarrow> flatbuffers_lib \<Rightarrow> 'w os_lib \<Rightarrow> generator \<Rightarrow> 'w \<Rightarrow> (status, 'w) run" where
  "cpp_gen B F L g w =
     (case cpp_generate B F g smf_printer_new of
        None \<Rightarrow> None
      | Some (Inl e) \<Rightarrow> Some (Inl e, w)
      | Some (Inr p) \<Rightarrow>
          (let (st, w1) = save_conents_to_file L (cpp_output_filename F g) p w in Some (Inr st, w1)))"

text \<open>Go and Python first make the directories of the package.\<close>

definition gen_in_package ::
    "boost_lib \<Rightarrow> 'w os_lib \<Rightarrow> printing \<Rightarrow> smf_printer \<Rightarrow> string \<Rightarrow> generator \<Rightarrow> 'w \<Rightarrow> (status, 'w) run" where
  "gen_in_package B L generate printer outname g w =
     (case generate printer of
        None \<Rightarrow> None
      | Some (Inl e) \<Rightarrow> Some (Inl e, w)
      | Some (Inr p) \<Rightarrow>
          (case fs_create_directories L (boost_join B (package_parts g) ''/'') w of
             (Some e, w1) \<Rightarrow> Some (Inl e, w1)
           | (None, w1) \<Rightarrow>
               (let (st, w2) = save_conents_to_file L outname p w1 in Some (Inr st, w2))))"

definition go_gen :: "boost_lib \<Rightarrow> flatbuffers_lib \<Rightarrow> 'w os_lib \<Rightarrow> generator \<Rightarrow> 'w \<Rightarrow> (status, 'w) run" where
  "go_gen B F L g w = gen_in_package B L (go_generate B g) go_printer (go_output_filename F g) g w"

definition python_gen :: "boost_lib \<Rightarrow> flatbuffers_lib \<Rightarrow> 'w os_lib \<Rightarrow> generator \<Rightarrow> 'w \<Rightarrow> (status, 'w) run" where
  "python_gen B F L g w =
     gen_in_package B L (python_generate B g) python_printer (python_output_filename F g) g w"

section \<open>The class codegen\<close>

record codegen =
  cg_input_filename :: string
  cg_output_dir :: string
  cg_languages :: "language list"
  cg_include_dirs :: "string list"
  cg_parser :: fb_parser
  cg_error :: string
  cg_parsed :: bool

definition empty_parser :: fb_parser where
  "empty_parser = \<lparr>fp_services = [], fp_included_files = [], fp_namespace = []\<rparr>"

definition codegen_new ::
    "'w os_lib \<Rightarrow> string \<Rightarrow> string \<Rightarrow> string list \<Rightarrow> language list \<Rightarrow> codegen res" where
  "codegen_new L ifname out_dir includes langs =
     (if langs = [] then Inl (Fatal ''No programming langues'')
      else if out_dir = [] then Inl (Fatal ''No place to put generated code'')
      else Inr \<lparr>cg_input_filename = ifname, cg_output_dir = out_dir, cg_languages = langs,
        cg_include_dirs = (if ifname \<in> set includes then includes
          else includes @ [fb_strip_file_name L ifname]),
        cg_parser = empty_parser, cg_error = [], cg_parsed = False\<rparr>)"

definition service_count :: "codegen \<Rightarrow> nat" where
  "service_count cg = (if \<not> cg_parsed cg then 0 else length (fp_services (cg_parser cg)))"

definition codegen_parse :: "'w os_lib \<Rightarrow> 'w \<Rightarrow> codegen \<Rightarrow> status \<times> codegen" where
  "codegen_parse L w cg =
     (if cg_parsed cg then
        (if cg_error cg \<noteq> [] then (Some (''Parser in error state: '' @ cg_error cg), cg) else (None, cg))
      else
        (let cg = cg\<lparr>cg_parsed := True\<rparr> in
         case fs_load L (cg_input_filename cg) w of
           None \<Rightarrow> (Some (''Could not load file: '' @ cg_input_filename cg), cg)
         | Some schema \<Rightarrow>
             (let (ok, p, err) =
                fb_parse L (c_str schema) (cg_include_dirs cg) (cg_input_filename cg) w;
                cg = cg\<lparr>cg_parser := p, cg_error := err\<rparr>
              in if \<not> ok then (Some (''Could not PARSE file: '' @ err), cg) else (None, cg))))"

text \<open>One round of the loop over the languages; an unknown one is only logged.\<close>

definition gen_language ::
    "boost_lib \<Rightarrow> flatbuffers_lib \<Rightarrow> 'w os_lib \<Rightarrow> codegen \<Rightarrow> language \<Rightarrow> 'w \<Rightarrow> (status, 'w) run" where
  "gen_language B F L cg l w =
     (let g = generator_new B (cg_parser cg) (cg_input_filename cg) (cg_output_dir cg) in
      case l of
        Lang_cpp \<Rightarrow> cpp_gen B F L g w
      | Lang_go \<Rightarrow> go_gen B F L g w
      | Lang_python \<Rightarrow> python_gen B F L g w
      | _ \<Rightarrow> Some (Inr None, w))"

fun gen_languages ::
    "boost_lib \<Rightarrow> flatbuffers_lib \<Rightarrow> 'w os_lib \<Rightarrow> codegen \<Rightarrow> language list \<Rightarrow> 'w \<Rightarrow> (status, 'w) run" where
  "gen_languages B F L cg [] w = Some (Inr None, w)"
| "gen_languages B F L cg (l # ls) w =
     (case gen_language B F L cg l w of
        None \<Rightarrow> None
      | Some (Inl e, w1) \<Rightarrow> Some (Inl e, w1)
      | Some (Inr (Some x), w1) \<Rightarrow> Some (Inr (Some x), w1)
      | Some (Inr None, w1) \<Rightarrow> gen_languages B F L cg ls w1)"

definition codegen_gen ::
    "boost_lib \<Rightarrow> flatbuffers_lib \<Rightarrow> 'w os_lib \<Rightarrow> codegen \<Rightarrow> 'w \<Rightarrow> codegen \<times> (status, 'w) run" where
  "codegen_gen B F L cg w =
     (case codegen_parse L w cg of
        (Some x, cg1) \<Rightarrow> (cg1, Some (Inr (Some x), w))
      | (None, cg1) \<Rightarrow> (cg1, gen_languages B F L cg1 (cg_languages cg1) w))"

section \<open>The program\<close>

record flags =
  FLAGS_filename :: string
  FLAGS_include_dirs :: string
  FLAGS_language :: string
  FLAGS_output_path :: string

definition split_coma :: "'w os_lib \<Rightarrow> string \<Rightarrow> string list" where
  "split_coma L dirs =
     (let retval = boost_split_comma L dirs;
          retval = (if retval = [] \<and> dirs \<noteq> [] then [dirs] else retval)
      in map (boost_trim L) retval)"

definition language_of :: "string \<Rightarrow> language option" where
  "language_of l =
     (if l = ''cpp'' then Some Lang_cpp
      else if l = ''go'' then Some Lang_go
      else if l = ''python'' then Some Lang_python
      else None)"

definition split_langs :: "'w os_lib \<Rightarrow> string \<Rightarrow> language list" where
  "split_langs L lang = List.map_filter language_of (split_coma L lang)"

text \<open>\<^verbatim>\<open>main\<close>, after the flags are parsed: the exit code.\<close>

definition smfc_main ::
    "boost_lib \<Rightarrow> flatbuffers_lib \<Rightarrow> 'w os_lib \<Rightarrow> flags \<Rightarrow> 'w \<Rightarrow> (nat, 'w) run" where
  "smfc_main B F L fl w =
     (if FLAGS_filename fl = [] then Some (Inr 1, w)
      else if \<not> fs_exists L (FLAGS_filename fl) w then Some (Inr 1, w)
      else if FLAGS_output_path fl = [] then Some (Inr 1, w)
      else case fs_canonical L (FLAGS_output_path fl) w of
        Inl e \<Rightarrow> Some (Inl e, w)
      | Inr output_path \<Rightarrow>
          (if \<not> fs_dir_exists L output_path w then Some (Inr 1, w)
           else case codegen_new L (FLAGS_filename fl) output_path (split_coma L (FLAGS_include_dirs fl))
               (split_langs L (FLAGS_language fl)) of
             Inl e \<Rightarrow> Some (Inl e, w)
           | Inr codegenerator \<Rightarrow>
               (case codegen_parse L w codegenerator of
                  (Some st, cg) \<Rightarrow> Some (Inr 1, w)
                | (None, cg) \<Rightarrow>
                    (case snd (codegen_gen B F L cg w) of
                       None \<Rightarrow> None
                     | Some (Inl e, w1) \<Rightarrow> Some (Inl e, w1)
                     | Some (Inr (Some st), w1) \<Rightarrow> Some (Inr 1, w1)
                     | Some (Inr None, w1) \<Rightarrow> Some (Inr 0, w1)))))"

section \<open>Interface: a code generator\<close>

text \<open>
  A file system on which saving works: what is saved under a name is read back, and other
  names are left alone.
\<close>

definition fs_law :: "'w os_lib \<Rightarrow> bool" where
  "fs_law L \<longleftrightarrow>
     (\<forall>n c w. fst (fs_save L n c w) \<and> fs_load L n (snd (fs_save L n c w)) = Some c) \<and>
     (\<forall>n n' c w. n' \<noteq> n \<longrightarrow> fs_load L n' (snd (fs_save L n c w)) = fs_load L n' w) \<and>
     (\<forall>n n' w. n' \<noteq> n \<longrightarrow> fs_load L n' (fs_remove L n w) = fs_load L n' w) \<and>
     (\<forall>d n w. fst (fs_create_directories L d w) = None \<and>
        fs_load L n (snd (fs_create_directories L d w)) = fs_load L n w)"

lemma save_ok:
  assumes "fs_law L"
  shows "\<exists>w1. save_conents_to_file L n p w = (None, w1) \<and> fs_load L n w1 = Some (contents p) \<and>
    (\<forall>n'. n' \<noteq> n \<longrightarrow> fs_load L n' w1 = fs_load L n' w)"
  using assms
  by (auto simp: save_conents_to_file_def fs_law_def Let_def split_def)

text \<open>
  What the driver relies on in a generator (the virtual members of the class \<^verbatim>\<open>generator\<close>):
  on the schemas it accepts its printing returns at the level it started at, and \<^verbatim>\<open>gen\<close>
  saves what was printed under the output name.
\<close>

locale code_generator =
  fixes generate :: "generator \<Rightarrow> printing"
    and printer :: smf_printer
    and outname :: "generator \<Rightarrow> string"
    and accepts :: "generator \<Rightarrow> bool"
    and L :: "'w os_lib"
    and prepare :: "generator \<Rightarrow> 'w \<Rightarrow> exn option \<times> 'w"
    and gen :: "generator \<Rightarrow> 'w \<Rightarrow> (status, 'w) run"
  assumes generate_writes: "accepts g \<Longrightarrow> writes (style printer) (generate g) 0 0"
    and level: "p_indent printer = 0"
    and gen_saves: "generate g printer = Some (Inr p) \<Longrightarrow> prepare g w = (None, w1) \<Longrightarrow>
      gen g w = Some (Inr (fst (save_conents_to_file L (outname g) p w1)),
        snd (save_conents_to_file L (outname g) p w1))"
    and prepare_ok: "fs_law L \<Longrightarrow> fst (prepare g w) = None \<and> fs_load L n (snd (prepare g w)) = fs_load L n w"
begin

lemma generate_returns: "accepts g \<Longrightarrow> \<exists>t. generate g printer = Some (Inr (printer\<lparr>p_out := p_out printer @ t\<rparr>))"
proof -
  assume "accepts g"
  then obtain t where "emits (style printer) (generate g) 0 t 0"
    using generate_writes by (auto simp: writes_def)
  then have "generate g printer = Some (Inr (printer\<lparr>p_out := p_out printer @ t, p_indent := 0\<rparr>))"
    using level by (simp add: emits_def)
  moreover have "printer\<lparr>p_out := p_out printer @ t, p_indent := 0\<rparr> = printer\<lparr>p_out := p_out printer @ t\<rparr>"
    using level by simp
  ultimately show ?thesis by auto
qed

lemma gen_ok:
  assumes "fs_law L" "accepts g"
  shows "\<exists>p w1. generate g printer = Some (Inr p) \<and> gen g w = Some (Inr None, w1) \<and>
    fs_load L (outname g) w1 = Some (contents p) \<and>
    (\<forall>n. n \<noteq> outname g \<longrightarrow> fs_load L n w1 = fs_load L n w)"
proof -
  obtain p where p: "generate g printer = Some (Inr p)"
    using generate_returns [OF assms(2)] by auto
  obtain w1 where w1: "prepare g w = (None, w1)" "\<And>n. fs_load L n w1 = fs_load L n w"
    using prepare_ok [OF assms(1), of g w] by (metis prod.collapse)
  obtain w2 where "save_conents_to_file L (outname g) p w1 = (None, w2)"
    "fs_load L (outname g) w2 = Some (contents p)"
    "\<forall>n. n \<noteq> outname g \<longrightarrow> fs_load L n w2 = fs_load L n w1"
    using save_ok [OF assms(1)] by metis
  then show ?thesis using gen_saves [OF p w1(1)] p w1(2) by auto
qed

end

lemma printers [simp]:
  "style smf_printer_new = cpp_style" "style go_printer = go_style" "style python_printer = python_style"
  "p_indent smf_printer_new = 0" "p_indent go_printer = 0" "p_indent python_printer = 0"
  by (simp_all add: smf_printer_new_def go_printer_def python_printer_def style_def
    set_indent_char_def set_indent_step_def)

lemma gen_in_package_saves:
  "generate printer = Some (Inr p) \<Longrightarrow>
   fs_create_directories L (boost_join B (package_parts g) ''/'') w = (None, w1) \<Longrightarrow>
   gen_in_package B L generate printer outname g w =
     Some (Inr (fst (save_conents_to_file L outname p w1)), snd (save_conents_to_file L outname p w1))"
  by (simp add: gen_in_package_def split_def Let_def)

interpretation cpp: code_generator "cpp_generate B F" smf_printer_new "cpp_output_filename F"
    "\<lambda>g. join_law B \<and> plain_generator F g" L "\<lambda>g w. (None, w)" "cpp_gen B F L"
  for B F L
  by unfold_locales (auto simp: cpp_gen_def split_def Let_def intro: cpp_generate_writes)

interpretation go: code_generator "go_generate B" go_printer "go_output_filename F"
    "\<lambda>g. join_law B \<and> plain_generator F g \<and> package_parts g \<noteq> []" L
    "\<lambda>g. fs_create_directories L (boost_join B (package_parts g) ''/'')" "go_gen B F L"
  for B F L
  by unfold_locales
    (auto simp: go_gen_def gen_in_package_saves fs_law_def intro: go_generate_writes)

interpretation python: code_generator "python_generate B" python_printer "python_output_filename F"
    "\<lambda>g. join_law B \<and> plain_generator F g" L
    "\<lambda>g. fs_create_directories L (boost_join B (package_parts g) ''/'')" "python_gen B F L"
  for B F L
  by unfold_locales
    (auto simp: python_gen_def gen_in_package_saves fs_law_def intro: python_generate_writes)

section \<open>The driver\<close>

text \<open>The text and the file of a language.\<close>

definition language_text :: "boost_lib \<Rightarrow> flatbuffers_lib \<Rightarrow> language \<Rightarrow> generator \<Rightarrow> smf_printer res option" where
  "language_text B F l g = (case l of
       Lang_cpp \<Rightarrow> cpp_generate B F g smf_printer_new
     | Lang_go \<Rightarrow> go_generate B g go_printer
     | Lang_python \<Rightarrow> python_generate B g python_printer
     | _ \<Rightarrow> Some (Inl (Fatal ''no generator'')))"

definition language_file :: "flatbuffers_lib \<Rightarrow> language \<Rightarrow> generator \<Rightarrow> string" where
  "language_file F l g = (case l of
       Lang_cpp \<Rightarrow> cpp_output_filename F g
     | Lang_go \<Rightarrow> go_output_filename F g
     | Lang_python \<Rightarrow> python_output_filename F g
     | _ \<Rightarrow> [])"

definition supported :: "language \<Rightarrow> bool" where
  "supported l \<longleftrightarrow> l \<in> {Lang_cpp, Lang_go, Lang_python}"

lemma language_file_inj:
  "supported l \<Longrightarrow> supported l' \<Longrightarrow> language_file F l g = language_file F l' g \<Longrightarrow> l = l'"
  by (drule arg_cong [where f = last])
    (auto simp: supported_def language_file_def cpp_output_filename_def go_output_filename_def
      python_output_filename_def package_output_filename_def)

definition file_generated :: "boost_lib \<Rightarrow> flatbuffers_lib \<Rightarrow> 'w os_lib \<Rightarrow> generator \<Rightarrow> 'w \<Rightarrow> language \<Rightarrow> bool" where
  "file_generated B F L g w l \<longleftrightarrow> (\<exists>p. language_text B F l g = Some (Inr p) \<and>
     fs_load L (language_file F l g) w = Some (contents p))"

lemma gen_language_ok:
  assumes "fs_law L" "join_law B" "plain_generator F g" "l = Lang_go \<longrightarrow> package_parts g \<noteq> []"
    "supported l" "g = generator_new B (cg_parser cg) (cg_input_filename cg) (cg_output_dir cg)"
  shows "\<exists>w1. gen_language B F L cg l w = Some (Inr None, w1) \<and> file_generated B F L g w1 l \<and>
    (\<forall>l'. supported l' \<longrightarrow> file_generated B F L g w l' \<longrightarrow> file_generated B F L g w1 l')"
proof -
  have "\<exists>p w1. language_text B F l g = Some (Inr p) \<and> gen_language B F L cg l w = Some (Inr None, w1) \<and>
      fs_load L (language_file F l g) w1 = Some (contents p) \<and>
      (\<forall>n. n \<noteq> language_file F l g \<longrightarrow> fs_load L n w1 = fs_load L n w)"
    using assms cpp.gen_ok [of L B F g w] go.gen_ok [of L B F g w] python.gen_ok [of L B F g w]
    by (auto simp: supported_def language_text_def language_file_def gen_language_def Let_def)
  then obtain p w1 where p: "language_text B F l g = Some (Inr p)"
    "gen_language B F L cg l w = Some (Inr None, w1)"
    "fs_load L (language_file F l g) w1 = Some (contents p)"
    "\<And>n. n \<noteq> language_file F l g \<Longrightarrow> fs_load L n w1 = fs_load L n w" by blast
  then have "file_generated B F L g w1 l'" if "supported l'" "file_generated B F L g w l'" for l'
    using that language_file_inj [OF that(1) assms(5), of F g]
    by (cases "l' = l") (fastforce simp: file_generated_def)+
  with p show ?thesis by (auto simp: file_generated_def)
qed

lemma gen_languages_ok:
  assumes "fs_law L" "join_law B" "plain_generator F g"
    "g = generator_new B (cg_parser cg) (cg_input_filename cg) (cg_output_dir cg)"
  shows "list_all supported ls \<Longrightarrow> Lang_go \<in> set ls \<longrightarrow> package_parts g \<noteq> [] \<Longrightarrow>
    \<exists>w1. gen_languages B F L cg ls w = Some (Inr None, w1) \<and>
      (\<forall>l. supported l \<longrightarrow> l \<in> set ls \<or> file_generated B F L g w l \<longrightarrow> file_generated B F L g w1 l)"
proof (induction ls arbitrary: w)
  case (Cons l ls)
  obtain w1 where w1: "gen_language B F L cg l w = Some (Inr None, w1)" "file_generated B F L g w1 l"
    "\<And>l'. supported l' \<Longrightarrow> file_generated B F L g w l' \<Longrightarrow> file_generated B F L g w1 l'"
    using gen_language_ok [OF assms(1-3) _ _ assms(4), of l w] Cons.prems by auto
  obtain w2 where "gen_languages B F L cg ls w1 = Some (Inr None, w2)"
    "\<And>l. supported l \<Longrightarrow> l \<in> set ls \<or> file_generated B F L g w1 l \<Longrightarrow> file_generated B F L g w2 l"
    using Cons.IH [of w1] Cons.prems by auto
  with w1 show ?case by auto
qed simp

lemma split_langs_supported: "list_all supported (split_langs L lang)"
  by (auto simp: split_langs_def list_all_iff List.map_filter_def language_of_def supported_def
    split: if_splits)


fun split_on :: "char \<Rightarrow> string \<Rightarrow> string list" where
  "split_on c [] = [[]]"
| "split_on c (x # xs) =
     (if x = c then [] # split_on c xs else case split_on c xs of l # ls \<Rightarrow> (x # l) # ls)"

definition sample_parser :: fb_parser where
  "sample_parser = \<lparr>fp_services = [\<lparr>sdef_name = ''Storage'', sdef_namespace = [''kv''],
       sdef_calls = [sample_call], sdef_generated = False\<rparr>],
     fp_included_files = [''kv.fbs''], fp_namespace = [''kv'']\<rparr>"

definition sample_os :: "(string \<rightharpoonup> string) os_lib" where
  "sample_os = \<lparr>fs_exists = (\<lambda>n w. w n \<noteq> None), fs_remove = (\<lambda>n w. w(n := None)),
     fs_create_directories = (\<lambda>d w. (None, w)), fs_save = (\<lambda>n c w. (True, w(n \<mapsto> c))),
     fs_load = (\<lambda>n w. w n), fs_canonical = (\<lambda>p w. Inr p), fs_dir_exists = (\<lambda>d w. True),
     fb_strip_file_name = (\<lambda>n. ''.''), fb_parse = (\<lambda>t incs n w. (True, sample_parser, [])),
     boost_split_comma = split_on CHR '','', boost_trim = (\<lambda>s. s)\<rparr>"

definition sample_fb :: flatbuffers_lib where
  "sample_fb = \<lparr>fb_strip_path = (\<lambda>s. s), fb_strip_extension = takeWhile (\<lambda>c. c \<noteq> CHR ''.''),
     fb_qualified_name = (\<lambda>ns n. join_with ''.'' ns @ n)\<rparr>"

definition sample_flags :: flags where
  "sample_flags = \<lparr>FLAGS_filename = ''kv.fbs'', FLAGS_include_dirs = [], FLAGS_language = ''cpp,rust,python'',
     FLAGS_output_path = ''out''\<rparr>"

lemma sample_langs: "split_langs sample_os (FLAGS_language sample_flags) = [Lang_cpp, Lang_python]"
  by (simp add: split_langs_def split_coma_def sample_os_def sample_flags_def List.map_filter_def
    language_of_def)

lemma sample_files:
  "language_file sample_fb Lang_cpp (generator_new sample_boost sample_parser ''kv.fbs'' ''out'') = ''out/kv.smf.fb.h''"
  "language_file sample_fb Lang_python (generator_new sample_boost sample_parser ''kv.fbs'' ''out'')
     = ''out/kv/kv_smf_client.py''"
  by (simp_all add: language_file_def cpp_output_filename_def python_output_filename_def
    package_output_filename_def generator_new_def input_filename_without_ext_def
    input_filename_without_path_def package_parts_def sample_fb_def sample_parser_def)


section \<open>Failures of the driver\<close>

text \<open>
  A failed \<^verbatim>\<open>parse\<close> is forgotten. If the schema cannot be loaded, \<^verbatim>\<open>parse\<close> reports it,
  but a second \<^verbatim>\<open>parse\<close> of the same object reports success, with a parser that has seen
  nothing; \<^verbatim>\<open>gen\<close>, which parses again, then generates files from the empty schema: for C++ it
  reports success when the file can be saved.
\<close>

lemma failed_parse_forgotten:
  assumes "codegen_new L ifname out includes langs = Inr cg" "fs_load L ifname w = None"
  shows "\<exists>cg1. codegen_parse L w cg = (Some (''Could not load file: '' @ ifname), cg1) \<and>
    codegen_parse L w cg1 = (None, cg1) \<and> cg_parser cg1 = empty_parser \<and>
    (langs = [Lang_cpp] \<longrightarrow> fs_law L \<longrightarrow> join_law B \<longrightarrow> plain_input F empty_parser ifname \<longrightarrow>
      (\<exists>w1. snd (codegen_gen B F L cg1 w) = Some (Inr None, w1)))"
proof -
  define cg1 where "cg1 = cg\<lparr>cg_parsed := True\<rparr>"
  have cg: "cg_input_filename cg = ifname" "cg_error cg = []" "\<not> cg_parsed cg" "cg_parser cg = empty_parser"
    "cg_languages cg = langs" "cg_output_dir cg = out"
    using assms(1) by (auto simp: codegen_new_def split: if_splits)
  have p: "codegen_parse L w cg = (Some (''Could not load file: '' @ ifname), cg1)"
    "codegen_parse L w cg1 = (None, cg1)"
    using cg assms(2) by (simp_all add: codegen_parse_def cg1_def Let_def)
  have "\<exists>w1. snd (codegen_gen B F L cg1 w) = Some (Inr None, w1)"
    if "langs = [Lang_cpp]" "fs_law L" "join_law B" "plain_input F empty_parser ifname"
    using gen_languages_ok [OF that(2,3) plain_generator_new [OF that(4), of B out], of cg1 langs w] that(1) p cg
    by (auto simp: codegen_gen_def cg1_def supported_def)
  with p cg show ?thesis by (auto simp: cg1_def)
qed

lemma failed_parse_forgotten_witness:
  "\<exists>cg cg1. codegen_new sample_os ''kv.fbs'' ''out'' [] [Lang_cpp] = Inr cg \<and>
     codegen_parse sample_os (\<lambda>_. None) cg = (Some ''Could not load file: kv.fbs'', cg1) \<and>
     codegen_parse sample_os (\<lambda>_. None) cg1 = (None, cg1) \<and>
     (\<exists>w1. snd (codegen_gen sample_boost sample_fb sample_os cg1 (\<lambda>_. None)) = Some (Inr None, w1))"
proof -
  obtain cg where cg: "codegen_new sample_os ''kv.fbs'' ''out'' [] [Lang_cpp] = Inr cg"
    by (simp add: codegen_new_def)
  have "fs_law sample_os" by (simp add: fs_law_def sample_os_def)
  moreover have "plain_input sample_fb empty_parser ''kv.fbs''"
    by (simp add: plain_input_def plain_parser_def empty_parser_def plain_simps sample_fb_def)
  moreover have "fs_load sample_os ''kv.fbs'' (\<lambda>_. None) = None" by (simp add: sample_os_def)
  ultimately show ?thesis
    using failed_parse_forgotten [OF cg, of "\<lambda>_. None" sample_boost sample_fb] sample_ok(1) cg by auto
qed

text \<open>
  Go and Python output outside the working directory fails. \<^verbatim>\<open>create_directories\<close> is given
  the path of the package relative to the working directory, while the file is saved below
  the output directory: if the package's directory is not there yet, and a file cannot be
  saved into a directory that does not exist, \<^verbatim>\<open>gen\<close> reports that it could not create the file.
\<close>

lemma package_directory_missing:
  assumes accepts: "join_law B" "plain_generator F g" "package_parts g \<noteq> []"
    and needs_dir: "\<And>n d c w. n = d @ ''/'' @ input_filename_without_ext F g @ ''.smf.fb.go'' \<Longrightarrow>
      \<not> fs_dir_exists L d w \<Longrightarrow> \<not> fst (fs_save L n c w)"
    and remove: "\<And>d n w. fs_dir_exists L d (fs_remove L n w) = fs_dir_exists L d w"
    and creates: "\<And>d d' w. fst (fs_create_directories L d w) = None \<and>
      (fs_dir_exists L d' (snd (fs_create_directories L d w)) \<longrightarrow>
        fs_dir_exists L d' w \<or> prefix d' (cwd @ ''/'' @ d))"
    and missing: "\<not> fs_dir_exists L (g_output_dir g @ ''/'' @ join_with ''/'' (package_parts g)) w"
    and outside: "\<not> prefix (g_output_dir g @ ''/'' @ join_with ''/'' (package_parts g))
      (cwd @ ''/'' @ join_with ''/'' (package_parts g))"
  shows "\<exists>w1. go_gen B F L g w = Some (Inr (Some (''Could not create filename: '' @ go_output_filename F g)), w1)"
proof -
  let ?d = "g_output_dir g @ ''/'' @ join_with ''/'' (package_parts g)"
  have cat: "concat (map (\<lambda>part. part @ ''/'') xs) = join_with ''/'' xs @ ''/''" if "xs \<noteq> []" for xs
    using that by (induction "''/''" xs rule: join_with.induct) auto
  have name: "go_output_filename F g = ?d @ ''/'' @ input_filename_without_ext F g @ ''.smf.fb.go''"
    using accepts(3) by (simp add: go_output_filename_def package_output_filename_def cat)
  obtain p where p: "go_generate B g go_printer = Some (Inr p)"
    using go.generate_returns [of B F g] accepts by auto
  obtain w1 where w1: "fs_create_directories L (join_with ''/'' (package_parts g)) w = (None, w1)"
    using creates [of "join_with ''/'' (package_parts g)" w] by (metis prod.collapse)
  have "\<not> fs_dir_exists L ?d w1"
    using creates [of "join_with ''/'' (package_parts g)" w ?d] missing outside w1 by auto
  then have "\<not> fst (fs_save L (go_output_filename F g) c w1)"
    "\<not> fst (fs_save L (go_output_filename F g) c (fs_remove L (go_output_filename F g) w1))" for c
    using needs_dir [OF name] remove by auto
  with p w1 accepts(1) show ?thesis
    by (auto simp: go_gen_def gen_in_package_def save_conents_to_file_def join_law_def Let_def split_def)
qed

definition dirname :: "string \<Rightarrow> string" where
  "dirname n = rev (tl (dropWhile (\<lambda>c. c \<noteq> CHR ''/'') (rev n)))"

text \<open>A file system that is its set of directories, with the working directory \<^verbatim>\<open>/cwd\<close>.\<close>

definition dirs_os :: "string set os_lib" where
  "dirs_os = \<lparr>fs_exists = (\<lambda>n w. False), fs_remove = (\<lambda>n w. w),
     fs_create_directories = (\<lambda>d w. (None, w \<union> {d'. prefix d' (''/cwd/'' @ d)})),
     fs_save = (\<lambda>n c w. (dirname n \<in> w, w)), fs_load = (\<lambda>n w. None),
     fs_canonical = (\<lambda>p w. Inr p), fs_dir_exists = (\<lambda>d w. d \<in> w),
     fb_strip_file_name = (\<lambda>n. ''.''), fb_parse = (\<lambda>t incs n w. (True, sample_parser, [])),
     boost_split_comma = split_on CHR '','', boost_trim = (\<lambda>s. s)\<rparr>"

lemma package_directory_missing_witness:
  "\<exists>w1. go_gen sample_boost sample_fb dirs_os (generator_new sample_boost sample_parser ''kv.fbs'' ''/out'')
      {''/cwd'', ''/out''} = Some (Inr (Some ''Could not create filename: /out/kv/kv.smf.fb.go''), w1)"
proof -
  let ?g = "generator_new sample_boost sample_parser ''kv.fbs'' ''/out''"
  have g: "package_parts ?g = [''kv'']" "g_output_dir ?g = ''/out''" "input_filename_without_ext sample_fb ?g = ''kv''"
    by (simp_all add: package_parts_def generator_new_def sample_parser_def sample_fb_def
      input_filename_without_ext_def input_filename_without_path_def)
  have "plain_input sample_fb sample_parser ''kv.fbs''"
    by (simp add: plain_input_def plain_parser_def plain_service_def plain_call_def plain_struct_def
      plain_simps sample_parser_def sample_call_def sample_fb_def)
  then have "plain_generator sample_fb ?g" by (rule plain_generator_new)
  moreover have "dirname (d @ ''/kv.smf.fb.go'') = d" for d by (simp add: dirname_def)
  ultimately have "\<exists>w1. go_gen sample_boost sample_fb dirs_os ?g {''/cwd'', ''/out''} =
      Some (Inr (Some (''Could not create filename: '' @ go_output_filename sample_fb ?g)), w1)"
    by (intro package_directory_missing [where cwd = "''/cwd''"])
      (simp_all add: sample_ok(1) g dirs_os_def)
  then show ?thesis
    by (simp add: go_output_filename_def package_output_filename_def g)
qed

end
