(* ===== verification/Reconnect_Client.thy ===== *)
theory Reconnect_Client
  imports Rpc_Client
begin

text \<open>
  The client that reconnects in the background (reconnect_client.h): the table of backoffs,
  and \<^verbatim>\<open>connect\<close> and \<^verbatim>\<open>stop\<close> as a transition system. The wrapped client is seen through
  the answers of its \<^verbatim>\<open>is_conn_valid\<close> and the outcomes of its \<^verbatim>\<open>reconnect\<close>, which the
  events carry.
\<close>

section \<open>Backoff\<close>

type_synonym reconnect_backoff = u16

definition backoff_none :: reconnect_backoff where
  "backoff_none = 0"

definition wait_1800_sec :: reconnect_backoff where
  "wait_1800_sec = 1800"

definition clamp_table :: "reconnect_backoff list" where
  "clamp_table = [0, 1, 3, 5, 10, 20, 30, 60, 300, 600, 1800]"

fun clamp :: "reconnect_backoff \<Rightarrow> reconnect_backoff list \<Rightarrow> reconnect_backoff" where
  "clamp b [] = wait_1800_sec"
| "clamp b (x # xs) = (if b \<le> x then x else clamp b xs)"

text \<open>\<^verbatim>\<open>operator++\<close>; the cast of \<^verbatim>\<open>as_num + 1\<close> back to the enumeration wraps at 16 bits.\<close>

definition next_backoff :: "reconnect_backoff \<Rightarrow> reconnect_backoff" where
  "next_backoff b = clamp (b + 1) clamp_table"

lemma clamp_least:
  "sorted xs \<Longrightarrow> \<exists>x \<in> set xs. b \<le> x \<Longrightarrow>
   clamp b xs \<in> set xs \<and> b \<le> clamp b xs \<and> (\<forall>x \<in> set xs. b \<le> x \<longrightarrow> clamp b xs \<le> x)"
  by (induction xs) (auto split: if_splits)

lemma clamp_table_sorted: "sorted clamp_table"
  by (simp add: clamp_table_def)

text \<open>
  C34: the backoff climbs the table and stays in it. Below the last entry, \<^verbatim>\<open>++\<close> gives the
  least entry of the table above the current value; at the last entry it stays; and after any
  number \<open>n\<close> of failures in a row the backoff is entry \<open>min n 10\<close>, at most 30 minutes.
\<close>

theorem backoff_climbs:
  "(b < wait_1800_sec \<longrightarrow> next_backoff b \<in> set clamp_table \<and> b < next_backoff b \<and>
      (\<forall>x \<in> set clamp_table. b < x \<longrightarrow> next_backoff b \<le> x)) \<and>
   next_backoff wait_1800_sec = wait_1800_sec \<and>
   (next_backoff ^^ n) backoff_none = clamp_table ! min n 10 \<and>
   (next_backoff ^^ n) backoff_none \<le> wait_1800_sec"
proof -
  have less: "x < y \<longleftrightarrow> x + 1 \<le> y" if "x < wait_1800_sec" for x y :: u16
    using that by (auto simp: wait_1800_sec_def word_less_nat_alt word_le_nat_alt unat_word_ariths)
  have "next_backoff b \<in> set clamp_table \<and> b < next_backoff b \<and>
      (\<forall>x \<in> set clamp_table. b < x \<longrightarrow> next_backoff b \<le> x)" if b: "b < wait_1800_sec"
  proof -
    have "\<exists>x \<in> set clamp_table. b + 1 \<le> x"
      using less [OF b] b by (auto simp: clamp_table_def wait_1800_sec_def)
    then show ?thesis
      using clamp_least [OF clamp_table_sorted, of "b + 1"] less [OF b] by (auto simp: next_backoff_def)
  qed
  moreover have top: "next_backoff wait_1800_sec = wait_1800_sec"
    by (simp add: next_backoff_def wait_1800_sec_def clamp_table_def word_le_nat_alt)
  moreover have "(next_backoff ^^ n) backoff_none = clamp_table ! min n 10"
  proof (induction n)
    case 0
    show ?case by (simp add: backoff_none_def clamp_table_def)
  next
    case (Suc n)
    have "\<forall>k \<in> {..<10}. next_backoff (clamp_table ! k) = clamp_table ! Suc k"
      by (simp add: lessThan_nat_numeral lessThan_Suc next_backoff_def clamp_table_def word_le_nat_alt)
    moreover have "clamp_table ! 10 = wait_1800_sec"
      by (simp add: clamp_table_def wait_1800_sec_def)
    ultimately show ?case
      using Suc top by (cases "n < 10") (auto simp: min_def)
  qed
  moreover have "\<forall>x \<in> set clamp_table. x \<le> wait_1800_sec"
    by (simp add: clamp_table_def wait_1800_sec_def)
  then have "clamp_table ! min n 10 \<le> wait_1800_sec"
    by (rule bspec) (rule nth_mem, simp add: clamp_table_def)
  ultimately show ?thesis by simp
qed

theorem backoff_climbs_witness:
  "(5 :: u16) < wait_1800_sec \<and> (5 :: u16) < next_backoff 5 \<and>
   (next_backoff ^^ 4) backoff_none = clamp_table ! 4"
  using backoff_climbs [of 5 4] by (simp add: wait_1800_sec_def)

section \<open>State\<close>

text \<open>
  A reconnect in progress, with the number of holds on the gate it gives back when it ends,
  and a background sleep, with its length in milliseconds, inside one hold.
\<close>

datatype rfiber =
    Reconnecting nat
  | Sleeping nat

datatype stop_phase = Not_stopped | Stop_closing | Stop_done

record 'gate reconnect_client =
  rc_backoff :: reconnect_backoff
  rc_gate :: 'gate
  rc_fibers :: "rfiber list"
  rc_stop :: stop_phase
  rc_attempts :: nat

definition reconnect_client_new :: "('is, 'sem, 'gate) seastar_env \<Rightarrow> 'gate reconnect_client" where
  "reconnect_client_new E =
     \<lparr>rc_backoff = backoff_none, rc_gate = gate_init E, rc_fibers = [], rc_stop = Not_stopped,
      rc_attempts = 0\<rparr>"

text \<open>
  \<^verbatim>\<open>connect\<close>, called by the user (\<open>holds = 0\<close>) or by the continuation of a sleep
  (\<open>holds = 1\<close>, the hold of the sleep, kept until the future of \<^verbatim>\<open>connect\<close> resolves). A
  reconnect is counted in \<open>rc_attempts\<close> when it starts.
\<close>

fun leave_times :: "('is, 'sem, 'gate) seastar_env \<Rightarrow> nat \<Rightarrow> 'gate \<Rightarrow> 'gate" where
  "leave_times E 0 g = g"
| "leave_times E (Suc n) g = leave_times E n (gate_leave E g)"

definition rc_connect ::
    "('is, 'sem, 'gate) seastar_env \<Rightarrow> bool \<Rightarrow> nat \<Rightarrow> 'gate reconnect_client \<Rightarrow> 'gate reconnect_client" where
  "rc_connect E conn_valid holds s =
     (if conn_valid then s\<lparr>rc_gate := leave_times E holds (rc_gate s)\<rparr>
      else if gate_is_closed E (rc_gate s) then s\<lparr>rc_gate := leave_times E holds (rc_gate s)\<rparr>
      else case gate_enter E (rc_gate s) of
        None \<Rightarrow> s\<lparr>rc_gate := leave_times E holds (rc_gate s)\<rparr>
      | Some g \<Rightarrow> s\<lparr>rc_gate := g, rc_fibers := rc_fibers s @ [Reconnecting (Suc holds)],
          rc_attempts := Suc (rc_attempts s)\<rparr>)"

text \<open>The reconnect succeeds.\<close>

definition reconnect_succeeded ::
    "('is, 'sem, 'gate) seastar_env \<Rightarrow> nat \<Rightarrow> 'gate reconnect_client \<Rightarrow> 'gate reconnect_client" where
  "reconnect_succeeded E holds s =
     s\<lparr>rc_backoff := backoff_none, rc_gate := leave_times E holds (rc_gate s)\<rparr>"

text \<open>
  It fails: the handler starts the sleep in the background, inside the gate, unless the gate
  is closed by now, which makes \<^verbatim>\<open>with_gate\<close> throw; \<open>r\<close> is what \<^verbatim>\<open>rand_.next()\<close> gives.
\<close>

definition reconnect_failed ::
    "('is, 'sem, 'gate) seastar_env \<Rightarrow> u64 \<Rightarrow> nat \<Rightarrow> 'gate reconnect_client \<Rightarrow> 'gate reconnect_client" where
  "reconnect_failed E r holds s =
     (case gate_enter E (rc_gate s) of
        None \<Rightarrow> s\<lparr>rc_gate := leave_times E holds (rc_gate s)\<rparr>
      | Some g \<Rightarrow>
          (let bo = next_backoff (rc_backoff s)
           in s\<lparr>rc_backoff := bo, rc_gate := leave_times E holds g,
                rc_fibers := rc_fibers s @ [Sleeping (unat (r mod 100) + 1000 * unat bo)]\<rparr>))"

definition rc_stop_call ::
    "('is, 'sem, 'gate) seastar_env \<Rightarrow> 'gate reconnect_client \<Rightarrow> 'gate reconnect_client" where
  "rc_stop_call E s = s\<lparr>rc_gate := gate_close E (rc_gate s), rc_stop := Stop_closing\<rparr>"

text \<open>The future of \<^verbatim>\<open>close\<close> resolves when the gate is empty; the client is stopped then.\<close>

definition rc_stop_continuation :: "'gate reconnect_client \<Rightarrow> 'gate reconnect_client" where
  "rc_stop_continuation s = s\<lparr>rc_stop := Stop_done\<rparr>"

datatype rc_event =
    Rc_connect bool
  | Rc_reconnected
  | Rc_failed u64
  | Rc_slept bool
  | Rc_stop
  | Rc_drained

inductive rc_step ::
    "('is, 'sem, 'gate) seastar_env \<Rightarrow> 'gate reconnect_client \<Rightarrow> rc_event \<Rightarrow> 'gate reconnect_client \<Rightarrow> bool"
  for E where
  rc_call: "rc_step E s (Rc_connect v) (rc_connect E v 0 s)"
| rc_ok: "rc_fibers s = fs @ Reconnecting n # gs \<Longrightarrow>
    rc_step E s Rc_reconnected (reconnect_succeeded E n (s\<lparr>rc_fibers := fs @ gs\<rparr>))"
| rc_fail: "rc_fibers s = fs @ Reconnecting n # gs \<Longrightarrow>
    rc_step E s (Rc_failed r) (reconnect_failed E r n (s\<lparr>rc_fibers := fs @ gs\<rparr>))"
| rc_wake: "rc_fibers s = fs @ Sleeping d # gs \<Longrightarrow>
    rc_step E s (Rc_slept v) (rc_connect E v 1 (s\<lparr>rc_fibers := fs @ gs\<rparr>))"
| rc_close: "rc_stop s = Not_stopped \<Longrightarrow> rc_step E s Rc_stop (rc_stop_call E s)"
| rc_drain: "rc_stop s = Stop_closing \<Longrightarrow> gate_drained E (rc_gate s) \<Longrightarrow>
    rc_step E s Rc_drained (rc_stop_continuation s)"

inductive_cases rc_stepE: "rc_step E s e t"

section \<open>Invariant\<close>

text \<open>What seastar documents of a gate: it counts the holds, and a closed gate admits none.\<close>

definition gate_counts :: "('is, 'sem, 'gate) seastar_env \<Rightarrow> ('gate \<Rightarrow> nat) \<Rightarrow> bool" where
  "gate_counts E cnt \<longleftrightarrow>
     cnt (gate_init E) = 0 \<and> \<not> gate_is_closed E (gate_init E) \<and>
     (\<forall>g. gate_is_closed E g \<longrightarrow> gate_enter E g = None) \<and>
     (\<forall>g. \<not> gate_is_closed E g \<longrightarrow> (\<exists>g'. gate_enter E g = Some g' \<and> cnt g' = Suc (cnt g) \<and>
        \<not> gate_is_closed E g')) \<and>
     (\<forall>g. cnt (gate_leave E g) = cnt g - 1 \<and> gate_is_closed E (gate_leave E g) = gate_is_closed E g) \<and>
     (\<forall>g. cnt (gate_close E g) = cnt g \<and> gate_is_closed E (gate_close E g)) \<and>
     (\<forall>g. gate_drained E g \<longleftrightarrow> cnt g = 0)"

fun holds_of :: "rfiber \<Rightarrow> nat" where
  "holds_of (Reconnecting n) = n"
| "holds_of (Sleeping d) = 1"

fun rfiber_ok :: "rfiber \<Rightarrow> bool" where
  "rfiber_ok (Reconnecting n) = (0 < n)"
| "rfiber_ok (Sleeping d) = (\<exists>b \<in> set (tl clamp_table). 1000 * unat b \<le> d \<and> d < 1000 * unat b + 100)"

definition rc_inv ::
    "('is, 'sem, 'gate) seastar_env \<Rightarrow> ('gate \<Rightarrow> nat) \<Rightarrow> 'gate reconnect_client \<Rightarrow> bool" where
  "rc_inv E cnt s \<longleftrightarrow>
     cnt (rc_gate s) = sum_list (map holds_of (rc_fibers s)) \<and>
     list_all rfiber_ok (rc_fibers s) \<and> rc_backoff s \<in> set clamp_table \<and>
     (gate_is_closed E (rc_gate s) \<longleftrightarrow> rc_stop s \<noteq> Not_stopped) \<and>
     (rc_stop s = Stop_done \<longrightarrow> rc_fibers s = [])"

lemma leave_times_counts:
  "gate_counts E cnt \<Longrightarrow> cnt (leave_times E n g) = cnt g - n \<and>
     gate_is_closed E (leave_times E n g) = gate_is_closed E g"
  by (induction n arbitrary: g) (auto simp: gate_counts_def)

lemma next_backoff_table:
  "b \<in> set clamp_table \<Longrightarrow> next_backoff b \<in> set (tl clamp_table)"
  by (auto simp: clamp_table_def next_backoff_def wait_1800_sec_def word_le_nat_alt)

lemma gate_enter_cases:
  "gate_counts E cnt \<Longrightarrow> gate_enter E g = None \<and> gate_is_closed E g \<or>
   (\<exists>g'. gate_enter E g = Some g' \<and> cnt g' = Suc (cnt g) \<and> \<not> gate_is_closed E g \<and> \<not> gate_is_closed E g')"
  by (cases "gate_is_closed E g") (auto simp: gate_counts_def)

lemma rc_connect_inv:
  assumes E: "gate_counts E cnt"
    and gate: "cnt (rc_gate s) = sum_list (map holds_of (rc_fibers s)) + h"
    and ok: "list_all rfiber_ok (rc_fibers s)" "rc_backoff s \<in> set clamp_table"
      "gate_is_closed E (rc_gate s) \<longleftrightarrow> rc_stop s \<noteq> Not_stopped"
      "rc_stop s = Stop_done \<longrightarrow> rc_fibers s = []"
  shows "rc_inv E cnt (rc_connect E v h s)"
proof (cases "v \<or> gate_is_closed E (rc_gate s)")
  case True
  then have "rc_connect E v h s = s\<lparr>rc_gate := leave_times E h (rc_gate s)\<rparr>"
    by (auto simp: rc_connect_def)
  then show ?thesis
    using leave_times_counts [OF E, of h "rc_gate s"] gate ok by (simp add: rc_inv_def)
next
  case False
  then obtain g where g: "gate_enter E (rc_gate s) = Some g" "cnt g = Suc (cnt (rc_gate s))"
      "\<not> gate_is_closed E g"
    using gate_enter_cases [OF E, of "rc_gate s"] by blast
  with False gate ok show ?thesis by (simp add: rc_connect_def rc_inv_def)
qed

lemma rc_inv_new: "gate_counts E cnt \<Longrightarrow> rc_inv E cnt (reconnect_client_new E)"
  by (simp add: rc_inv_def reconnect_client_new_def gate_counts_def backoff_none_def clamp_table_def)

lemma rc_succeeded_inv:
  assumes "gate_counts E cnt" "rc_inv E cnt s" "rc_fibers s = fs @ Reconnecting n # gs"
  shows "rc_inv E cnt (reconnect_succeeded E n (s\<lparr>rc_fibers := fs @ gs\<rparr>))"
  using assms leave_times_counts [OF assms(1), of n "rc_gate s"]
  by (auto simp: rc_inv_def reconnect_succeeded_def backoff_none_def clamp_table_def)

lemma rc_failed_inv:
  assumes E: "gate_counts E cnt" and s: "rc_inv E cnt s" "rc_fibers s = fs @ Reconnecting n # gs"
  shows "rc_inv E cnt (reconnect_failed E r n (s\<lparr>rc_fibers := fs @ gs\<rparr>))"
proof -
  let ?b = "next_backoff (rc_backoff s)"
  have b: "?b \<in> set (tl clamp_table)" "?b \<in> set clamp_table"
    using next_backoff_table s(1) by (auto simp: rc_inv_def clamp_table_def)
  have "unat (r mod 100) < 100" by (simp add: unat_mod)
  with b have "rfiber_ok (Sleeping (unat (r mod 100) + 1000 * unat ?b))"
    by (auto intro!: bexI [of _ ?b])
  then have sleeping: "rfiber_ok (Sleeping (unat (r mod 100) + 1000 * unat ?b)) = True" by simp
  show ?thesis
  proof (cases "gate_enter E (rc_gate s)")
    case None
    then show ?thesis
      using leave_times_counts [OF E, of n "rc_gate s"] s by (simp add: rc_inv_def reconnect_failed_def)
  next
    case (Some g)
    then have "cnt g = Suc (cnt (rc_gate s))" "\<not> gate_is_closed E g" "\<not> gate_is_closed E (rc_gate s)"
      using gate_enter_cases [OF E, of "rc_gate s"] by auto
    with Some show ?thesis
      using leave_times_counts [OF E, of n g] s b(2) sleeping
      by (simp add: rc_inv_def reconnect_failed_def Let_def del: rfiber_ok.simps)
  qed
qed

lemma rc_step_inv: "rc_step E s e t \<Longrightarrow> gate_counts E cnt \<Longrightarrow> rc_inv E cnt s \<Longrightarrow> rc_inv E cnt t"
proof (induction rule: rc_step.induct)
  case (rc_call s v)
  then show ?case by (intro rc_connect_inv) (auto simp: rc_inv_def)
next
  case (rc_wake s fs d gs v)
  then show ?case by (intro rc_connect_inv) (auto simp: rc_inv_def)
next
  case (rc_close s)
  then show ?case by (auto simp: rc_inv_def rc_stop_call_def gate_counts_def)
next
  case (rc_drain s)
  then have "sum_list (map holds_of (rc_fibers s)) = 0" by (auto simp: rc_inv_def gate_counts_def)
  moreover have "0 < holds_of f" if "f \<in> set (rc_fibers s)" for f
    using rc_drain that by (cases f) (auto simp: rc_inv_def list_all_iff)
  ultimately have "rc_fibers s = []" by (cases "rc_fibers s") fastforce+
  with rc_drain show ?case by (auto simp: rc_inv_def rc_stop_continuation_def)
qed (auto intro: rc_succeeded_inv rc_failed_inv)

interpretation rc: invariant_system "rc_step E" "\<lambda>s. gate_counts E cnt \<and> s = reconnect_client_new E"
    "\<lambda>e. True" "\<lambda>s. gate_counts E cnt \<and> rc_inv E cnt s"
  for E cnt
  by unfold_locales (auto intro: rc_inv_new rc_step_inv)

text \<open>
  C32: a stopped client is quiet. In every reachable state of a reconnecting client the gate
  holds exactly what the running reconnects and sleeps hold, every sleep lasts a positive
  entry of the backoff table plus less than 100 ms of jitter; and once \<^verbatim>\<open>stop\<close> has resolved no
  reconnect and no sleep is left, and none starts again, whatever is called.
\<close>

theorem stopped_client_quiet:
  assumes "gate_counts E cnt" "run (rc_step E) (reconnect_client_new E) es s"
  shows "cnt (rc_gate s) = sum_list (map holds_of (rc_fibers s)) \<and>
    list_all rfiber_ok (rc_fibers s) \<and> rc_backoff s \<in> set clamp_table \<and>
    (rc_stop s = Stop_done \<longrightarrow> rc_fibers s = [] \<and>
      (\<forall>es' t. run (rc_step E) s es' t \<longrightarrow> rc_fibers t = [] \<and> rc_attempts t = rc_attempts s))"
proof -
  have inv: "rc_inv E cnt s"
    using rc.inv_run [of E cnt "reconnect_client_new E" es s] assms by (simp add: list.pred_True)
  have "rc_stop t = Stop_done \<and> rc_fibers t = [] \<and> rc_attempts t = rc_attempts s"
    if "run (rc_step E) s es' t" "rc_stop s = Stop_done" for es' t
    using that inv
  proof (induction rule: run.induct)
    case (run_nil u)
    then show ?case by (simp add: rc_inv_def)
  next
    case (run_cons u e v es' t)
    have "rc_inv E cnt v" by (rule rc_step_inv [OF run_cons.hyps(1) assms(1) run_cons.prems(2)])
    moreover have "rc_stop v = Stop_done \<and> rc_attempts v = rc_attempts u"
      using run_cons.hyps(1) run_cons.prems
      by (cases rule: rc_step.cases) (auto simp: rc_connect_def rc_inv_def)
    ultimately show ?case using run_cons.IH by simp
  qed
  with inv show ?thesis by (auto simp: rc_inv_def)
qed

text \<open>An executable scheduler: the first fiber that the event can concern.\<close>

fun pick :: "(rfiber \<Rightarrow> bool) \<Rightarrow> rfiber list \<Rightarrow> (rfiber \<times> rfiber list) option" where
  "pick P [] = None"
| "pick P (f # fs) = (if P f then Some (f, fs) else map_option (\<lambda>(g, gs). (g, f # gs)) (pick P fs))"

fun is_reconnecting :: "rfiber \<Rightarrow> bool" where
  "is_reconnecting (Reconnecting n) = True"
| "is_reconnecting (Sleeping d) = False"

fun rc_act ::
    "('is, 'sem, 'gate) seastar_env \<Rightarrow> 'gate reconnect_client \<Rightarrow> rc_event \<Rightarrow> 'gate reconnect_client option" where
  "rc_act E s (Rc_connect v) = Some (rc_connect E v 0 s)"
| "rc_act E s Rc_reconnected = (case pick is_reconnecting (rc_fibers s) of
     Some (Reconnecting n, fs) \<Rightarrow> Some (reconnect_succeeded E n (s\<lparr>rc_fibers := fs\<rparr>)) | _ \<Rightarrow> None)"
| "rc_act E s (Rc_failed r) = (case pick is_reconnecting (rc_fibers s) of
     Some (Reconnecting n, fs) \<Rightarrow> Some (reconnect_failed E r n (s\<lparr>rc_fibers := fs\<rparr>)) | _ \<Rightarrow> None)"
| "rc_act E s (Rc_slept v) = (case pick (\<lambda>f. \<not> is_reconnecting f) (rc_fibers s) of
     Some (Sleeping d, fs) \<Rightarrow> Some (rc_connect E v 1 (s\<lparr>rc_fibers := fs\<rparr>)) | _ \<Rightarrow> None)"
| "rc_act E s Rc_stop = (if rc_stop s = Not_stopped then Some (rc_stop_call E s) else None)"
| "rc_act E s Rc_drained =
     (if rc_stop s = Stop_closing \<and> gate_drained E (rc_gate s) then Some (rc_stop_continuation s) else None)"

fun rc_play ::
    "('is, 'sem, 'gate) seastar_env \<Rightarrow> 'gate reconnect_client \<Rightarrow> rc_event list \<Rightarrow> 'gate reconnect_client option" where
  "rc_play E s [] = Some s"
| "rc_play E s (e # es) = (case rc_act E s e of None \<Rightarrow> None | Some t \<Rightarrow> rc_play E t es)"

lemma pick_SomeD: "pick P fs = Some (f, gs) \<Longrightarrow> \<exists>xs ys. fs = xs @ f # ys \<and> gs = xs @ ys"
proof (induction fs arbitrary: gs)
  case (Cons x fs)
  show ?case
  proof (cases "P x")
    case True
    with Cons.prems show ?thesis by (intro exI [of _ "[]"] exI [of _ fs]) auto
  next
    case False
    with Cons.prems obtain hs where "pick P fs = Some (f, hs)" "gs = x # hs" by auto
    with Cons.IH obtain xs ys where "fs = xs @ f # ys" "hs = xs @ ys" by blast
    with \<open>gs = x # hs\<close> show ?thesis by (intro exI [of _ "x # xs"] exI [of _ ys]) simp
  qed
qed simp

lemma pick_reconnecting:
  assumes "pick is_reconnecting (rc_fibers s) = Some (Reconnecting n, fs)"
  shows "rc_step E s Rc_reconnected (reconnect_succeeded E n (s\<lparr>rc_fibers := fs\<rparr>))"
    and "rc_step E s (Rc_failed r) (reconnect_failed E r n (s\<lparr>rc_fibers := fs\<rparr>))"
  using pick_SomeD [OF assms] by (auto intro: rc_ok rc_fail)

lemma pick_sleeping:
  "pick (\<lambda>f. \<not> is_reconnecting f) (rc_fibers s) = Some (Sleeping d, fs) \<Longrightarrow>
   rc_step E s (Rc_slept v) (rc_connect E v 1 (s\<lparr>rc_fibers := fs\<rparr>))"
  by (drule pick_SomeD) (auto simp only: intro: rc_wake)

lemma rc_act_step:
  assumes "rc_act E s e = Some t"
  shows "rc_step E s e t"
proof (cases e)
  case Rc_reconnected
  with assms show ?thesis
    by (auto split: option.split_asm rfiber.split_asm intro: pick_reconnecting)
next
  case (Rc_failed r)
  with assms show ?thesis
    by (auto split: option.split_asm rfiber.split_asm intro: pick_reconnecting)
next
  case (Rc_slept v)
  with assms show ?thesis
    by (auto simp del: One_nat_def split: option.split_asm rfiber.split_asm intro: pick_sleeping)
qed (use assms in \<open>auto split: if_split_asm intro: rc_call rc_close rc_drain\<close>)

lemma rc_play_run: "rc_play E s es = Some t \<Longrightarrow> run (rc_step E) s es t"
  by (induction E s es rule: rc_play.induct)
    (auto split: option.splits intro: run.intros rc_act_step)

lemma example_gate_counts: "gate_counts example_env fst"
  by (auto simp: gate_counts_def example_env_def)

definition example_outage :: "rc_event list" where
  "example_outage = [Rc_connect False, Rc_failed 7, Rc_slept False, Rc_failed 123]"

lemmas rc_eval = example_outage_def reconnect_client_new_def rc_connect_def reconnect_failed_def
  reconnect_succeeded_def rc_stop_call_def rc_stop_continuation_def example_env_def
  backoff_none_def wait_1800_sec_def next_backoff_def clamp_table_def

theorem stopped_client_quiet_witness:
  "\<exists>s. run (rc_step example_env) (reconnect_client_new example_env)
      (example_outage @ [Rc_stop, Rc_slept False, Rc_drained]) s \<and>
    rc_stop s = Stop_done \<and> rc_attempts s = 2 \<and> rc_fibers s = [] \<and>
    (\<forall>es' t. run (rc_step example_env) s es' t \<longrightarrow> rc_attempts t = 2)"
proof -
  have "\<exists>s. rc_play example_env (reconnect_client_new example_env)
      (example_outage @ [Rc_stop, Rc_slept False, Rc_drained]) = Some s \<and>
      rc_stop s = Stop_done \<and> rc_attempts s = 2"
    by (simp add: rc_eval word_le_nat_alt)
  then obtain s where s: "run (rc_step example_env) (reconnect_client_new example_env)
      (example_outage @ [Rc_stop, Rc_slept False, Rc_drained]) s"
    "rc_stop s = Stop_done" "rc_attempts s = 2"
    using rc_play_run by blast
  from stopped_client_quiet [OF example_gate_counts s(1)] s show ?thesis by metis
qed

section \<open>A failing client keeps trying\<close>

definition retry_inv ::
    "('is, 'sem, 'gate) seastar_env \<Rightarrow> 'gate reconnect_client \<Rightarrow> bool" where
  "retry_inv E s \<longleftrightarrow>
     (rc_backoff s \<noteq> backoff_none \<and> \<not> gate_is_closed E (rc_gate s) \<longrightarrow> rc_fibers s \<noteq> [])"

lemma retry_step:
  assumes "rc_step E s e t" "gate_counts E cnt" "retry_inv E s" "e \<noteq> Rc_slept True"
  shows "retry_inv E t"
  using assms(1)
proof cases
  case (rc_call v)
  then show ?thesis
    using assms(3) gate_enter_cases [OF assms(2), of "rc_gate s"]
    by (auto simp: retry_inv_def rc_connect_def)
next
  case (rc_fail fs n gs r)
  then show ?thesis
    using gate_enter_cases [OF assms(2), of "rc_gate s"] leave_times_counts [OF assms(2), of n "rc_gate s"]
    by (auto simp: retry_inv_def reconnect_failed_def Let_def)
next
  case (rc_wake fs d gs v)
  then show ?thesis
    using assms(4) gate_enter_cases [OF assms(2), of "rc_gate s"]
      leave_times_counts [OF assms(2), of 1 "rc_gate s"]
    by (auto simp: retry_inv_def rc_connect_def)
next
  case rc_close
  then show ?thesis using assms(2) by (auto simp: retry_inv_def rc_stop_call_def gate_counts_def)
qed (use assms(3) in \<open>auto simp: retry_inv_def reconnect_succeeded_def rc_stop_continuation_def\<close>)

lemma retry_new: "retry_inv E (reconnect_client_new E)"
  by (simp add: retry_inv_def reconnect_client_new_def)

interpretation retry: invariant_system "rc_step E" "\<lambda>s. gate_counts E cnt \<and> s = reconnect_client_new E"
    "\<lambda>e. e \<noteq> Rc_slept True" "\<lambda>s. gate_counts E cnt \<and> retry_inv E s"
  for E cnt
  by unfold_locales (auto intro: retry_step retry_new)



end
