(* ===== verification/Histogram.thy ===== *)
theory Histogram
  imports Smf_Prelude
begin

text \<open>
  Latency histograms (histogram.h, histogram.cc, unique_histogram_adder.h): the counters kept
  beside the hdr_histogram library, and the export with a fixed number of buckets. The
  library is a record of functions over its state \<open>'h\<close> and its iterator \<open>'it\<close>.
\<close>

section \<open>State and operations\<close>

record ('h, 'it) hdr_lib =
  hdr_init :: "int \<Rightarrow> 'h option"
  hdr_record_value :: "'h \<Rightarrow> int \<Rightarrow> 'h"
  hdr_record_values :: "'h \<Rightarrow> int \<Rightarrow> nat \<Rightarrow> 'h"
  hdr_record_corrected_value :: "'h \<Rightarrow> int \<Rightarrow> int \<Rightarrow> 'h"
  hdr_add :: "'h \<Rightarrow> 'h \<Rightarrow> 'h"
  hdr_iter_log_init :: "'h \<Rightarrow> int \<Rightarrow> int \<Rightarrow> 'it"
  hdr_iter_next :: "'it \<Rightarrow> bool \<times> 'it"
  hdr_cumulative_count :: "'it \<Rightarrow> int"
  hdr_value_iterated_to :: "'it \<Rightarrow> int"

definition kDefaultHistogramMaxValue :: int where
  "kDefaultHistogramMaxValue = 3600000000"

record 'h hist_t =
  ht_hist :: 'h
  ht_sample_count :: u64
  ht_sample_sum :: u64

text \<open>\<^verbatim>\<open>make_unique\<close> and \<^verbatim>\<open>make_lw_shared\<close>: the assertion fails when the library has no memory.\<close>

definition histogram_make :: "('h, 'it) hdr_lib \<Rightarrow> int \<Rightarrow> 'h hist_t res" where
  "histogram_make L max_value =
     (case hdr_init L max_value of
        None \<Rightarrow> Inl Assertion_failed
      | Some h \<Rightarrow> Inr \<lparr>ht_hist = h, ht_sample_count = 0, ht_sample_sum = 0\<rparr>)"

definition histogram_add :: "('h, 'it) hdr_lib \<Rightarrow> 'h hist_t \<Rightarrow> 'h hist_t \<Rightarrow> 'h hist_t" where
  "histogram_add L h o' = h\<lparr>ht_hist := hdr_add L (ht_hist h) (ht_hist o')\<rparr>"

definition record_value :: "('h, 'it) hdr_lib \<Rightarrow> u64 \<Rightarrow> 'h hist_t \<Rightarrow> 'h hist_t" where
  "record_value L v h =
     h\<lparr>ht_sample_count := ht_sample_count h + 1, ht_sample_sum := ht_sample_sum h + v,
       ht_hist := hdr_record_value L (ht_hist h) (sint v)\<rparr>"

definition record_multiple_times :: "('h, 'it) hdr_lib \<Rightarrow> u64 \<Rightarrow> u32 \<Rightarrow> 'h hist_t \<Rightarrow> 'h hist_t" where
  "record_multiple_times L v n h =
     h\<lparr>ht_sample_count := ht_sample_count h + ucast n,
       ht_sample_sum := ht_sample_sum h + v * ucast n,
       ht_hist := hdr_record_values L (ht_hist h) (sint v) (unat n)\<rparr>"

definition record_corrected :: "('h, 'it) hdr_lib \<Rightarrow> u64 \<Rightarrow> u64 \<Rightarrow> 'h hist_t \<Rightarrow> 'h hist_t" where
  "record_corrected L v interval h =
     h\<lparr>ht_sample_count := ht_sample_count h + 1, ht_sample_sum := ht_sample_sum h + v,
       ht_hist := hdr_record_corrected_value L (ht_hist h) (sint v) (sint interval)\<rparr>"

text \<open>
  The scope guard \<^verbatim>\<open>histogram_measure\<close>: its destructor records the microseconds between its
  two readings of the clock, if it has a histogram and tracing is on.
\<close>

record histogram_measure =
  hm_trace :: bool
  hm_begin :: u64

definition histogram_measure_new :: "u64 \<Rightarrow> histogram_measure" where
  "histogram_measure_new now = \<lparr>hm_trace = True, hm_begin = now\<rparr>"

definition set_trace :: "bool \<Rightarrow> histogram_measure \<Rightarrow> histogram_measure" where
  "set_trace b m = m\<lparr>hm_trace := b\<rparr>"

definition histogram_measure_end ::
    "('h, 'it) hdr_lib \<Rightarrow> u64 \<Rightarrow> histogram_measure \<Rightarrow> 'h hist_t option \<Rightarrow> 'h hist_t option" where
  "histogram_measure_end L now m h =
     (case h of
        None \<Rightarrow> None
      | Some h' \<Rightarrow> if hm_trace m then Some (record_value L (now - hm_begin m) h') else Some h')"

section \<open>Merging\<close>

text \<open>\<^verbatim>\<open>unique_histogram_adder\<close>: a null pointer is skipped.\<close>

definition adder_add :: "('h, 'it) hdr_lib \<Rightarrow> 'h hist_t \<Rightarrow> 'h hist_t option \<Rightarrow> 'h hist_t" where
  "adder_add L result value = (case value of None \<Rightarrow> result | Some v \<Rightarrow> histogram_add L result v)"

text \<open>\<^verbatim>\<open>rpc_server::copy_histogram\<close>.\<close>

definition server_copy_histogram :: "('h, 'it) hdr_lib \<Rightarrow> 'h hist_t \<Rightarrow> 'h hist_t res" where
  "server_copy_histogram L hist =
     rbind (histogram_make L kDefaultHistogramMaxValue) (\<lambda>h. Inr (histogram_add L h hist))"

text \<open>
  A merged histogram has no samples. Whatever histograms are merged, through the adder or
  one by one, the counters of the samples and of their sum stay 0, although the library's
  histogram is the sum of theirs; the export then reports 0 samples over full buckets.
\<close>

lemma merged_histogram_has_no_samples:
  assumes "histogram_make L kDefaultHistogramMaxValue = Inr h"
  shows "ht_sample_count (foldl (adder_add L) h vs) = 0 \<and> ht_sample_sum (foldl (adder_add L) h vs) = 0 \<and>
    ht_hist (foldl (adder_add L) h vs) =
      foldl (hdr_add L) (ht_hist h) (map ht_hist (List.map_filter (\<lambda>v. v) vs))"
proof -
  have "ht_sample_count (foldl (adder_add L) g vs) = ht_sample_count g \<and>
      ht_sample_sum (foldl (adder_add L) g vs) = ht_sample_sum g \<and>
      ht_hist (foldl (adder_add L) g vs) =
        foldl (hdr_add L) (ht_hist g) (map ht_hist (List.map_filter (\<lambda>v. v) vs))" for g
    by (induction vs arbitrary: g)
      (auto simp: adder_add_def histogram_add_def List.map_filter_simps split: option.split)
  then show ?thesis
    using assms by (auto simp: histogram_make_def split: option.splits)
qed

text \<open>A small instance of the library: the list of the recorded values.\<close>

fun doublings :: "nat \<Rightarrow> int \<Rightarrow> int \<Rightarrow> nat" where
  "doublings 0 b m = 0"
| "doublings (Suc fuel) b m = (if m < b then 0 else Suc (doublings fuel (2 * b) m))"

definition list_hdr :: "(int list, (int \<times> int) list \<times> int \<times> int) hdr_lib" where
  "list_hdr = \<lparr>hdr_init = (\<lambda>m. Some []), hdr_record_value = (\<lambda>h v. h @ [v]),
     hdr_record_values = (\<lambda>h v n. h @ replicate n v),
     hdr_record_corrected_value = (\<lambda>h v i. h @ [v]), hdr_add = (\<lambda>h g. h @ g),
     hdr_iter_log_init = (\<lambda>h first base. (map (\<lambda>i. (int (length (filter (\<lambda>v. v < first * base ^ i) h)), first * base ^ i))
        [0..<if h = [] then 0 else Suc (doublings 64 first (foldl max 0 h))], 0, 0)),
     hdr_iter_next = (\<lambda>(rest, c, v). case rest of [] \<Rightarrow> (False, ([], c, v)) | (c', v') # r \<Rightarrow> (True, (r, c', v'))),
     hdr_cumulative_count = (\<lambda>(rest, c, v). c), hdr_value_iterated_to = (\<lambda>(rest, c, v). v)\<rparr>"

lemma merged_histogram_has_no_samples_witness:
  "\<exists>h g. histogram_make list_hdr kDefaultHistogramMaxValue = Inr h \<and>
     g = record_value list_hdr 5 h \<and> ht_sample_count g = 1 \<and>
     ht_sample_count (foldl (adder_add list_hdr) h [Some g, None, Some g]) = 0 \<and>
     ht_hist (foldl (adder_add list_hdr) h [Some g, None, Some g]) = [5, 5]"
proof -
  obtain h where h: "histogram_make list_hdr kDefaultHistogramMaxValue = Inr h"
    by (simp add: histogram_make_def list_hdr_def)
  then have e: "ht_hist h = []" "ht_sample_count h = 0"
    by (auto simp: histogram_make_def list_hdr_def)
  from merged_histogram_has_no_samples [OF h, of "[Some (record_value list_hdr 5 h), None, Some (record_value list_hdr 5 h)]"]
  show ?thesis
    using h e by (auto simp: record_value_def list_hdr_def List.map_filter_simps)
qed

section \<open>Repeated values\<close>

text \<open>
  Recording a value \<open>n\<close> times at once is recording it \<open>n\<close> times, in the library's
  histogram and in both counters (modulo 2^64), if the library's bulk operation is its
  single one repeated.
\<close>

lemma record_multiple_times_repeats:
  assumes "\<And>h v n. hdr_record_values L h v n = ((\<lambda>h. hdr_record_value L h v) ^^ n) h"
  shows "record_multiple_times L v n h = (record_value L v ^^ unat n) h"
proof -
  have "(record_value L v ^^ k) h =
      h\<lparr>ht_sample_count := ht_sample_count h + word_of_nat k, ht_sample_sum := ht_sample_sum h + v * word_of_nat k,
        ht_hist := ((\<lambda>h. hdr_record_value L h (sint v)) ^^ k) (ht_hist h)\<rparr>" for k
    by (induction k) (simp_all add: record_value_def algebra_simps)
  moreover have "ucast n = (word_of_nat (unat n) :: u64)"
    by (simp add: unsigned_ucast_eq word_unat_eq_iff flip: unsigned_of_nat)
  ultimately show ?thesis by (simp add: record_multiple_times_def assms)
qed

lemma record_multiple_times_repeats_witness:
  "record_multiple_times list_hdr 9 3 \<lparr>ht_hist = [], ht_sample_count = 1, ht_sample_sum = 4\<rparr> =
   (record_value list_hdr 9 ^^ unat (3 :: u32)) \<lparr>ht_hist = [], ht_sample_count = 1, ht_sample_sum = 4\<rparr>"
proof (rule record_multiple_times_repeats)
  fix h v n
  show "hdr_record_values list_hdr h v n = ((\<lambda>h. hdr_record_value list_hdr h v) ^^ n) h"
  proof (induction n)
    case (Suc n)
    have "replicate (Suc n) v = replicate n v @ [v]" by (simp add: replicate_append_same)
    with Suc show ?case by (simp add: list_hdr_def)
  qed (simp add: list_hdr_def)
qed

section \<open>The export to seastar's metrics\<close>

text \<open>
  A bucket is its cumulative count and its upper bound; the conversions of the bounds and of
  the sum of the samples to floating point are left out.
\<close>

record seastar_histogram =
  ss_sample_count :: u64
  ss_sample_sum :: u64
  ss_buckets :: "(int \<times> int) list"

definition num_buckets :: nat where
  "num_buckets = 26"

definition first_value :: int where
  "first_value = 10"

definition log_base :: int where
  "log_base = 2"

text \<open>
  The loop over the iterator, with the number of buckets left: the iterator is advanced
  before the bound is checked.
\<close>

fun fill_buckets :: "('h, 'it) hdr_lib \<Rightarrow> nat \<Rightarrow> 'it \<Rightarrow> (int \<times> int) list \<times> 'it" where
  "fill_buckets L 0 iter = ([], snd (hdr_iter_next L iter))"
| "fill_buckets L (Suc n) iter =
     (case hdr_iter_next L iter of
        (False, iter') \<Rightarrow> ([], iter')
      | (True, iter') \<Rightarrow>
          (let (bs, iter'') = fill_buckets L n iter'
           in ((hdr_cumulative_count L iter', hdr_value_iterated_to L iter') # bs, iter'')))"

text \<open>The loop that pads.\<close>

fun pad_buckets :: "nat \<Rightarrow> int \<Rightarrow> int \<Rightarrow> (int \<times> int) list" where
  "pad_buckets 0 count value = []"
| "pad_buckets (Suc n) count value = (count, value) # pad_buckets n count (value * log_base)"

definition seastar_histogram_logform :: "('h, 'it) hdr_lib \<Rightarrow> 'h hist_t \<Rightarrow> seastar_histogram" where
  "seastar_histogram_logform L h =
     (let (bs, iter) = fill_buckets L num_buckets (hdr_iter_log_init L (ht_hist h) first_value log_base);
          bucket_idx = length bs;
          value = (if bucket_idx = 0 then first_value
            else if bucket_idx < num_buckets then hdr_value_iterated_to L iter * log_base
            else hdr_value_iterated_to L iter)
      in \<lparr>ss_sample_count = ht_sample_count h, ss_sample_sum = ht_sample_sum h,
          ss_buckets = bs @ pad_buckets (num_buckets - bucket_idx) (hdr_cumulative_count L iter) value\<rparr>)"

text \<open>
  What the library documents of its logarithmic iteration: step \<open>i\<close> reports the bound
  \<open>first * base ^ i\<close> and the number of values up to it, and after the last step the iterator
  stays as it is.
\<close>

fun iterates :: "('h, 'it) hdr_lib \<Rightarrow> 'it \<Rightarrow> (int \<times> int) list \<Rightarrow> bool" where
  "iterates L iter [] \<longleftrightarrow> (case hdr_iter_next L iter of (ok, iter') \<Rightarrow> \<not> ok \<and>
     hdr_cumulative_count L iter' = hdr_cumulative_count L iter \<and>
     hdr_value_iterated_to L iter' = hdr_value_iterated_to L iter)"
| "iterates L iter ((c, v) # rest) \<longleftrightarrow> (case hdr_iter_next L iter of (ok, iter') \<Rightarrow> ok \<and>
     hdr_cumulative_count L iter' = c \<and> hdr_value_iterated_to L iter' = v \<and> iterates L iter' rest)"

definition log_law :: "('h, 'it) hdr_lib \<Rightarrow> 'h \<Rightarrow> int list \<Rightarrow> bool" where
  "log_law L h counts \<longleftrightarrow>
     hdr_cumulative_count L (hdr_iter_log_init L h first_value log_base) = 0 \<and>
     iterates L (hdr_iter_log_init L h first_value log_base)
       (map (\<lambda>i. (counts ! i, first_value * log_base ^ i)) [0..<length counts])"

lemma fill_buckets_iterates:
  assumes "iterates L iter steps"
  shows "fst (fill_buckets L n iter) = take n steps \<and>
    (length steps \<le> n \<longrightarrow>
      hdr_cumulative_count L (snd (fill_buckets L n iter)) = last (hdr_cumulative_count L iter # map fst steps) \<and>
      hdr_value_iterated_to L (snd (fill_buckets L n iter)) = last (hdr_value_iterated_to L iter # map snd steps))"
  using assms
proof (induction L n iter arbitrary: steps rule: fill_buckets.induct)
  case (1 L iter)
  then show ?case by (cases steps) (auto split: prod.splits)
next
  case (2 L n iter)
  show ?case
  proof (cases steps)
    case Nil
    with 2 show ?thesis by (auto split: prod.splits bool.splits)
  next
    case (Cons cv rest)
    obtain c v where "cv = (c, v)" by fastforce
    moreover obtain iter' where n: "hdr_iter_next L iter = (True, iter')" "hdr_cumulative_count L iter' = c"
      "hdr_value_iterated_to L iter' = v" "iterates L iter' rest"
      using 2(2) Cons \<open>cv = (c, v)\<close> by (auto split: prod.splits)
    ultimately show ?thesis
      using 2(1) [OF n(1) [symmetric] refl n(4)] Cons by (auto simp: split_def Let_def)
  qed
qed

lemma pad_buckets_map:
  "pad_buckets n c v = map (\<lambda>i. (c, v * log_base ^ i)) [0..<n]"
proof (induction n arbitrary: v)
  case (Suc n)
  have "[0..<Suc n] = 0 # map Suc [0..<n]" by (simp add: map_Suc_upt upt_conv_Cons)
  with Suc show ?case by (simp add: algebra_simps)
qed simp


lemma log_law_example: "log_law list_hdr [15, 70, 5, 9] [2, 3, 3, 4]"
  by (simp add: log_law_def list_hdr_def first_value_def log_base_def upt_rec numeral_eq_Suc)


end
