(* ===== verification/Load_Generator.thy ===== *)
theory Load_Generator
  imports Rpc_Server_Memory Rpc_Client Histogram
begin

text \<open>
  The load generator (load_generator.h, load_channel.h, load_generator_args.h,
  load_generator_duration.h): its configuration, the clients of its channels, and
  \<^verbatim>\<open>benchmark\<close> as a transition system in which the channels interleave. The rates printed
  at the end are floating point and are left out.
\<close>

section \<open>Configuration\<close>

record load_generator_args =
  la_server_addr :: address
  la_num_of_req :: u64
  la_concurrency :: u64
  la_memory_per_core :: u64
  la_compression :: byte
  la_credentials :: "nat option"

definition kMinMemory :: u64 where
  "kMinMemory = push_bit 24 1"

definition load_generator_args_new ::
    "address \<Rightarrow> u64 \<Rightarrow> u64 \<Rightarrow> u64 \<Rightarrow> byte \<Rightarrow> load_generator_args res" where
  "load_generator_args_new addr num_of_req concurrency memory_per_core compression =
     (if memory_per_core < kMinMemory \<and> concurrency > 1
      then Inl (Runtime_error ''Cfg error. memory < 16MB per connection.'')
      else Inr \<lparr>la_server_addr = addr, la_num_of_req = num_of_req, la_concurrency = concurrency,
        la_memory_per_core = memory_per_core, la_compression = compression, la_credentials = None\<rparr>)"

text \<open>The client of a channel: its memory, and the filters of the compression asked for.\<close>

definition load_channel_new ::
    "('is, 'sem, 'gate) seastar_env \<Rightarrow> zstd_lib \<Rightarrow> lz4_lib \<Rightarrow> address \<Rightarrow> u64 \<Rightarrow> byte \<Rightarrow> nat option \<Rightarrow>
     ('is, 'sem, 'gate) rpc_client" where
  "load_channel_new E Z L addr mem compression credentials =
     (let opts = (rpc_client_opts_default addr)\<lparr>copt_memory_avail_for_client := mem,
            copt_credentials := credentials\<rparr>;
          client = enable_histogram_metrics (rpc_client_new E opts)
      in if compression = compression_flags_zstd then
           client\<lparr>cli_in_filters := cli_in_filters client @ [zstd_decompression_filter (env_xxh E) Z],
             cli_out_filters := cli_out_filters client @ [zstd_compression_filter (env_xxh E) Z 1024]\<rparr>
         else if compression = compression_flags_lz4 then
           client\<lparr>cli_in_filters := cli_in_filters client @ [lz4_decompression_filter (env_xxh E) L],
             cli_out_filters := cli_out_filters client @ [lz4_compression_filter (env_xxh E) L 1024]\<rparr>
         else client)"

definition load_generator_new ::
    "('is, 'sem, 'gate) seastar_env \<Rightarrow> zstd_lib \<Rightarrow> lz4_lib \<Rightarrow> load_generator_args \<Rightarrow>
     ('is, 'sem, 'gate) rpc_client list" where
  "load_generator_new E Z L cfg =
     map (\<lambda>i. load_channel_new E Z L (la_server_addr cfg)
       (la_memory_per_core cfg div la_concurrency cfg) (la_compression cfg) (la_credentials cfg))
     [0..<unat (la_concurrency cfg)]"

text \<open>
  \<^verbatim>\<open>connect\<close> and \<^verbatim>\<open>stop\<close> call the operation of that name of every channel's client, in
  order, and wait for all of them.
\<close>

definition load_generator_connect ::
    "('is, 'sem, 'gate) seastar_env \<Rightarrow> ('is, 'sem, 'gate) rpc_client list \<Rightarrow> ('is, 'sem, 'gate) rpc_client list" where
  "load_generator_connect E channels = map (connect E) channels"

definition load_generator_stop ::
    "('is, 'sem, 'gate) seastar_env \<Rightarrow> ('is, 'sem, 'gate) rpc_client list \<Rightarrow> ('is, 'sem, 'gate) rpc_client list" where
  "load_generator_stop E channels = map (cli_stop E) channels"

text \<open>Every channel of a new load generator starts to connect.\<close>

lemma load_generator_connects:
  "length (load_generator_connect E (load_generator_new E Z L cfg)) = unat (la_concurrency cfg) \<and>
   list_all (\<lambda>c. cfibers c = [Connecting] \<and> connect_results c = [] \<and> server_addr c = la_server_addr cfg)
     (load_generator_connect E (load_generator_new E Z L cfg))"
  by (auto simp: load_generator_connect_def load_generator_new_def load_channel_new_def connect_def
      rpc_client_new_def is_conn_valid_def enable_histogram_metrics_def rpc_client_opts_default_def
      list_all_iff Let_def)

text \<open>\<^verbatim>\<open>copy_histogram\<close> merges the histograms of the channels.\<close>

definition copy_histogram :: "('h, 'it) hdr_lib \<Rightarrow> 'h hist_t list \<Rightarrow> 'h hist_t res" where
  "copy_histogram L hs =
     rbind (histogram_make L kDefaultHistogramMaxValue) (\<lambda>h. Inr (foldl (histogram_add L) h hs))"

section \<open>A benchmark\<close>

text \<open>
  \<^verbatim>\<open>std::ceil\<close> is applied to the quotient of the integers, and is the identity there. The
  conversion of a larger quotient to 32 bits is undefined, as is the division by 0.
\<close>

definition reqs_per_channel :: "load_generator_args \<Rightarrow> u32 res" where
  "reqs_per_channel cfg =
     (if la_concurrency cfg = 0 then Inl (Undefined_behaviour ''division by zero'')
      else let q = la_num_of_req cfg div la_concurrency cfg
      in if unat q \<ge> 2 ^ 32 then Inl (Undefined_behaviour ''conversion to uint32_t'')
         else Inr (max 1 (ucast q)))"

record load_generator_duration =
  ld_num_of_req :: u64
  ld_total_bytes :: u64
  ld_begun :: bool
  ld_ended :: bool

definition load_generator_duration_new :: "u64 \<Rightarrow> load_generator_duration" where
  "load_generator_duration_new reqs =
     \<lparr>ld_num_of_req = reqs, ld_total_bytes = 0, ld_begun = False, ld_ended = False\<rparr>"

text \<open>
  A channel waits for the semaphore, is about to send its next request with \<open>k\<close> requests
  to go, has a request in flight with \<open>k\<close> to go after it, or has finished.
\<close>

datatype chan =
    Chan_waiting
  | Chan_next nat
  | Chan_call nat
  | Chan_finished

record 'sem bench =
  bn_limit :: 'sem
  bn_chans :: "chan list"
  bn_duration :: load_generator_duration
  bn_sent :: "u64 list"

definition benchmark ::
    "('is, 'sem, 'gate) seastar_env \<Rightarrow> load_generator_args \<Rightarrow> 'sem bench res" where
  "benchmark E cfg =
     rbind (reqs_per_channel cfg) (\<lambda>reqs.
       Inr \<lparr>bn_limit = sem_init E (la_concurrency cfg),
            bn_chans = replicate (unat (la_concurrency cfg)) Chan_waiting,
            bn_duration = (load_generator_duration_new (ucast reqs))\<lparr>ld_begun := True\<rparr>,
            bn_sent = []\<rparr>)"

text \<open>\<^verbatim>\<open>invoke\<close>, once the semaphore let the channel in.\<close>

definition launch ::
    "('is, 'sem, 'gate) seastar_env \<Rightarrow> u32 \<Rightarrow> nat \<Rightarrow> 'sem bench \<Rightarrow> 'sem bench option" where
  "launch E reqs i s =
     (case sem_wait E (bn_limit s) 1 of
        None \<Rightarrow> None
      | Some l \<Rightarrow> Some (s\<lparr>bn_limit := l, bn_chans := (bn_chans s)[i := Chan_next (unat reqs)]\<rparr>))"

definition issue :: "u64 \<Rightarrow> nat \<Rightarrow> nat \<Rightarrow> 'sem bench \<Rightarrow> 'sem bench" where
  "issue sz i k s =
     s\<lparr>bn_duration := (bn_duration s)\<lparr>ld_total_bytes := ld_total_bytes (bn_duration s) + sz\<rparr>,
       bn_sent := bn_sent s @ [sz], bn_chans := (bn_chans s)[i := Chan_call k]\<rparr>"

text \<open>The call returns: the loop goes on, or ends (also on an exception) and gives its unit back.\<close>

definition complete ::
    "('is, 'sem, 'gate) seastar_env \<Rightarrow> outcome \<Rightarrow> nat \<Rightarrow> nat \<Rightarrow> 'sem bench \<Rightarrow> 'sem bench" where
  "complete E oc i k s =
     (if oc = Proceed \<and> k \<noteq> 0 then s\<lparr>bn_chans := (bn_chans s)[i := Chan_next k]\<rparr>
      else s\<lparr>bn_chans := (bn_chans s)[i := Chan_finished], bn_limit := sem_signal E (bn_limit s) 1\<rparr>)"

text \<open>All channels are launched and all units are back.\<close>

definition bench_end ::
    "('is, 'sem, 'gate) seastar_env \<Rightarrow> u64 \<Rightarrow> 'sem bench \<Rightarrow> 'sem bench option" where
  "bench_end E concurrency s =
     (case sem_wait E (bn_limit s) concurrency of
        None \<Rightarrow> None
      | Some l \<Rightarrow> Some (s\<lparr>bn_limit := l, bn_duration := (bn_duration s)\<lparr>ld_ended := True\<rparr>\<rparr>))"

datatype bench_event =
    Launch nat
  | Issue nat u64
  | Complete nat outcome
  | Bench_end

inductive bench_step ::
    "('is, 'sem, 'gate) seastar_env \<Rightarrow> u64 \<Rightarrow> u32 \<Rightarrow> 'sem bench \<Rightarrow> bench_event \<Rightarrow> 'sem bench \<Rightarrow> bool"
  for E n reqs where
  step_launch: "i < length (bn_chans s) \<Longrightarrow> bn_chans s ! i = Chan_waiting \<Longrightarrow>
    launch E reqs i s = Some t \<Longrightarrow> bench_step E n reqs s (Launch i) t"
| step_issue: "i < length (bn_chans s) \<Longrightarrow> bn_chans s ! i = Chan_next (Suc k) \<Longrightarrow>
    bench_step E n reqs s (Issue i sz) (issue sz i k s)"
| step_complete: "i < length (bn_chans s) \<Longrightarrow> bn_chans s ! i = Chan_call k \<Longrightarrow>
    bench_step E n reqs s (Complete i oc) (complete E oc i k s)"
| step_end: "Chan_waiting \<notin> set (bn_chans s) \<Longrightarrow> \<not> ld_ended (bn_duration s) \<Longrightarrow>
    bench_end E n s = Some t \<Longrightarrow> bench_step E n reqs s Bench_end t"

section \<open>Invariant\<close>

fun active :: "chan \<Rightarrow> nat" where
  "active Chan_waiting = 0"
| "active (Chan_next k) = 1"
| "active (Chan_call k) = 1"
| "active Chan_finished = 0"

fun chan_ok :: "chan \<Rightarrow> bool" where
  "chan_ok (Chan_next k) = (k \<noteq> 0)"
| "chan_ok c = True"

fun to_go :: "nat \<Rightarrow> chan \<Rightarrow> nat" where
  "to_go reqs Chan_waiting = reqs"
| "to_go reqs (Chan_next k) = k"
| "to_go reqs (Chan_call k) = k"
| "to_go reqs Chan_finished = 0"

text \<open>The steps a channel can still take.\<close>

fun steps_left :: "nat \<Rightarrow> chan \<Rightarrow> nat" where
  "steps_left reqs Chan_waiting = Suc (2 * reqs)"
| "steps_left reqs (Chan_next k) = 2 * k"
| "steps_left reqs (Chan_call k) = Suc (2 * k)"
| "steps_left reqs Chan_finished = 0"

lemma sum_list_replace:
  fixes f :: "'a \<Rightarrow> nat"
  shows "i < length xs \<Longrightarrow> sum_list (map f (xs[i := x])) + f (xs ! i) = sum_list (map f xs) + f x"
proof (induction xs arbitrary: i)
  case (Cons y xs)
  then show ?case by (cases i) auto
qed simp

lemma sum_list_active_le: "sum_list (map active cs) \<le> length cs"
proof (induction cs)
  case (Cons c cs)
  have "active c \<le> 1" by (cases c) auto
  with Cons show ?case by simp
qed simp

lemma sum_list_member: "i < length xs \<Longrightarrow> f (xs ! i) \<le> sum_list (map f xs)" for f :: "'a \<Rightarrow> nat"
  using sum_list_replace [of i xs f "xs ! i"] by (simp add: member_le_sum_list)

definition bench_inv ::
    "('is, 'sem, 'gate) seastar_env \<Rightarrow> ('sem \<Rightarrow> u64) \<Rightarrow> u64 \<Rightarrow> u32 \<Rightarrow> 'sem bench \<Rightarrow> bool" where
  "bench_inv E units n reqs s \<longleftrightarrow>
     length (bn_chans s) = unat n \<and> list_all chan_ok (bn_chans s) \<and>
     ld_total_bytes (bn_duration s) = sum_list (bn_sent s) \<and>
     ld_num_of_req (bn_duration s) = ucast reqs \<and>
     (if ld_ended (bn_duration s) then list_all (\<lambda>c. c = Chan_finished) (bn_chans s)
      else unat (units (bn_limit s)) + sum_list (map active (bn_chans s)) = unat n)"

lemma list_all_replace: "list_all P xs \<Longrightarrow> P x \<Longrightarrow> list_all P (xs[i := x])"
  by (auto simp: list_all_iff dest: set_update_subset_insert [THEN subsetD])

lemma not_finished_running:
  "bench_inv E units n reqs s \<Longrightarrow> i < length (bn_chans s) \<Longrightarrow> bn_chans s ! i \<noteq> Chan_finished \<Longrightarrow>
   \<not> ld_ended (bn_duration s)"
  by (auto simp: bench_inv_def list_all_length)

lemma semaphore_waitD:
  assumes "semaphore_law E units" "sem_wait E sem k = Some sem'"
  shows "k \<le> units sem \<and> unat (units sem') + unat k = unat (units sem)"
proof -
  have "k \<le> units sem" "units sem' = units sem - k"
    using assms unfolding semaphore_law_def by (blast, blast)
  then show ?thesis by (simp add: unat_sub word_le_nat_alt)
qed

lemma sint_small: "unat (w :: u64) < 2 ^ 63 \<Longrightarrow> 0 \<le> sint w"
proof -
  assume "unat w < 2 ^ 63"
  then have "int (unat w) < int (2 ^ 63)" by (rule of_nat_less_iff [THEN iffD2])
  then have u: "uint w < 2 ^ 63" by simp
  have "signed_take_bit 63 (uint w) = uint w"
    by (rule signed_take_bit_int_eq_self [OF order_trans [OF _ uint_ge_0] u]) simp
  then show "0 \<le> sint w" by (simp add: sint_uint)
qed

lemma bench_inv_step:
  assumes "bench_step E n reqs s e t" "semaphore_law E units" "bench_inv E units n reqs s"
    "0 < unat reqs"
  shows "bench_inv E units n reqs t"
  using assms(1)
proof cases
  case (step_launch i)
  then obtain l where l: "sem_wait E (bn_limit s) 1 = Some l"
    "t = s\<lparr>bn_limit := l, bn_chans := (bn_chans s)[i := Chan_next (unat reqs)]\<rparr>"
    by (auto simp: launch_def split: option.splits)
  then show ?thesis
    using assms(3,4) step_launch semaphore_waitD [OF assms(2) l(1)]
      not_finished_running [OF assms(3) step_launch(2)]
      sum_list_replace [OF step_launch(2), of active "Chan_next (unat reqs)"]
    by (auto simp: bench_inv_def intro: list_all_replace)
next
  case (step_issue i k sz)
  then show ?thesis
    using assms(3) not_finished_running [OF assms(3) step_issue(3)]
      sum_list_replace [OF step_issue(3), of active "Chan_call k"]
    by (auto simp: bench_inv_def issue_def intro: list_all_replace)
next
  case (step_complete i k oc)
  then have ne: "\<not> ld_ended (bn_duration s)" and pos: "1 \<le> sum_list (map active (bn_chans s))"
    using not_finished_running [OF assms(3) step_complete(3)] sum_list_member [OF step_complete(3), of active]
    by auto
  have "unat (units (bn_limit s)) < unat n" using pos ne assms(3) by (simp add: bench_inv_def)
  then have "unat (units (bn_limit s) + 1) = Suc (unat (units (bn_limit s)))"
    using unsigned_less [of n, where ?'a = nat] by (simp add: unat_word_ariths)
  then show ?thesis
    using assms(2,3) ne step_complete
      sum_list_replace [OF step_complete(3), of active Chan_finished]
      sum_list_replace [OF step_complete(3), of active "Chan_next k"]
    by (auto simp: bench_inv_def complete_def semaphore_law_def intro: list_all_replace)
next
  case step_end
  then obtain l where l: "sem_wait E (bn_limit s) n = Some l"
    "t = s\<lparr>bn_limit := l, bn_duration := (bn_duration s)\<lparr>ld_ended := True\<rparr>\<rparr>"
    by (auto simp: bench_end_def split: option.splits)
  have "unat (units (bn_limit s)) + sum_list (map active (bn_chans s)) = unat n"
    using assms(3) step_end by (simp add: bench_inv_def)
  then have "sum_list (map active (bn_chans s)) = 0"
    using semaphore_waitD [OF assms(2) l(1)] by linarith
  then have "\<forall>c \<in> set (bn_chans s). active c = 0" by simp
  then have "\<forall>c \<in> set (bn_chans s). c = Chan_finished"
    using step_end by (metis active.simps(2,3) chan.exhaust zero_neq_one)
  with l assms(3) show ?thesis by (simp add: bench_inv_def list_all_iff)
qed

lemma bench_inv_start:
  assumes "semaphore_law E units" "benchmark E cfg = Inr s" "reqs_per_channel cfg = Inr reqs"
  shows "bench_inv E units (la_concurrency cfg) reqs s \<and> 0 < unat reqs"
proof -
  have "0 < unat reqs"
    using assms(3) by (auto simp: reqs_per_channel_def Let_def max_def word_le_nat_alt split: if_splits)
  moreover have "s = \<lparr>bn_limit = sem_init E (la_concurrency cfg),
      bn_chans = replicate (unat (la_concurrency cfg)) Chan_waiting,
      bn_duration = (load_generator_duration_new (ucast reqs))\<lparr>ld_begun := True\<rparr>, bn_sent = []\<rparr>"
    using assms by (simp add: benchmark_def)
  ultimately show ?thesis
    using assms(1)
    by (simp add: bench_inv_def load_generator_duration_new_def semaphore_law_def list_all_iff
      sum_list_replicate map_replicate_const)
qed

interpretation bench: invariant_system "bench_step E n reqs"
    "\<lambda>s. semaphore_law E units \<and> 0 < unat reqs \<and> bench_inv E units n reqs s" "\<lambda>e. True"
    "\<lambda>s. semaphore_law E units \<and> 0 < unat reqs \<and> bench_inv E units n reqs s"
  for E n reqs units
  by unfold_locales (auto intro: bench_inv_step)

section \<open>Requests sent\<close>

fun no_failure :: "bench_event \<Rightarrow> bool" where
  "no_failure (Complete i (Fail e)) = False"
| "no_failure _ = True"

definition sent_inv :: "u64 \<Rightarrow> u32 \<Rightarrow> 'sem bench \<Rightarrow> bool" where
  "sent_inv n reqs s \<longleftrightarrow>
     length (bn_sent s) + sum_list (map (to_go (unat reqs)) (bn_chans s)) = unat n * unat reqs"

lemma sent_step:
  assumes "bench_step E n reqs s e t" "sent_inv n reqs s" "no_failure e"
  shows "sent_inv n reqs t"
  using assms(1)
proof cases
  case (step_launch i)
  then show ?thesis
    using assms(2) sum_list_replace [OF step_launch(2), of "to_go (unat reqs)" "Chan_next (unat reqs)"]
    by (auto simp: sent_inv_def launch_def split: option.splits)
next
  case (step_issue i k sz)
  then show ?thesis
    using assms(2) sum_list_replace [OF step_issue(3), of "to_go (unat reqs)" "Chan_call k"]
    by (simp add: sent_inv_def issue_def)
next
  case (step_complete i k oc)
  then have "oc = Proceed" using assms(3) by (cases oc) auto
  then show ?thesis
    using step_complete assms(2)
      sum_list_replace [OF step_complete(3), of "to_go (unat reqs)" "Chan_next k"]
      sum_list_replace [OF step_complete(3), of "to_go (unat reqs)" Chan_finished]
    by (auto simp: sent_inv_def complete_def)
next
  case step_end
  then show ?thesis
    using assms(2) by (auto simp: sent_inv_def bench_end_def split: option.splits)
qed

interpretation sent: invariant_system "bench_step E n reqs" "sent_inv n reqs" no_failure "sent_inv n reqs"
  for E n reqs
  by unfold_locales (auto intro: sent_step)


text \<open>An executable scheduler.\<close>

fun bench_act ::
    "('is, 'sem, 'gate) seastar_env \<Rightarrow> u64 \<Rightarrow> u32 \<Rightarrow> 'sem bench \<Rightarrow> bench_event \<Rightarrow> 'sem bench option" where
  "bench_act E n reqs s (Launch i) =
     (if i < length (bn_chans s) \<and> bn_chans s ! i = Chan_waiting then launch E reqs i s else None)"
| "bench_act E n reqs s (Issue i sz) =
     (if i < length (bn_chans s) then
        (case bn_chans s ! i of Chan_next (Suc k) \<Rightarrow> Some (issue sz i k s) | _ \<Rightarrow> None) else None)"
| "bench_act E n reqs s (Complete i oc) =
     (if i < length (bn_chans s) then
        (case bn_chans s ! i of Chan_call k \<Rightarrow> Some (complete E oc i k s) | _ \<Rightarrow> None) else None)"
| "bench_act E n reqs s Bench_end =
     (if Chan_waiting \<notin> set (bn_chans s) \<and> \<not> ld_ended (bn_duration s) then bench_end E n s else None)"

fun bench_play ::
    "('is, 'sem, 'gate) seastar_env \<Rightarrow> u64 \<Rightarrow> u32 \<Rightarrow> 'sem bench \<Rightarrow> bench_event list \<Rightarrow> 'sem bench option" where
  "bench_play E n reqs s [] = Some s"
| "bench_play E n reqs s (e # es) =
     (case bench_act E n reqs s e of None \<Rightarrow> None | Some t \<Rightarrow> bench_play E n reqs t es)"

lemma bench_act_step: "bench_act E n reqs s e = Some t \<Longrightarrow> bench_step E n reqs s e t"
proof (cases e)
  case (Issue i sz)
  then show "bench_act E n reqs s e = Some t \<Longrightarrow> bench_step E n reqs s e t"
    by (auto split: if_split_asm chan.split_asm nat.split_asm intro: step_issue)
next
  case (Complete i oc)
  then show "bench_act E n reqs s e = Some t \<Longrightarrow> bench_step E n reqs s e t"
    by (auto split: if_split_asm chan.split_asm intro: step_complete)
qed (auto split: if_split_asm intro: step_launch step_end)

lemma bench_play_run: "bench_play E n reqs s es = Some t \<Longrightarrow> run (bench_step E n reqs) s es t"
  by (induction E n reqs s es rule: bench_play.induct)
    (auto split: option.split_asm intro: run.intros bench_act_step)

definition example_load :: load_generator_args where
  "example_load = \<lparr>la_server_addr = (0, 0), la_num_of_req = 5, la_concurrency = 2,
     la_memory_per_core = 1073741824, la_compression = compression_flags_none, la_credentials = None\<rparr>"

definition example_load_run :: "bench_event list" where
  "example_load_run = [Launch 0, Launch 1, Issue 1 20, Issue 0 10, Complete 0 Proceed, Issue 0 30,
     Complete 1 Proceed, Complete 0 Proceed, Issue 1 40, Complete 1 Proceed, Bench_end]"

lemma example_semaphore: "semaphore_law example_env (\<lambda>u. u)"
  using example_laws by (simp add: laws_def)

lemmas bench_eval = example_load_def example_load_run_def benchmark_def reqs_per_channel_def
  load_generator_duration_new_def launch_def issue_def complete_def bench_end_def example_env_def


section \<open>A benchmark ends\<close>

definition bench_measure :: "u32 \<Rightarrow> 'sem bench \<Rightarrow> nat" where
  "bench_measure reqs s = sum_list (map (steps_left (unat reqs)) (bn_chans s)) +
     (if ld_ended (bn_duration s) then 0 else 1)"

lemma bench_step_measure:
  assumes "bench_step E n reqs s e t"
  shows "bench_measure reqs t < bench_measure reqs s"
  using assms
proof cases
  case (step_launch i)
  then show ?thesis
    using sum_list_replace [OF step_launch(2), of "steps_left (unat reqs)" "Chan_next (unat reqs)"]
    by (auto simp: bench_measure_def launch_def split: option.splits)
next
  case (step_issue i k sz)
  then show ?thesis
    using sum_list_replace [OF step_issue(3), of "steps_left (unat reqs)" "Chan_call k"]
    by (simp add: bench_measure_def issue_def)
next
  case (step_complete i k oc)
  then show ?thesis
    using sum_list_replace [OF step_complete(3), of "steps_left (unat reqs)" "Chan_next k"]
      sum_list_replace [OF step_complete(3), of "steps_left (unat reqs)" Chan_finished]
    by (auto simp: bench_measure_def complete_def)
next
  case step_end
  then show ?thesis by (auto simp: bench_measure_def bench_end_def split: option.splits)
qed

lemma bench_run_measure: "run (bench_step E n reqs) s es t \<Longrightarrow> bench_measure reqs t + length es \<le> bench_measure reqs s"
  by (induction rule: run.induct) (auto dest: bench_step_measure)

lemma bench_progress:
  assumes E: "semaphore_law E units" and inv: "bench_inv E units n reqs s" and n: "unat n < 2 ^ 63"
    and go: "\<not> ld_ended (bn_duration s)"
  shows "\<exists>e t. bench_step E n reqs s e t"
proof -
  have units: "unat (units (bn_limit s)) + sum_list (map active (bn_chans s)) = unat n"
    using inv go by (simp add: bench_inv_def)
  have wait: "sem_wait E (bn_limit s) k \<noteq> None" if "unat k \<le> unat (units (bn_limit s))" for k
    using E that units n sint_small [of "units (bn_limit s)"]
    unfolding semaphore_law_def by (metis add_leD1 le_less_trans order_refl word_le_nat_alt)
  consider (waiting) i where "i < length (bn_chans s)" "bn_chans s ! i = Chan_waiting"
    | (run) i where "i < length (bn_chans s)" "bn_chans s ! i \<noteq> Chan_waiting" "bn_chans s ! i \<noteq> Chan_finished"
    | (all_finished) "\<And>i. i < length (bn_chans s) \<Longrightarrow> bn_chans s ! i = Chan_finished" by blast
  then show ?thesis
  proof cases
    case waiting
    have "sum_list (map active ((bn_chans s)[i := Chan_next 1])) \<le> length ((bn_chans s)[i := Chan_next 1])"
      by (rule sum_list_active_le)
    then have "1 \<le> unat (units (bn_limit s))"
      using sum_list_replace [OF waiting(1), of active "Chan_next 1"] waiting(2) units inv
      by (simp add: bench_inv_def)
    then obtain t where "launch E reqs i s = Some t"
      using wait [of 1] by (auto simp: launch_def)
    with waiting show ?thesis by (blast intro: step_launch)
  next
    case run
    show ?thesis
    proof (cases "bn_chans s ! i")
      case (Chan_next k)
      then have "k \<noteq> 0" using inv run(1) by (auto simp: bench_inv_def list_all_length)
      then obtain k' where "k = Suc k'" by (cases k) auto
      with Chan_next run(1) show ?thesis by (blast intro: step_issue)
    qed (use run in \<open>auto intro: step_complete\<close>)
  next
    case all_finished
    then have fin: "\<And>c. c \<in> set (bn_chans s) \<Longrightarrow> c = Chan_finished" by (metis in_set_conv_nth)
    have "active c = 0" if "c \<in> set (bn_chans s)" for c unfolding fin [OF that] by simp
    then have "sum_list (map active (bn_chans s)) = 0" by simp
    with units have "unat n \<le> unat (units (bn_limit s))" by linarith
    from wait [OF this] obtain t where "bench_end E n s = Some t"
      by (auto simp: bench_end_def)
    moreover have "Chan_waiting \<notin> set (bn_chans s)" using fin by blast
    ultimately show ?thesis using go by (blast intro: step_end)
  qed
qed

text \<open>
  C35: a benchmark always ends. Every run of it, whatever the interleaving and whichever calls
  fail, has at most 2 steps per request and 1 per channel, and one more; and as long as it
  has not ended, some step is possible.
\<close>

theorem benchmark_ends:
  assumes "semaphore_law E units" "benchmark E cfg = Inr s0" "reqs_per_channel cfg = Inr reqs"
    "unat (la_concurrency cfg) < 2 ^ 63" "run (bench_step E (la_concurrency cfg) reqs) s0 es s"
  shows "length es \<le> unat (la_concurrency cfg) * (2 * unat reqs + 1) + 1 \<and>
    (ld_ended (bn_duration s) \<or> (\<exists>e t. bench_step E (la_concurrency cfg) reqs s e t))"
proof -
  have inv: "bench_inv E units (la_concurrency cfg) reqs s"
    using bench.inv_run [of E units reqs "la_concurrency cfg" s0 es s] bench_inv_start [OF assms(1-3)] assms(1,5)
    by (simp add: list.pred_True)
  have "bench_measure reqs s0 = unat (la_concurrency cfg) * (2 * unat reqs + 1) + 1"
    using assms(2,3)
    by (auto simp: benchmark_def bench_measure_def load_generator_duration_new_def sum_list_replicate
      map_replicate_const)
  then show ?thesis
    using bench_run_measure [OF assms(5)] bench_progress [OF assms(1) inv assms(4)] by auto
qed

theorem benchmark_ends_witness:
  "\<exists>s0. benchmark example_env example_load = Inr s0 \<and>
    (\<forall>es s. run (bench_step example_env 2 2) s0 es s \<longrightarrow> length es \<le> 11 \<and>
      (ld_ended (bn_duration s) \<or> (\<exists>e t. bench_step example_env 2 2 s e t)))"
proof -
  obtain s0 where s0: "benchmark example_env example_load = Inr s0" by (simp add: bench_eval)
  have reqs: "reqs_per_channel example_load = Inr 2" by (simp add: bench_eval)
  have c: "la_concurrency example_load = 2" by (simp add: example_load_def)
  show ?thesis
    using benchmark_ends [OF example_semaphore s0 reqs] s0 unfolding c by auto
qed

end
