(* ===== verification/Smf_Utilities.thy ===== *)
theory Smf_Utilities
  imports Smf_Prelude
begin

text \<open>
  The small helpers: random strings (core/random.cc), the file name shown in log lines and the
  null check (log.h), dates (time_utils.h) and a buffer that holds a table (fbs_typed_buf.h).
  The random generator of the standard library, \<^verbatim>\<open>localtime\<close>, the formatting functions and
  the access to the root of a table are parameters.
\<close>

section \<open>Random strings\<close>

text \<open>
  A distribution is a function of its largest value and of the state of the generator. An index
  outside of the string being filled cannot occur, so the loop updates a list.
\<close>

type_synonym 'r distribution = "u32 \<Rightarrow> 'r \<Rightarrow> u32 \<times> 'r"

function randstr_loop :: "string \<Rightarrow> ('r \<Rightarrow> u32 \<times> 'r) \<Rightarrow> nat \<Rightarrow> nat \<Rightarrow> 'r \<Rightarrow> string \<Rightarrow> string \<times> 'r" where
  "randstr_loop dict draw n i r retval =
     (if i < n
      then let (x, r') = draw r; idx = unat x mod length dict
           in randstr_loop dict draw n (i + 1) r' (retval[i := dict ! idx])
      else (retval, r))"
  by pat_completeness auto
termination
  by (relation "measure (\<lambda>(dict, draw, n, i, r, retval). n - i)") auto

declare randstr_loop.simps [simp del]

definition randstr :: "string \<Rightarrow> ('r \<Rightarrow> u32 \<times> 'r) \<Rightarrow> u32 \<Rightarrow> 'r \<Rightarrow> string \<times> 'r" where
  "randstr dict draw n r = randstr_loop dict draw (unat n) 0 r (replicate (unat n) (CHR 0x00))"

definition alphanum_dict :: string where
  "alphanum_dict = ''abcdefghijklmnopqrstuvwxyz'' @ ''ABCDEFGHIJKLMNOPQRSTUVWXYZ'' @ ''1234567890''"

definition next_str_dict :: string where
  "next_str_dict = ''abcdefghijklmnopqrstuvwxyz'' @ ''ABCDEFGHIJKLMNOPQRSTUVWXYZ'' @ ''1234567890'' @
     ''!@#$%^&*()'' @
     CHR 0x60 # ''~-_=+[{]}|;:'' @ CHR 0x27 # CHR 0x22 # '',<.>/?''"

definition next_str :: "'r distribution \<Rightarrow> u32 \<Rightarrow> 'r \<Rightarrow> string \<times> 'r" where
  "next_str dist n r = randstr next_str_dict (dist (word_of_nat (length next_str_dict))) n r"

definition next_alphanum :: "'r distribution \<Rightarrow> u32 \<Rightarrow> 'r \<Rightarrow> string \<times> 'r" where
  "next_alphanum dist n r = randstr alphanum_dict (dist (word_of_nat (length alphanum_dict))) n r"

lemma randstr_loop_fills:
  assumes "dict \<noteq> []" "length retval = n" "set (take i retval) \<subseteq> set dict" "i \<le> n"
  shows "length (fst (randstr_loop dict draw n i r retval)) = n \<and>
    set (fst (randstr_loop dict draw n i r retval)) \<subseteq> set dict"
  using assms
proof (induction dict draw n i r retval rule: randstr_loop.induct)
  case (1 dict draw n i r retval)
  show ?case
  proof (cases "i < n")
    case True
    obtain x r' where x: "draw r = (x, r')" by fastforce
    have "dict ! (unat x mod length dict) \<in> set dict" using 1(2) by simp
    then have "set (take (i + 1) (retval[i := dict ! (unat x mod length dict)])) \<subseteq> set dict"
      using 1(3,4) True by (simp add: take_Suc_conv_app_nth)
    from 1(1) [OF True refl x [symmetric] refl 1(2) _ this] 1(3) True show ?thesis
      by (simp add: randstr_loop.simps [of dict draw n i] x)
  next
    case False
    with 1 show ?thesis by (simp add: randstr_loop.simps)
  qed
qed

lemma randstr_fills:
  "dict \<noteq> [] \<Longrightarrow> length (fst (randstr dict draw n r)) = unat n \<and> set (fst (randstr dict draw n r)) \<subseteq> set dict"
  unfolding randstr_def by (rule randstr_loop_fills) simp_all

definition isalnum_ascii :: "char \<Rightarrow> bool" where
  "isalnum_ascii c \<longleftrightarrow> (let k = of_char c :: nat in 48 \<le> k \<and> k \<le> 57 \<or> 65 \<le> k \<and> k \<le> 90 \<or> 97 \<le> k \<and> k \<le> 122)"

lemma alphanum_dict_isalnum: "list_all isalnum_ascii alphanum_dict"
  by (simp add: alphanum_dict_def isalnum_ascii_def)

text \<open>
  Whatever the random generator does, \<^verbatim>\<open>next_alphanum\<close> returns a string of exactly the
  length asked for that has letters and digits only, and \<^verbatim>\<open>next_str\<close> one of exactly the length
  asked for with characters of its dictionary; no byte of the string keeps the zero that
  \<^verbatim>\<open>resize\<close> put there.
\<close>

lemma random_strings_from_dictionary:
  "length (fst (next_alphanum dist n r)) = unat n \<and> list_all isalnum_ascii (fst (next_alphanum dist n r)) \<and>
   length (fst (next_str dist n r)) = unat n \<and>
   set (fst (next_str dist n r)) \<subseteq> set next_str_dict - {CHR 0x00}"
proof -
  have d: "alphanum_dict \<noteq> []" "next_str_dict \<noteq> []" "CHR 0x00 \<notin> set next_str_dict"
    by (simp_all add: alphanum_dict_def next_str_dict_def)
  show ?thesis
    unfolding next_alphanum_def next_str_def
    using randstr_fills [OF d(1), of "dist (word_of_nat (length alphanum_dict))" n r]
      randstr_fills [OF d(2), of "dist (word_of_nat (length next_str_dict))" n r]
      alphanum_dict_isalnum d(3)
    by (auto simp: list_all_iff)
qed

text \<open>
  The distribution includes its upper bound, the size of the dictionary: two of the equally
  likely draws select the first character, one each of the others.
\<close>

lemma first_character_twice:
  assumes "k < n"
  shows "card {x. x \<le> n \<and> x mod n = (k :: nat)} = (if k = 0 then 2 else 1)"
proof -
  have "{x. x \<le> n \<and> x mod n = k} = (if k = 0 then {0, n} else {k})"
    using assms by (auto simp: le_less)
  then show ?thesis using assms by simp
qed

section \<open>Log lines\<close>

text \<open>The offset into \<open>file\<close> of the pointer that is returned; \<open>file\<close> includes its terminating zero.\<close>

fun find_last_slash :: "string \<Rightarrow> nat \<Rightarrow> char \<Rightarrow> nat" where
  "find_last_slash file 0 x = 0"
| "find_last_slash file (Suc k) x =
     (if file ! Suc k = x then Suc k + 1 else find_last_slash file k x)"

text \<open>The macro for the name of the current file.\<close>

definition filename_macro :: "string \<Rightarrow> string" where
  "filename_macro file = drop (find_last_slash (file @ [CHR 0x00]) (length file) CHR ''/'') file"

lemma find_last_slash_suffix:
  assumes "x \<notin> set base" "pre \<noteq> []"
  shows "find_last_slash (pre @ x # base @ rest) (length pre + length base) x = length pre + 1"
  using assms
proof (induction base arbitrary: rest rule: rev_induct)
  case Nil
  then show ?case by (cases pre rule: rev_cases) (auto simp: nth_append)
next
  case (snoc b base)
  then show ?case by (auto simp: nth_append)
qed

lemma find_last_slash_absent:
  "(\<forall>i\<in>{1..k}. file ! i \<noteq> x) \<Longrightarrow> find_last_slash file k x = 0"
  by (induction k) auto

text \<open>The directory is cut off, but not when it is the root directory.\<close>

lemma filename_macro_base:
  assumes "CHR ''/'' \<notin> set base" "dir \<noteq> []"
  shows "filename_macro (dir @ CHR ''/'' # base) = base"
proof -
  have "find_last_slash (dir @ CHR ''/'' # (base @ [CHR 0x00]) @ [])
      (length dir + length (base @ [CHR 0x00])) CHR ''/'' = length dir + 1"
    using assms by (intro find_last_slash_suffix) auto
  then show ?thesis by (simp add: filename_macro_def)
qed

lemma filename_macro_root:
  assumes "CHR ''/'' \<notin> set base"
  shows "filename_macro (CHR ''/'' # base) = CHR ''/'' # base"
proof -
  have "find_last_slash (CHR ''/'' # base @ [CHR 0x00]) (Suc (length base)) CHR ''/'' = 0"
    using assms by (intro find_last_slash_absent) (auto simp: nth_Cons' nth_append in_set_conv_nth)
  then show ?thesis by (simp add: filename_macro_def)
qed

datatype fmt_arg =
    Arg_str string
  | Arg_int int

text \<open>The null check; the line it logs before it throws is in Smf_Logging.\<close>

definition throw_if_null ::
    "(string \<Rightarrow> fmt_arg list \<Rightarrow> string) \<Rightarrow> string \<Rightarrow> int \<Rightarrow> string \<Rightarrow> 't option \<Rightarrow> 't res" where
  "throw_if_null sprintf file line names t = (case t of
       None \<Rightarrow> Inl (Runtime_error (sprintf ''{}:{}] check_not_null({})''
         [Arg_str file, Arg_int line, Arg_str names]))
     | Some p \<Rightarrow> Inr p)"

section \<open>Dates\<close>

record tm =
  tm_year :: int
  tm_mon :: int
  tm_mday :: int
  tm_hour :: int
  tm_min :: int
  tm_sec :: int

definition time_as_iso_8601 :: "(int \<Rightarrow> tm option) \<Rightarrow> (int \<Rightarrow> string) \<Rightarrow> u64 \<Rightarrow> string" where
  "time_as_iso_8601 localtime to_sstring millisecs = (case localtime (uint (millisecs div 1000)) of
       None \<Rightarrow> ''''
     | Some t \<Rightarrow> to_sstring (tm_year t + 1900) @ ''-'' @ to_sstring (tm_mon t + 1) @ ''-'' @
         to_sstring (tm_mday t) @ ''T'' @ to_sstring (tm_hour t) @ '':'' @ to_sstring (tm_min t) @
         '':'' @ to_sstring (tm_sec t))"

text \<open>In the first nine months of a year the date is shorter than the format it announces.\<close>

lemma iso_8601_not_padded:
  assumes "localtime (uint (millisecs div 1000)) = Some t" "length (to_sstring (tm_mon t + 1)) = 1"
    "length (to_sstring (tm_year t + 1900)) = 4" "\<forall>x. 0 \<le> x \<and> x < 100 \<longrightarrow> length (to_sstring x) \<le> 2"
    "0 \<le> tm_mday t" "tm_mday t < 100" "0 \<le> tm_hour t" "tm_hour t < 100"
    "0 \<le> tm_min t" "tm_min t < 100" "0 \<le> tm_sec t" "tm_sec t < 100"
  shows "length (time_as_iso_8601 localtime to_sstring millisecs) < length ''YYYY-MM-DDThh:mm:ss''"
  using assms(1-3) assms(4) [rule_format, of "tm_mday t"] assms(4) [rule_format, of "tm_hour t"]
    assms(4) [rule_format, of "tm_min t"] assms(4) [rule_format, of "tm_sec t"] assms(5-12)
  by (simp add: time_as_iso_8601_def)

section \<open>A buffer that holds a table\<close>

text \<open>\<open>cache\<close> is the pointer to the root of the table, None for the null pointer.\<close>

record 't fbs_typed_buf =
  ftb_buf :: bytes
  ftb_cache :: "'t option"

definition fbs_typed_buf_new :: "bool \<Rightarrow> (bytes \<Rightarrow> 't) \<Rightarrow> bytes \<Rightarrow> 't fbs_typed_buf res" where
  "fbs_typed_buf_new dbg get_root body =
     (if dbg \<and> length body = 0 then Inl (Runtime_error ''Empty flatbuffers buffer'')
      else Inr \<lparr>ftb_buf = body, ftb_cache = Some (get_root body)\<rparr>)"

text \<open>
  Moving from a buffer leaves it empty; moving from a pointer leaves the pointer. The result is
  the new object and the one moved from.
\<close>

definition fbs_typed_buf_move :: "'t fbs_typed_buf \<Rightarrow> 't fbs_typed_buf \<times> 't fbs_typed_buf" where
  "fbs_typed_buf_move b = (b, b\<lparr>ftb_buf := []\<rparr>)"

definition fbs_typed_buf_assign ::
    "'t fbs_typed_buf \<Rightarrow> 't fbs_typed_buf \<Rightarrow> 't fbs_typed_buf \<times> 't fbs_typed_buf" where
  "fbs_typed_buf_assign this b =
     (this\<lparr>ftb_buf := ftb_buf b, ftb_cache := ftb_cache b\<rparr>, b\<lparr>ftb_buf := []\<rparr>)"

definition move_buf :: "'t fbs_typed_buf \<Rightarrow> bytes \<times> 't fbs_typed_buf" where
  "move_buf b = (ftb_buf b, b\<lparr>ftb_cache := None, ftb_buf := []\<rparr>)"

text \<open>
  The cache of an object points into its buffer, or is null: every operation keeps that for the
  object it builds, and a move breaks it for the object moved from.
\<close>

definition cache_ok :: "(bytes \<Rightarrow> 't) \<Rightarrow> 't fbs_typed_buf \<Rightarrow> bool" where
  "cache_ok get_root b \<longleftrightarrow> ftb_cache b = None \<or> ftb_cache b = Some (get_root (ftb_buf b))"

lemma cache_ok_kept:
  "fbs_typed_buf_new dbg get_root body = Inr b \<Longrightarrow> cache_ok get_root b"
  "cache_ok get_root b \<Longrightarrow> cache_ok get_root (fst (fbs_typed_buf_move b))"
  "cache_ok get_root b \<Longrightarrow> cache_ok get_root (fst (fbs_typed_buf_assign this b))"
  "cache_ok get_root (snd (move_buf b))"
  by (auto simp: cache_ok_def fbs_typed_buf_new_def fbs_typed_buf_move_def fbs_typed_buf_assign_def
      move_buf_def split: if_splits)

lemma moved_from_dangles:
  assumes "fbs_typed_buf_new dbg get_root body = Inr b" "get_root body \<noteq> get_root []"
  shows "\<not> cache_ok get_root (snd (fbs_typed_buf_move b))"
  using assms by (auto simp: cache_ok_def fbs_typed_buf_new_def fbs_typed_buf_move_def split: if_splits)

end
