(* ===== verification/Rpc_Messages.thy ===== *)
theory Rpc_Messages
  imports Rpc_Server
begin

text \<open>
  The messages a program can build with the operations of the library: typed envelopes
  before they are serialised (\<open>typed\<close>) and envelopes after it (\<open>built\<close>), as inductive
  predicates with one rule per operation of rpc_typed_envelope.h, rpc_envelope.h, the
  compression filters, the generated stubs and the generated handles. What is built this way
  is well formed, and which of it the peer accepts is exactly characterised.
\<close>

section \<open>What a program can build\<close>

inductive typed :: "'n rpc_typed_envelope \<Rightarrow> bool" where
  typed_new: "typed (rpc_typed_envelope_new d)"
| typed_futurize: "typed (futurize_status_for_type d status)"
| typed_data: "typed te \<Longrightarrow> typed (te\<lparr>te_data := d\<rparr>)"
| typed_status: "typed te \<Longrightarrow> typed (te\<lparr>te_envelope := set_status status (te_envelope te)\<rparr>)"
| typed_request_id: "typed te \<Longrightarrow> typed (te\<lparr>te_envelope := set_request_id i (te_envelope te)\<rparr>)"
| typed_dynamic_header: "typed te \<Longrightarrow> add_dynamic_header dbg k v (te_envelope te) = Inr e \<Longrightarrow>
    typed (te\<lparr>te_envelope := e\<rparr>)"

inductive built :: "xxh64 \<Rightarrow> ('n \<Rightarrow> bytes) \<Rightarrow> zstd_lib \<Rightarrow> lz4_lib \<Rightarrow> rpc_envelope \<Rightarrow> bool"
  for xxh pack Z L where
  built_serialize: "typed te \<Longrightarrow> serialize_data xxh pack te = Inr (e, te') \<Longrightarrow>
    length (env_body e) < 2 ^ 32 \<Longrightarrow> built xxh pack Z L e"
| built_request_id: "built xxh pack Z L e \<Longrightarrow> built xxh pack Z L (set_request_id i e)"
| built_status: "built xxh pack Z L e \<Longrightarrow> built xxh pack Z L (set_status status e)"
| built_stub: "built xxh pack Z L e \<Longrightarrow> built xxh pack Z L (client_stub m e)"
| built_session: "built xxh pack Z L e \<Longrightarrow> built xxh pack Z L (mutate_session sess e)"
| built_share: "built xxh pack Z L e \<Longrightarrow> built xxh pack Z L (envelope_share e)"
| built_dynamic_header: "built xxh pack Z L e \<Longrightarrow> add_dynamic_header dbg k v e = Inr e' \<Longrightarrow>
    built xxh pack Z L e'"
| built_zstd: "built xxh pack Z L e \<Longrightarrow> zstd_compression_filter xxh Z n e = Inr e' \<Longrightarrow>
    length (env_body e') < 2 ^ 32 \<Longrightarrow> built xxh pack Z L e'"
| built_lz4: "built xxh pack Z L e \<Longrightarrow> lz4_compression_filter xxh L n e = Inr e' \<Longrightarrow>
    length (env_body e') < 2 ^ 32 \<Longrightarrow> built xxh pack Z L e'"

section \<open>It is well formed\<close>

text \<open>Headers before the checksum is set: no flags, no compression.\<close>

definition plain_header :: "header \<Rightarrow> bool" where
  "plain_header h \<longleftrightarrow> hdr_bitflags h = 0 \<and> hdr_compression h = compression_flags_none"

definition well_formed :: "xxh64 \<Rightarrow> rpc_envelope \<Rightarrow> bool" where
  "well_formed xxh e \<longleftrightarrow> consistent_letter xxh (env_letter e) \<and> hdr_bitflags (env_header e) = 0 \<and>
     hdr_compression (env_header e) \<in> {compression_flags_none, compression_flags_zstd, compression_flags_lz4}"

lemma dynamic_header_frame:
  "add_dynamic_header dbg k v e = Inr e' \<Longrightarrow> env_header e' = env_header e \<and> env_body e' = env_body e"
  by (auto simp: add_dynamic_header_def Let_def split: if_splits option.splits)

text \<open>Dynamic headers are kept in the letter, but no operation sends them.\<close>

lemma dynamic_headers_not_sent:
  "add_dynamic_header dbg k v e = Inr e' \<Longrightarrow> rpc_envelope_send dbg' out e' = rpc_envelope_send dbg' out e"
  using dynamic_header_frame [of dbg k v e e'] by (simp add: rpc_envelope_send_def)

lemma typed_plain: "typed te \<Longrightarrow> plain_header (env_header (te_envelope te))"
  by (induction rule: typed.induct)
    (auto simp: plain_header_def rpc_typed_envelope_new_def futurize_status_for_type_def
      rpc_envelope_empty_def rpc_letter_empty_def default_header_def compression_flags_none_def
      header_ops dest: dynamic_header_frame)

lemma serialize_data_well_formed:
  assumes "plain_header (env_header (te_envelope te))" "serialize_data xxh pack te = Inr (e, te')"
    "length (env_body e) < 2 ^ 32"
  shows "well_formed xxh e"
  using assms
  by (auto simp: serialize_data_def plain_header_def well_formed_def consistent_letter_def Let_def
      split: option.splits)

lemma well_formed_header_ops:
  assumes "well_formed xxh e"
  shows "well_formed xxh (set_request_id i e)" "well_formed xxh (set_status st e)"
    "well_formed xxh (client_stub m e)" "well_formed xxh (mutate_session sess e)"
    "well_formed xxh (envelope_share e)"
  using assms by (simp_all add: well_formed_def consistent_letter_def header_ops)

lemma well_formed_replace_body:
  assumes "well_formed xxh e" "flag \<in> {compression_flags_zstd, compression_flags_lz4}"
    "length buf < 2 ^ 32"
  shows "well_formed xxh (replace_body xxh flag buf e)"
  using assms replace_body_consistent [of buf xxh flag e] by (auto simp: well_formed_def)

lemma well_formed_filters:
  assumes "well_formed xxh e" "length (env_body e') < 2 ^ 32"
  shows "zstd_compression_filter xxh Z n e = Inr e' \<Longrightarrow> well_formed xxh e'"
    "lz4_compression_filter xxh L n e = Inr e' \<Longrightarrow> well_formed xxh e'"
proof -
  show "well_formed xxh e'" if "zstd_compression_filter xxh Z n e = Inr e'"
    using zstd_out_cases [OF that]
  proof (elim disjE exE conjE)
    fix buf assume "e' = replace_body xxh compression_flags_zstd buf e"
    with assms well_formed_replace_body [OF assms(1), of compression_flags_zstd buf] show ?thesis by simp
  qed (use assms in simp)
  show "well_formed xxh e'" if "lz4_compression_filter xxh L n e = Inr e'"
    using lz4_out_cases [OF that]
  proof (elim disjE exE conjE)
    fix buf assume "e' = replace_body xxh compression_flags_lz4 buf e"
    with assms well_formed_replace_body [OF assms(1), of compression_flags_lz4 buf] show ?thesis by simp
  qed (use assms in simp)
qed

lemma built_well_formed: "built xxh pack Z L e \<Longrightarrow> well_formed xxh e"
proof (induction rule: built.induct)
  case (built_serialize te e te')
  show ?case by (rule serialize_data_well_formed [OF typed_plain built_serialize(2,3)]) (rule built_serialize)
next
  case (built_dynamic_header e dbg k v e')
  then show ?case
    using dynamic_header_frame [OF built_dynamic_header(2)]
    by (simp add: well_formed_def consistent_letter_def)
next
  case (built_zstd e n e')
  show ?case by (rule well_formed_filters(1) [OF built_zstd.IH built_zstd.hyps(3,2)])
next
  case (built_lz4 e n e')
  show ?case by (rule well_formed_filters(2) [OF built_lz4.IH built_lz4.hyps(3,2)])
qed (simp_all only: well_formed_header_ops)

lemma well_formed_sendable:
  assumes "well_formed xxh e"
  shows "sendable xxh e \<longleftrightarrow> env_body e \<noteq> [] \<and> length (env_body e) < 2 ^ 31 \<and>
    rpc_checksum_payload xxh (env_body e) (word_of_nat (length (env_body e))) \<noteq> 0 \<and>
    hdr_meta (env_header e) \<noteq> 0"
proof -
  have len: "length (env_body e) < 2 ^ 32"
    and sz: "hdr_size (env_header e) = word_of_nat (length (env_body e))"
    using assms by (simp_all add: well_formed_def consistent_letter_def)
  then have "unat (hdr_size (env_header e)) = length (env_body e)" by simp
  then have "hdr_size (env_header e) = 0 \<longleftrightarrow> env_body e = []"
    by (metis length_0_conv unat_eq_zero)
  moreover have "sint (hdr_compression (env_header e)) \<le> 3"
    using assms by (auto simp: well_formed_def compression_flags_defs)
  ultimately show ?thesis
    using assms len by (auto simp: sendable_def valid_header_def well_formed_def consistent_letter_def)
qed


definition example_built :: rpc_envelope where
  "example_built = mutate_session 4 (set_status 200
     (fst (projr (serialize_data example_xxh (\<lambda>n. replicate n 5) (rpc_typed_envelope_new 3)))))"

lemma example_built_built: "built example_xxh (\<lambda>n. replicate n 5) Z L example_built"
proof -
  obtain e te' where e: "serialize_data example_xxh (\<lambda>n. replicate n 5) (rpc_typed_envelope_new 3) = Inr (e, te')"
    by (simp add: serialize_data_def rpc_typed_envelope_new_def Let_def)
  then have "length (env_body e) = 3"
    by (auto simp: serialize_data_def rpc_typed_envelope_new_def native_table_as_buffer_def Let_def)
  with e have "built example_xxh (\<lambda>n. replicate n 5) Z L e"
    by (intro built_serialize [OF typed_new e]) simp
  with e show ?thesis by (simp add: example_built_def built_session built_status)
qed


section \<open>What the peer refuses\<close>

text \<open>An envelope whose header the parser does not accept is consumed up to its header only.\<close>

lemma recv_refused:
  assumes law: "istream_law ops pending" and idle: "conn_istream_active_parser c = 0"
    and bytes: "pending (conn_istream c) = header_bytes h @ rest" and h: "\<not> valid_header h"
  shows "\<exists>j. parse_header dbg ops c = (Inr None, c\<lparr>conn_istream := j\<rparr>) \<and> pending j = rest"
proof -
  obtain r j where rj: "is_read_exactly ops (conn_istream c) kHeaderSize = (r, j)" by fastforce
  have "fst (is_read_exactly ops (conn_istream c) kHeaderSize) = Inr (take kHeaderSize (pending (conn_istream c)))"
    "pending (snd (is_read_exactly ops (conn_istream c) kHeaderSize)) = drop kHeaderSize (pending (conn_istream c))"
    using law unfolding istream_law_def by blast+
  then have "r = Inr (header_bytes h)" "pending j = rest"
    unfolding bytes hdr.take_enc hdr.drop_enc rj by simp_all
  moreover have "parse_header_bytes (header_bytes h) = None"
    using h by (simp add: parse_header_bytes_eq hdr.dec_enc)
  ultimately have "parse_header dbg ops c = (Inr None, c\<lparr>conn_istream := j\<rparr>)"
    using rj idle by (simp add: parse_header_def)
  with \<open>pending j = rest\<close> show ?thesis by blast
qed

text \<open>
  C23: a reply without a status is refused. When a user's method returns a typed envelope
  whose status it did not set, the generated handle answers without an error and a release
  build sends the reply; the client's parser then refuses its header, because a status of 0
  counts as missing, and does not consume the body of the reply, whose bytes are next on the
  connection.
\<close>

theorem reply_without_status_refused:
  assumes law: "istream_law ops pending"
    and user: "um (rpc_recv_typed_context_new root (Some q)) = Inr (rpc_typed_envelope_new d)"
      "length (pack d) < 2 ^ 32"
    and client: "conn_istream_active_parser c = 0"
  shows "\<exists>reply out. generated_handle (raw_method xxh root pack um) q = Inr reply \<and>
    rpc_envelope_send False [] reply = Inr out \<and>
    (pending (conn_istream c) = wire_bytes out @ rest \<longrightarrow>
      (\<exists>j. recv_message dbg ops xxh c = (Inr None, c\<lparr>conn_istream := j\<rparr>) \<and> pending j = pack d @ rest))"
proof -
  obtain r where r: "generated_handle (raw_method xxh root pack um) q = Inr r" "env_body r = pack d"
    "hdr_meta (env_header r) = hdr_meta (env_header (te_envelope (rpc_typed_envelope_new d)))"
    using raw_method_reply [where xxh = xxh and um = um and pack = pack, OF user(1) _ user(2)]
    by (auto simp: rpc_typed_envelope_new_def)
  then have "\<not> valid_header (env_header r)"
    by (simp add: valid_header_def rpc_typed_envelope_new_def rpc_envelope_empty_def rpc_letter_empty_def
      default_header_def)
  then have p: "\<exists>j. parse_header dbg ops c = (Inr None, c\<lparr>conn_istream := j\<rparr>) \<and> pending j = pack d @ rest"
    if "pending (conn_istream c) = header_bytes (env_header r) @ pack d @ rest"
    using recv_refused [OF law client that] by blast
  define out where "out = [Write (header_bytes (env_header r)), Write (pack d), Flush]"
  have "rpc_envelope_send False [] r = Inr out" "wire_bytes out = header_bytes (env_header r) @ pack d"
    by (simp_all add: rpc_envelope_send_def out_def r(2))
  moreover have "recv_message dbg ops xxh c = (Inr None, c\<lparr>conn_istream := j\<rparr>)"
    if "parse_header dbg ops c = (Inr None, c\<lparr>conn_istream := j\<rparr>)" for j
    using that by (simp add: recv_message_def)
  ultimately show ?thesis using r(1) p by (metis append_assoc)
qed

theorem reply_without_status_refused_witness:
  "\<exists>reply out j. generated_handle (raw_method example_xxh id (\<lambda>n. replicate n 5)
       (\<lambda>tc. Inr (rpc_typed_envelope_new 3))) (received (rpc_connection_new ([] :: bytes) (0, 0) None) example_envelope) = Inr reply \<and>
     rpc_envelope_send False [] reply = Inr out \<and>
     recv_message False list_istream example_xxh (rpc_connection_new (wire_bytes out @ [9]) (0, 0) None) =
       (Inr None, (rpc_connection_new (wire_bytes out @ [9]) (0, 0) None)\<lparr>conn_istream := j\<rparr>) \<and>
     j = [5, 5, 5, 9]"
proof -
  let ?h = "generated_handle (raw_method example_xxh id (\<lambda>n. replicate n 5) (\<lambda>tc. Inr (rpc_typed_envelope_new 3)))"
  let ?q = "received (rpc_connection_new ([] :: bytes) (0, 0) None) example_envelope"
  obtain reply out where ro: "?h ?q = Inr reply" "rpc_envelope_send False [] reply = Inr out"
    by (simp add: generated_handle_def raw_method_def serialize_data_def rpc_typed_envelope_new_def
      rpc_envelope_send_def Let_def)
  show ?thesis
    using reply_without_status_refused [OF list_istream_law, where q = ?q and root = id and d = "3 :: nat"
        and pack = "\<lambda>n. replicate n 5" and um = "\<lambda>tc. Inr (rpc_typed_envelope_new 3)" and xxh = example_xxh
        and c = "rpc_connection_new (wire_bytes out @ [9]) (0, 0) None" and rest = "[9]" and dbg = False] ro
    by (simp add: rpc_connection_new_def numeral_3_eq_3)
qed

end
