(* ===== verification/Smf_Apps.thy ===== *)
theory Smf_Apps
  imports Rpc_Messages Smf_Utilities Load_Generator Reconnect_Client Smfc_Printer
begin

text \<open>
  Programs that use the library: the demo server and client (demo_apps/cpp) and the services,
  clients and set-ups of the integration tests. Their services are instances of the generated
  class of \<open>Smfc_Service\<close>, their servers and clients are built with the operations of
  \<open>Rpc_Server\<close> and \<open>Load_Generator\<close>. A table of the schema has one string field: the table
  read from a buffer is the optional string its accessor \<^verbatim>\<open>name()\<close> points to (None the null
  pointer of an absent field), the native object is the string. One core of a
  \<^verbatim>\<open>seastar::distributed\<close> object is modelled; amounts of memory computed in floating point,
  clocks and command lines are arguments.
\<close>

section \<open>The schemas\<close>

definition demo_call :: "string \<Rightarrow> rpc_call" where
  "demo_call name = \<lparr>call_name = name,
     call_request = \<lparr>sd_name = ''Request'', sd_namespace = [''smf_gen'', ''demo'']\<rparr>,
     call_response = \<lparr>sd_name = ''Response'', sd_namespace = [''smf_gen'', ''demo'']\<rparr>\<rparr>"

definition demo_schema :: service_def where
  "demo_schema = \<lparr>sdef_name = ''SmfStorage'', sdef_namespace = [''smf_gen'', ''demo''],
     sdef_calls = map demo_call [''Get'', ''Put'', ''Fire'', ''Forget'', ''SomethingElse''],
     sdef_generated = False\<rparr>"

definition test_schema :: service_def where
  "test_schema = \<lparr>sdef_name = ''SmfStorage'', sdef_namespace = [''smf_gen'', ''demo''],
     sdef_calls = [demo_call ''Get''], sdef_generated = False\<rparr>"

lemma schema_methods:
  "length (s_methods (smf_service_new B demo_schema)) = 5"
  "length (s_methods (smf_service_new B test_schema)) = 1"
  by (simp_all add: smf_service_new_def demo_schema_def test_schema_def Let_def)

section \<open>The methods of the services\<close>

type_synonym demo_method = "string option rpc_recv_typed_context \<Rightarrow> string rpc_typed_envelope res"

definition reply_200 :: "string rpc_typed_envelope \<Rightarrow> string rpc_typed_envelope" where
  "reply_200 data = data\<lparr>te_envelope := set_status 200 (te_envelope data)\<rparr>"

text \<open>The demo server returns the name it got.\<close>

definition demo_Get :: demo_method where
  "demo_Get rec =
     (let data = rpc_typed_envelope_new ''''
      in rbind
        (if typed_context_bool rec then
           (case tc_cache rec of
              Some (Some name) \<Rightarrow> Inr (data\<lparr>te_data := Some (c_str name)\<rparr>)
            | _ \<Rightarrow> Inl (Undefined_behaviour ''name of a null string''))
         else Inr data)
        (\<lambda>data. Inr (reply_200 data)))"

definition rpc_test_Get :: demo_method where
  "rpc_test_Get rec = Inr (reply_200 (rpc_typed_envelope_new ''''))"

text \<open>After a sleep, the time; \<open>now\<close> is the text of the clock then.\<close>

definition sleeping_Get :: "string \<Rightarrow> demo_method" where
  "sleeping_Get now rec = Inr (reply_200 ((rpc_typed_envelope_new '''')\<lparr>te_data := Some now\<rparr>))"

definition throwing_Get :: demo_method where
  "throwing_Get rec = Inl (Runtime_error ''SHOULD NOT REACH THIS W/ A TIMEOUT'')"

text \<open>The address of the peer up to its colon; \<open>show_addr\<close> prints an address.\<close>

definition ipv4_addr_to_ip_str :: "(address \<Rightarrow> string) \<Rightarrow> address \<Rightarrow> string" where
  "ipv4_addr_to_ip_str show_addr addr = takeWhile (\<lambda>c. c \<noteq> CHR '':'') (show_addr addr)"

definition remote_ip_Get :: "(address \<Rightarrow> string) \<Rightarrow> demo_method" where
  "remote_ip_Get show_addr rec =
     (let data = rpc_typed_envelope_new ''''
      in Inr (reply_200 (case tc_ctx rec of
           None \<Rightarrow> data
         | Some ctx \<Rightarrow> data\<lparr>te_data := Some (ipv4_addr_to_ip_str show_addr (ctx_remote_address ctx))\<rparr>)))"

text \<open>The counter of the reconnect test: whether the call sleeps first, and what it replies then.\<close>

definition simple_state :: "int \<Rightarrow> bool \<times> int" where
  "simple_state internal_counter = (internal_counter = 0, internal_counter + 1)"

definition counter_Get_continuation :: "(int \<Rightarrow> string) \<Rightarrow> int \<Rightarrow> string rpc_typed_envelope res" where
  "counter_Get_continuation to_sstring internal_counter =
     Inr (reply_200 ((rpc_typed_envelope_new '''')\<lparr>te_data := Some (to_sstring internal_counter)\<rparr>))"

text \<open>The test's client takes a reply to the first call for a failure.\<close>

definition check_server_counter :: "int \<Rightarrow> unit res" where
  "check_server_counter server_counter =
     (if server_counter = 1 then Inl (Runtime_error ''The first try we are supposed to timeout'') else Inr ())"

text \<open>The class of the user: the first method is \<^verbatim>\<open>Get\<close>, the others keep their defaults.\<close>

definition demo_raws ::
    "xxh64 \<Rightarrow> (bytes \<Rightarrow> string option) \<Rightarrow> (string \<Rightarrow> bytes) \<Rightarrow> demo_method \<Rightarrow> nat \<Rightarrow> handle" where
  "demo_raws xxh root pack get i =
     raw_method xxh root pack (if i = 0 then get else default_method '''')"

section \<open>The servers\<close>

record demo_server_cfg =
  cfg_ip :: string
  cfg_port :: u16
  cfg_httpport :: u16
  cfg_key :: string
  cfg_cert :: string

definition demo_server_cfg_default :: demo_server_cfg where
  "demo_server_cfg_default =
     \<lparr>cfg_ip = ''127.0.0.1'', cfg_port = 20776, cfg_httpport = 20777, cfg_key = '''', cfg_cert = ''''\<rparr>"

text \<open>\<open>build\<close> reads the two files and builds the credentials of the server.\<close>

definition demo_server_args ::
    "(string \<Rightarrow> string \<Rightarrow> nat res) \<Rightarrow> u64 \<Rightarrow> demo_server_cfg \<Rightarrow> rpc_server_args res" where
  "demo_server_args build mem cfg =
     (let as = rpc_server_args_default\<lparr>arg_ip := cfg_ip cfg, arg_rpc_port := cfg_port cfg,
            arg_http_port := cfg_httpport cfg, arg_memory_avail_per_core := mem\<rparr>
      in if cfg_key cfg \<noteq> '''' \<and> cfg_cert cfg \<noteq> ''''
         then rbind (build (cfg_cert cfg) (cfg_key cfg)) (\<lambda>c. Inr (as\<lparr>arg_credentials := Some c\<rparr>))
         else Inr as)"

definition storage_server ::
    "('is, 'sem, 'gate) seastar_env \<Rightarrow> boost_lib \<Rightarrow> service_def \<Rightarrow> (nat \<Rightarrow> handle) \<Rightarrow>
     (rpc_recv_context \<Rightarrow> rpc_recv_context res) list \<Rightarrow> rpc_server_args \<Rightarrow> ('is, 'sem, 'gate) rpc_server res" where
  "storage_server E B schema raws ins as =
     rbind (register_service (Some (generated_service (smf_service_new B schema) raws)) [])
       (\<lambda>r. Inr (start (fold register_incoming_filter ins ((rpc_server_new E as)\<lparr>routes := r\<rparr>))))"

definition demo_server ::
    "('is, 'sem, 'gate) seastar_env \<Rightarrow> boost_lib \<Rightarrow> zstd_lib \<Rightarrow> (bytes \<Rightarrow> string option) \<Rightarrow> (string \<Rightarrow> bytes) \<Rightarrow>
     rpc_server_args \<Rightarrow> ('is, 'sem, 'gate) rpc_server res" where
  "demo_server E B Z root pack as =
     storage_server E B demo_schema (demo_raws (env_xxh E) root pack demo_Get)
       [zstd_decompression_filter (env_xxh E) Z] as"

text \<open>The ports of the tests are random, but never those of privileged services.\<close>

definition non_root_port :: "u16 \<Rightarrow> u16" where
  "non_root_port port = (if port < 1024 then port + 1024 else port)"

definition random_port :: "u64 \<Rightarrow> u16" where
  "random_port r = non_root_port (ucast (r mod 65535))"

lemma non_root_port_bounds: "1024 \<le> non_root_port p \<and> (1024 \<le> p \<longrightarrow> non_root_port p = p)"
  by (auto simp: non_root_port_def word_le_nat_alt word_less_nat_alt unat_word_ariths)

definition test_server_args :: "u64 \<Rightarrow> u64 \<Rightarrow> rpc_server_args" where
  "test_server_args r1 r2 = rpc_server_args_default\<lparr>arg_ip := ''127.0.0.1'', arg_rpc_port := random_port r1,
     arg_http_port := random_port r2, arg_flags := or 0 rpc_server_flags_disable_http_server\<rparr>"

text \<open>The RPC test takes its ports from the command line.\<close>

definition rpc_test_args :: "u64 \<Rightarrow> u16 \<Rightarrow> u16 \<Rightarrow> rpc_server_args" where
  "rpc_test_args mem port httpport = rpc_server_args_default\<lparr>arg_rpc_port := port, arg_http_port := httpport,
     arg_flags := or 0 rpc_server_flags_disable_http_server, arg_memory_avail_per_core := mem\<rparr>"

definition rpc_test_server ::
    "('is, 'sem, 'gate) seastar_env \<Rightarrow> boost_lib \<Rightarrow> zstd_lib \<Rightarrow> (bytes \<Rightarrow> string option) \<Rightarrow> (string \<Rightarrow> bytes) \<Rightarrow>
     rpc_server_args \<Rightarrow> ('is, 'sem, 'gate) rpc_server res" where
  "rpc_test_server E B Z root pack as =
     storage_server E B test_schema (demo_raws (env_xxh E) root pack rpc_test_Get)
       [zstd_decompression_filter (env_xxh E) Z] as"

definition kCoreMemory :: u32 where
  "kCoreMemory = push_bit 20 1"

definition backpressure_args :: "u64 \<Rightarrow> u64 \<Rightarrow> rpc_server_args" where
  "backpressure_args r1 r2 =
     (test_server_args r1 r2)\<lparr>arg_memory_avail_per_core := ucast (kCoreMemory + 200)\<rparr>"

definition recv_timeout_args :: "u64 \<Rightarrow> u64 \<Rightarrow> rpc_server_args" where
  "recv_timeout_args r1 r2 = rpc_server_args_default\<lparr>arg_rpc_port := random_port r1,
     arg_http_port := random_port r2, arg_flags := or 0 rpc_server_flags_disable_http_server,
     arg_recv_timeout_ms := 1\<rparr>"

text \<open>No test server starts the HTTP server, and its port is never a privileged one.\<close>

lemma test_servers_start:
  assumes "storage_server E B schema raws ins as = Inr s"
    "as \<in> {test_server_args r1 r2, backpressure_args r1 r2, recv_timeout_args r1 r2}"
  shows "admin s = None \<and> accepting s \<and> (\<exists>creds ip p. listener s = Some (creds, ip, p) \<and> 1024 \<le> p)"
  using assms non_root_port_bounds
  by (auto simp: storage_server_def register_service_def start_def rpc_server_new_def test_server_args_def
      backpressure_args_def recv_timeout_args_def rpc_server_flags_disable_http_server_def random_port_def
      rpc_server_args_default_def)

section \<open>The clients\<close>

definition kPayload1Kbytes :: string where
  "kPayload1Kbytes = concat (replicate 20 (replicate 50 (CHR ''x'')))"

text \<open>The poem of the RPC test, twice.\<close>

definition kPoem :: string where
  "kPoem = (let poem =
       ''How do I love thee? Let me count the ways.'' @
       ''I love thee to the depth and breadth and height'' @
       ''My soul can reach, when feeling out of sight'' @
       ''For the ends of being and ideal grace.'' @
       ''I love thee to the level of every day'' @ CHR 0x27 # ''s'' @
       ''Most quiet need, by sun and candle-light.'' @
       ''I love thee freely, as men strive for right.'' @
       ''I love thee purely, as they turn from praise.'' @
       ''I love thee with the passion put to use'' @
       ''In my old griefs, and with my childhood'' @ CHR 0x27 # ''s faith.'' @
       ''I love thee with a love I seemed to lose'' @
       ''With my lost saints. I love thee with the breath,'' @
       ''Smiles, tears, of all my life; and, if God choose,'' @
       ''I shall but love thee better after death.''
     in poem @ poem)"

text \<open>The generator of requests: a typed envelope with the payload as its name, serialised.\<close>

definition request_generator :: "xxh64 \<Rightarrow> (string \<Rightarrow> bytes) \<Rightarrow> string \<Rightarrow> rpc_envelope res" where
  "request_generator xxh pack payload =
     (let req = (rpc_typed_envelope_new '''')\<lparr>te_data := Some payload\<rparr>
      in rbind (serialize_data xxh pack req) (\<lambda>(e, _). Inr e))"

record demo_client_cfg =
  ccfg_ip :: string
  ccfg_port :: u16
  ccfg_req_num :: u32
  ccfg_concurrency :: u32
  ccfg_ca_cert :: string

definition demo_client_cfg_default :: demo_client_cfg where
  "demo_client_cfg_default = \<lparr>ccfg_ip = ''127.0.0.1'', ccfg_port = 20776, ccfg_req_num = 1000,
     ccfg_concurrency = 10, ccfg_ca_cert = ''''\<rparr>"

text \<open>\<open>parse_ip\<close> reads a dotted address, \<open>build\<close> reads the certificate.\<close>

definition demo_client_args ::
    "(string \<Rightarrow> u32) \<Rightarrow> (string \<Rightarrow> nat res) \<Rightarrow> u64 \<Rightarrow> demo_client_cfg \<Rightarrow> load_generator_args res" where
  "demo_client_args parse_ip build mem cfg =
     rbind (load_generator_args_new (parse_ip (ccfg_ip cfg), ccfg_port cfg) (ucast (ccfg_req_num cfg))
         (ucast (ccfg_concurrency cfg)) mem compression_flags_none)
       (\<lambda>largs. if ccfg_ca_cert cfg \<noteq> ''''
         then rbind (build (ccfg_ca_cert cfg)) (\<lambda>c. Inr (largs\<lparr>la_credentials := Some c\<rparr>))
         else Inr largs)"

text \<open>
  With its default options the client sends 100 requests on each of its 10 connections, and
  its benchmark can start.
\<close>

lemma demo_client_default_requests:
  assumes "demo_client_args parse_ip build mem demo_client_cfg_default = Inr largs"
  shows "reqs_per_channel largs = Inr 100 \<and> la_concurrency largs = 10"
  using assms
  by (auto simp: demo_client_args_def demo_client_cfg_default_def load_generator_args_new_def
      reqs_per_channel_def Let_def split: if_splits)

section \<open>The demo server echoes\<close>

text \<open>What the services rely on of flatbuffers: a string that is not empty is packed and read back.\<close>

definition table_law :: "(bytes \<Rightarrow> string option) \<Rightarrow> (string \<Rightarrow> bytes) \<Rightarrow> bool" where
  "table_law root pack \<longleftrightarrow> (\<forall>name. name \<noteq> '''' \<longrightarrow> root (pack name) = Some name \<and> pack name \<noteq> [])"

lemma demo_Get_echo:
  assumes "table_law root pack" "name \<noteq> ''''" "CHR 0x00 \<notin> set name" "ctx_payload q = pack name"
  shows "demo_Get (rpc_recv_typed_context_new root (Some q)) =
    Inr (reply_200 ((rpc_typed_envelope_new '''')\<lparr>te_data := Some name\<rparr>))"
  using assms by (simp add: demo_Get_def rpc_recv_typed_context_new_def typed_context_bool_def table_law_def
      c_str_id Let_def)

text \<open>A request without a name is read through a null pointer.\<close>

lemma demo_Get_null_name:
  "root (ctx_payload q) = None \<Longrightarrow>
   \<exists>why. demo_Get (rpc_recv_typed_context_new root (Some q)) = Inl (Undefined_behaviour why)"
  by (simp add: demo_Get_def rpc_recv_typed_context_new_def typed_context_bool_def Let_def)

lemma generator_envelope:
  assumes "length (pack payload) < 2 ^ 32"
  shows "\<exists>e. request_generator xxh pack payload = Inr e \<and> env_body e = pack payload \<and> well_formed xxh e \<and>
    hdr_compression (env_header e) = compression_flags_none"
proof -
  let ?te = "(rpc_typed_envelope_new '''')\<lparr>te_data := Some payload\<rparr>"
  have p: "plain_header (env_header (te_envelope ?te))"
    by (rule typed_plain [OF typed_data [OF typed_new]])
  obtain e te' where e: "serialize_data xxh pack ?te = Inr (e, te')" "env_body e = pack payload"
    "hdr_compression (env_header e) = hdr_compression (env_header (te_envelope ?te))"
    by (simp add: serialize_data_def native_table_as_buffer_def Let_def)
  have "well_formed xxh e"
    by (rule serialize_data_well_formed [OF p e(1)]) (use e(2) assms in simp)
  with e p show ?thesis by (simp add: request_generator_def plain_header_def Let_def)
qed

lemma demo_server_simps:
  assumes "demo_server E B Z root pack as = Inr s"
  shows "routes s = [generated_service (smf_service_new B demo_schema) (demo_raws (env_xxh E) root pack demo_Get)]"
    "in_filters s = [zstd_decompression_filter (env_xxh E) Z]" "out_filters s = []"
  using assms
  by (auto simp: demo_server_def storage_server_def register_service_def start_def rpc_server_new_def
      register_incoming_filter_def Let_def split: if_splits)

lemma demo_handle:
  assumes "table_law root pack" "name \<noteq> ''''" "CHR 0x00 \<notin> set name" "ctx_payload q = pack name"
    "length (pack name) < 2 ^ 32"
  shows "\<exists>r. generated_handle (demo_raws xxh root pack demo_Get 0) q = Inr r \<and> env_body r = pack name \<and>
    hdr_session (env_header r) = ctx_session q \<and> hdr_meta (env_header r) = 200 \<and> well_formed xxh r"
proof -
  let ?te = "reply_200 ((rpc_typed_envelope_new '''')\<lparr>te_data := Some name\<rparr>)"
  have t: "typed ?te" unfolding reply_200_def by (intro typed.intros)
  obtain e te' where e: "serialize_data xxh pack ?te = Inr (e, te')" "env_body e = pack name"
    "hdr_meta (env_header e) = 200"
    by (simp add: serialize_data_def native_table_as_buffer_def reply_200_def set_status_def Let_def)
  have "well_formed xxh e"
    by (rule serialize_data_well_formed [OF typed_plain [OF t] e(1)]) (use e(2) assms(5) in simp)
  then have "well_formed xxh (mutate_session (ctx_session q) e)" by (rule well_formed_header_ops)
  with e show ?thesis
    by (simp add: generated_handle_def demo_raws_def raw_method_def demo_Get_echo [OF assms(1-4)]
      mutate_session_def Let_def)
qed

text \<open>
  C15: the demo server echoes. A request that the demo client generates for a name (not empty,
  without zero bytes) and sends through the stub of \<^verbatim>\<open>Get\<close>, is received by a server built as
  the demo server builds it, passes its incoming filter unchanged and is routed to \<^verbatim>\<open>Get\<close>;
  the reply passes the outgoing filters unchanged, carries the session of the call, status
  200 and the same name, and the client accepts it; all this unless the checksum of the
  packed name or the id of the method happens to be 0.
\<close>

theorem demo_server_echoes:
  fixes E :: "('is, 'sem, 'gate) seastar_env"
  assumes law: "istream_law (env_istream E) pending" and flat: "table_law root pack"
    and server: "demo_server E B Z root pack as = Inr s"
    and ids: "distinct (map request_id_of (s_methods (smf_service_new B demo_schema)))"
      "request_id_of (s_methods (smf_service_new B demo_schema) ! 0) \<noteq> 0"
    and name: "name \<noteq> ''''" "CHR 0x00 \<notin> set name" "length (pack name) < 2 ^ 31"
      "rpc_checksum_payload (env_xxh E) (pack name) (word_of_nat (length (pack name))) \<noteq> 0"
    and call: "request_generator (env_xxh E) pack name = Inr e"
      "req = mutate_session sess (client_stub (s_methods (smf_service_new B demo_schema) ! 0) e)"
      "rpc_envelope_send dbg [] req = Inr out"
    and conn: "conn_istream_active_parser c = 0" "pending (conn_istream c) = wire_bytes out @ rest"
  shows "\<exists>q j h reply. recv_message (env_dbg E) (env_istream E) (env_xxh E) c = (Inr (Some q), c\<lparr>conn_istream := j\<rparr>) \<and>
    pending j = rest \<and> get_handle_for_request (routes s) (ctx_request_id q) = Some h \<and>
    rpc_filter_apply (in_filters s) q = Inr q \<and> h q = Inr reply \<and>
    rpc_filter_apply (out_filters s) reply = Inr reply \<and> hdr_session (env_header reply) = sess \<and>
    hdr_meta (env_header reply) = 200 \<and> root (env_body reply) = Some name \<and> sendable (env_xxh E) reply"
proof -
  let ?m = "s_methods (smf_service_new B demo_schema) ! 0" and ?xxh = "env_xxh E"
  let ?raws = "demo_raws ?xxh root pack demo_Get"
  have pk: "pack name \<noteq> []" "root (pack name) = Some name" using flat name(1) by (simp_all add: table_law_def)
  obtain e: "env_body e = pack name" "well_formed ?xxh e" "hdr_compression (env_header e) = compression_flags_none"
    using generator_envelope [of pack name ?xxh] call(1) name(3) by auto
  have wf: "well_formed ?xxh req" unfolding call(2) by (intro well_formed_header_ops e)
  have r: "env_body req = pack name" "hdr_meta (env_header req) = request_id_of ?m" "hdr_session (env_header req) = sess"
    "hdr_compression (env_header req) = compression_flags_none"
    using e by (simp_all add: call(2) header_ops request_id_of_def)
  have "sendable ?xxh req"
    using well_formed_sendable [OF wf] r name(3,4) ids(2) pk by simp
  from recv_sent [OF law conn(1) this call(3) conn(2)] obtain j where
    j: "recv_message (env_dbg E) (env_istream E) ?xxh c = (Inr (Some (received c req)), c\<lparr>conn_istream := j\<rparr>)"
      "pending j = rest" by blast
  have q: "ctx_payload (received c req) = pack name" "ctx_session (received c req) = sess"
    "ctx_request_id (received c req) = request_id_of ?m"
    "hdr_compression (ctx_header (received c req)) = compression_flags_none"
    using r by (simp_all add: received_def ctx_session_def ctx_request_id_def normalise_compression_def
      compression_flags_defs)
  have len: "0 < length (s_methods (smf_service_new B demo_schema))"
    unfolding schema_methods by simp
  have h: "get_handle_for_request (routes s) (ctx_request_id (received c req)) = Some (generated_handle (?raws 0))"
    using generated_service_lookup [OF ids(1) len, of ?raws]
    by (simp add: demo_server_simps [OF server] q generated_service_def)
  have f: "rpc_filter_apply (in_filters s) (received c req) = Inr (received c req)"
    by (simp add: demo_server_simps [OF server] zstd_decompression_filter_def q compression_flags_defs)
  obtain reply where reply: "generated_handle (?raws 0) (received c req) = Inr reply" "env_body reply = pack name"
    "hdr_session (env_header reply) = sess" "hdr_meta (env_header reply) = 200" "well_formed ?xxh reply"
    using demo_handle [OF flat name(1,2) q(1), of ?xxh] name(3) q(2) by auto
  have "sendable ?xxh reply"
    using well_formed_sendable [OF reply(5)] reply name(3,4) pk by simp
  with j h f reply pk show ?thesis
    by (intro exI [of _ "received c req"] exI [of _ j] exI [of _ "generated_handle (?raws 0)"] exI [of _ reply])
      (simp add: demo_server_simps [OF server])
qed

text \<open>A concrete instance of the parameters, with all the laws.\<close>

definition example_pack :: "string \<Rightarrow> bytes" where
  "example_pack name = 1 # map (\<lambda>c. word_of_nat (of_char c)) name"

definition example_root :: "bytes \<Rightarrow> string option" where
  "example_root bs = (if length bs \<le> 1 then None else Some (map (\<lambda>b. char_of (unat b)) (tl bs)))"

lemma example_table_law: "table_law example_root example_pack"
proof -
  have "char_of (unat (word_of_nat (of_char c) :: byte)) = c" for c
    using nat_of_char_less_256 [of c] by (simp add: unat_of_nat)
  then show ?thesis by (auto simp: table_law_def example_root_def example_pack_def comp_def)
qed

definition example_crc :: boost_lib where
  "example_crc = \<lparr>boost_crc_32 = (\<lambda>s. word_of_nat (of_char (hd s) + 7 * length s)), boost_join = (\<lambda>xs sep. concat xs)\<rparr>"

lemma example_crc_ids:
  "distinct (map request_id_of (s_methods (smf_service_new example_crc demo_schema)))"
  "request_id_of (s_methods (smf_service_new example_crc demo_schema) ! 0) \<noteq> 0"
  by (simp_all add: smf_service_new_def demo_schema_def demo_call_def smf_method_new_def request_id_of_def
      crc32_def type_cpp_def example_crc_def Let_def)

theorem demo_server_echoes_witness:
  "\<exists>s e out q j h reply. demo_server example_env example_crc example_zstd example_root example_pack
       rpc_server_args_default = Inr s \<and> request_generator example_xxh example_pack ''hi'' = Inr e \<and>
     rpc_envelope_send True [] (mutate_session 3 (client_stub
       (s_methods (smf_service_new example_crc demo_schema) ! 0) e)) = Inr out \<and>
     recv_message False list_istream example_xxh (rpc_connection_new (wire_bytes out @ [9]) (0, 0) None) =
       (Inr (Some q), (rpc_connection_new (wire_bytes out @ [9]) (0, 0) None)\<lparr>conn_istream := j\<rparr>) \<and>
     get_handle_for_request (routes s) (ctx_request_id q) = Some h \<and> h q = Inr reply \<and>
     example_root (env_body reply) = Some ''hi'' \<and> sendable example_xxh reply"
proof -
  let ?m = "s_methods (smf_service_new example_crc demo_schema) ! 0"
  obtain s where s: "demo_server example_env example_crc example_zstd example_root example_pack
      rpc_server_args_default = Inr s"
    by (simp add: demo_server_def storage_server_def register_service_def)
  obtain e where e: "request_generator example_xxh example_pack ''hi'' = Inr e" "well_formed example_xxh e"
    "env_body e = example_pack ''hi''"
    using generator_envelope [of example_pack "''hi''" example_xxh] by (auto simp: example_pack_def)
  have x: "env_xxh example_env = example_xxh" "env_istream example_env = list_istream" "env_dbg example_env = False"
    by (simp_all add: example_env_def)
  let ?req = "mutate_session 3 (client_stub ?m e)"
  have ck: "rpc_checksum_payload example_xxh bs n \<noteq> 0" for bs n
    by (simp add: rpc_checksum_payload_def example_xxh_def)
  have "well_formed example_xxh ?req" by (intro well_formed_header_ops e)
  from well_formed_sendable [OF this] have "sendable example_xxh ?req"
    using ck e(3) example_crc_ids(2) by (simp add: header_ops request_id_of_def example_pack_def)
  then obtain out where out: "rpc_envelope_send True [] ?req = Inr out"
    using rpc_envelope_send_sendable by blast
  show ?thesis
    using demo_server_echoes [of example_env "\<lambda>s. s", unfolded x, OF list_istream_law example_table_law s example_crc_ids
        _ _ _ ck e(1) refl out, of "rpc_connection_new (wire_bytes out @ [9]) (0, 0) None" "[9]"] s e out
    by (simp add: rpc_connection_new_def example_pack_def) blast
qed

section \<open>The test of the receive timeout\<close>

text \<open>The test writes only this header, \<open>300\<close> bytes announced, and no body.\<close>

definition recv_timeout_header :: header where
  "recv_timeout_header = default_header\<lparr>hdr_size := 300, hdr_checksum := 1234234\<rparr>"

text \<open>
  C24: the test of the receive timeout does not reach the timeout. The header it sends has no
  request id, so a server that reads it sets the error of the connection and never waits for a
  body; the session then ends at once, without any timer armed.
\<close>

theorem recv_timeout_test_header_refused:
  fixes E :: "('is, 'sem, 'gate) seastar_env"
  assumes "istream_law (env_istream E) pending" "conn_istream_active_parser c = 0"
    "pending (conn_istream c) = header_bytes recv_timeout_header @ rest"
  shows "\<exists>c' s'. session_header E Proceed cid c s = (set_conn cid c' s, [Session cid]) \<and>
    has_error c' \<and> session_loop E cid c' (set_conn cid c' s) = (s', [])"
proof -
  have "\<not> valid_header recv_timeout_header"
    by (simp add: valid_header_def recv_timeout_header_def default_header_def)
  from recv_refused [OF assms this, of "env_dbg E"] obtain j where
    j: "parse_header (env_dbg E) (env_istream E) c = (Inr None, c\<lparr>conn_istream := j\<rparr>)" by blast
  let ?c = "set_error ''Error parsing connection header'' (c\<lparr>conn_istream := j\<rparr>)"
  have "session_header E Proceed cid c s = (set_conn cid ?c s, [Session cid])"
    by (simp add: session_header_def j)
  moreover have "has_error ?c" by simp
  moreover have "session_loop E cid ?c (set_conn cid ?c s) = (cleanup_dispatch_rpc cid ?c (set_conn cid ?c s), [])"
    by (simp add: session_loop_def not_valid_set_error)
  ultimately show ?thesis by blast
qed

theorem recv_timeout_test_header_refused_witness:
  "\<exists>c' s'. session_header example_env Proceed 1
       (rpc_connection_new (header_bytes recv_timeout_header) (0, 0) None)
       (rpc_server_new example_env (recv_timeout_args 5 6)) =
     (set_conn 1 c' (rpc_server_new example_env (recv_timeout_args 5 6)), [Session 1]) \<and> has_error c' \<and>
     session_loop example_env 1 c' (set_conn 1 c' (rpc_server_new example_env (recv_timeout_args 5 6))) = (s', [])"
  using recv_timeout_test_header_refused [of example_env "\<lambda>s. s"
      "rpc_connection_new (header_bytes recv_timeout_header) (0, 0) None" "[]" 1
      "rpc_server_new example_env (recv_timeout_args 5 6)"]
  by (simp add: example_env_def list_istream_law rpc_connection_new_def)

section \<open>The clients of the test with several addresses\<close>

text \<open>
  A network interface as \<^verbatim>\<open>getifaddrs\<close> lists it: \<open>if_family\<close> is None where \<^verbatim>\<open>ifa_addr\<close> is
  null. The linked list is a list, the null pointer its end.
\<close>

record ifaddr =
  if_name :: string
  if_family :: "nat option"
  if_running :: bool
  if_ip :: u32

definition AF_INET :: nat where
  "AF_INET = 2"

fun next_valid_interface :: "ifaddr list \<Rightarrow> ifaddr list res" where
  "next_valid_interface [] = Inl (Undefined_behaviour ''name of a null interface'')"
| "next_valid_interface (ifa # rest) =
     (case if_family ifa of
        None \<Rightarrow> Inl (Undefined_behaviour ''family of a null address'')
      | Some family \<Rightarrow> if family = AF_INET \<and> if_running ifa then Inr (ifa # rest)
                       else next_valid_interface rest)"

definition kMaxClients :: nat where
  "kMaxClients = 2"

text \<open>The loop of the constructor, with the number of clients still to add.\<close>

fun add_clients ::
    "(string \<Rightarrow> fmt_arg list \<Rightarrow> string) \<Rightarrow> u16 \<Rightarrow> nat \<Rightarrow> ifaddr list \<Rightarrow> address list res" where
  "add_clients fmt port 0 ifa = Inr []"
| "add_clients fmt port (Suc n) ifa =
     rbind (next_valid_interface ifa) (\<lambda>next.
     rbind (throw_if_null fmt ''main.cc'' 70 ''client_dispatcher::next_valid_interface(ifa)''
         (if next = [] then None else Some (hd next, tl next)))
       (\<lambda>(ifa', rest). rbind (add_clients fmt port n rest) (\<lambda>cs. Inr ((if_ip ifa', port) # cs))))"

definition client_dispatcher_new ::
    "(string \<Rightarrow> fmt_arg list \<Rightarrow> string) \<Rightarrow> u16 \<Rightarrow> ifaddr list \<Rightarrow> address list res" where
  "client_dispatcher_new fmt port ifs =
     rbind (next_valid_interface ifs) (\<lambda>ifa. add_clients fmt port kMaxClients ifa)"

definition usable :: "ifaddr \<Rightarrow> bool" where
  "usable ifa \<longleftrightarrow> if_family ifa = Some AF_INET \<and> if_running ifa"

lemma filter_dropWhile_not: "filter P (dropWhile (\<lambda>x. \<not> P x) xs) = filter P xs"
  by (induction xs) auto

lemma next_valid_interface_dropWhile:
  assumes "list_all (\<lambda>i. if_family i \<noteq> None) ifs"
  shows "next_valid_interface ifs = (if dropWhile (\<lambda>i. \<not> usable i) ifs = []
    then Inl (Undefined_behaviour ''name of a null interface'') else Inr (dropWhile (\<lambda>i. \<not> usable i) ifs))"
  using assms by (induction ifs) (auto simp: usable_def)

lemma add_clients_usable:
  assumes "list_all (\<lambda>i. if_family i \<noteq> None) ifs"
  shows "add_clients fmt port n ifs =
    (if n \<le> length (filter usable ifs) then Inr (map (\<lambda>i. (if_ip i, port)) (take n (filter usable ifs)))
     else Inl (Undefined_behaviour ''name of a null interface''))"
  using assms
proof (induction n arbitrary: ifs)
  case (Suc n)
  show ?case
  proof (cases "dropWhile (\<lambda>i. \<not> usable i) ifs")
    case Nil
    then have "filter usable ifs = []" by (auto simp: filter_empty_conv dropWhile_eq_Nil_conv)
    with Nil show ?thesis by (simp add: next_valid_interface_dropWhile [OF Suc(2)])
  next
    case (Cons i rest)
    have "usable i" using hd_dropWhile [of "\<lambda>i. \<not> usable i" ifs] Cons by simp
    then have f: "filter usable ifs = i # filter usable rest"
      using filter_dropWhile_not [of usable ifs] Cons by simp
    have "list_all (\<lambda>i. if_family i \<noteq> None) rest"
      using Suc(2) Cons set_dropWhileD [of _ "\<lambda>i. \<not> usable i" ifs] by (auto simp: list_all_iff)
    from Suc(1) [OF this] show ?thesis
      by (simp add: next_valid_interface_dropWhile [OF Suc(2)] Cons f throw_if_null_def)
  qed
qed simp

text \<open>
  The test with several addresses needs two interfaces and does not check for them. When
  at least two interfaces run IPv4, its clients use the first two of them, in order; otherwise
  the constructor reads the name of a null interface, before the check for null that should
  report it.
\<close>

lemma client_dispatcher_interfaces:
  assumes "list_all (\<lambda>i. if_family i \<noteq> None) ifs"
  shows "client_dispatcher_new fmt port ifs =
    (if 2 \<le> length (filter usable ifs)
     then Inr (map (\<lambda>i. (if_ip i, port)) (take 2 (filter usable ifs)))
     else Inl (Undefined_behaviour ''name of a null interface''))"
proof (cases "dropWhile (\<lambda>i. \<not> usable i) ifs = []")
  case True
  then have "filter usable ifs = []" by (auto simp: filter_empty_conv dropWhile_eq_Nil_conv)
  with True show ?thesis
    by (simp add: client_dispatcher_new_def next_valid_interface_dropWhile [OF assms])
next
  case False
  have "list_all (\<lambda>i. if_family i \<noteq> None) (dropWhile (\<lambda>i. \<not> usable i) ifs)"
    using assms set_dropWhileD [of _ "\<lambda>i. \<not> usable i" ifs] by (auto simp: list_all_iff)
  then show ?thesis
    using filter_dropWhile_not [of usable ifs] False
      add_clients_usable [of "dropWhile (\<lambda>i. \<not> usable i) ifs" fmt port kMaxClients]
    by (simp add: client_dispatcher_new_def next_valid_interface_dropWhile [OF assms] kMaxClients_def)
qed

lemma client_dispatcher_interfaces_witness:
  "client_dispatcher_new (\<lambda>f xs. f) 8080
     [\<lparr>if_name = ''lo'', if_family = Some 2, if_running = True, if_ip = 1\<rparr>,
      \<lparr>if_name = ''eth0'', if_family = Some 10, if_running = True, if_ip = 2\<rparr>] =
   Inl (Undefined_behaviour ''name of a null interface'')"
  by (subst client_dispatcher_interfaces) (simp_all add: usable_def AF_INET_def)

section \<open>The other tests\<close>

text \<open>The test of the backoff: no server listens, so the first reconnect fails.\<close>

definition hystrix_check :: "reconnect_backoff \<Rightarrow> unit res" where
  "hystrix_check backoff = (if backoff \<noteq> 1 then Inl (Runtime_error ''Must be 1 second backoff'') else Inr ())"

lemma hystrix_test_passes:
  assumes "gate_counts E cnt"
  shows "\<exists>s. run (rc_step E) (reconnect_client_new E) [Rc_connect False, Rc_failed r] s \<and>
    hystrix_check (rc_backoff s) = Inr ()"
proof -
  obtain g where g: "gate_enter E (gate_init E) = Some g" "\<not> gate_is_closed E (gate_init E)" "\<not> gate_is_closed E g"
    using assms gate_enter_cases [OF assms, of "gate_init E"] by (auto simp: gate_counts_def)
  obtain g' where g': "gate_enter E g = Some g'"
    using gate_enter_cases [OF assms, of g] g(3) by blast
  have "\<exists>s. rc_play E (reconnect_client_new E) [Rc_connect False, Rc_failed r] = Some s \<and> rc_backoff s = 1"
    by (simp add: reconnect_client_new_def rc_connect_def reconnect_failed_def g g' Let_def backoff_none_def
      next_backoff_def clamp_table_def)
  then show ?thesis using rc_play_run by (fastforce simp: hystrix_check_def)
qed

text \<open>The test of the histograms records the squares below a million.\<close>

definition histogram_test :: "('h, 'it) hdr_lib \<Rightarrow> 'h hist_t res" where
  "histogram_test L = rbind (histogram_make L kDefaultHistogramMaxValue)
     (\<lambda>h. Inr (foldl (\<lambda>h i. record_value L (word_of_nat i * word_of_nat i) h) h [0..<1000]))"

lemma histogram_test_counts:
  assumes "histogram_test L = Inr h"
  shows "ht_sample_count h = 1000 \<and> ht_sample_sum h = 332833500"
proof -
  let ?rec = "\<lambda>h i. record_value L (word_of_nat i * word_of_nat i) h"
  have "ht_sample_count (foldl ?rec g [0..<n]) = ht_sample_count g + word_of_nat n \<and>
      ht_sample_sum (foldl ?rec g [0..<n]) = ht_sample_sum g + word_of_nat (\<Sum>i<n. i * i)" for g n
    by (induction n) (simp_all add: record_value_def)
  moreover have "6 * (\<Sum>i<n. i * i) + 3 * n * n = 2 * n * n * n + n" for n :: nat
    by (induction n) (simp_all add: algebra_simps)
  from this [of 1000] have sum: "(\<Sum>i<1000. i * i) = (332833500 :: nat)" by simp
  have "(\<Sum>i<1000. word_of_nat i * word_of_nat i) = (332833500 :: u64)"
    using arg_cong [OF sum, of "word_of_nat :: nat \<Rightarrow> u64"] by simp
  ultimately show ?thesis
    using assms by (auto simp: histogram_test_def histogram_make_def rbind_Inr_iff split: option.splits)
qed

text \<open>
  The tests of the timeouts of a client: a handler of exceptions follows the check, so the
  exception that the check throws is handled as well.
\<close>

fun handle_exception :: "(exn \<Rightarrow> 'a res) \<Rightarrow> 'a res \<Rightarrow> 'a res" where
  "handle_exception f (Inl e) = f e"
| "handle_exception f (Inr x) = Inr x"

definition send_timeout_request :: "'r res \<Rightarrow> unit res" where
  "send_timeout_request reply =
     handle_exception (\<lambda>err. Inr ()) (rbind reply (\<lambda>_. Inl (Runtime_error ''SHOULD HAVE TIMED OUT'')))"

definition reconnect_request :: "(string \<Rightarrow> int res) \<Rightarrow> unit res \<Rightarrow> string option res \<Rightarrow> unit res" where
  "reconnect_request stoi reconnected reply =
     handle_exception (\<lambda>err. reconnected)
       (rbind reply (\<lambda>name. case name of
          None \<Rightarrow> Inl (Undefined_behaviour ''name of a null string'')
        | Some n \<Rightarrow> rbind (stoi (c_str n)) check_server_counter))"

text \<open>Neither test can fail on what it checks.\<close>

lemma timeout_tests_never_fail:
  "send_timeout_request reply = Inr ()" "reconnect_request stoi (Inr ()) reply' = Inr ()"
  by (cases reply, auto simp: send_timeout_request_def)
    (cases "rbind reply' (\<lambda>name. case name of
          None \<Rightarrow> Inl (Undefined_behaviour ''name of a null string'')
        | Some n \<Rightarrow> rbind (stoi (c_str n)) check_server_counter)", simp_all add: reconnect_request_def)

end
