(* ===== verification/Test_Runner.thy ===== *)
theory Test_Runner
  imports Smfc_Printer "HOL-Library.Sublist"
begin

text \<open>
  The script that runs the tests (src/test_runner.py): it reads the configuration of a test,
  makes a temporary home, runs the program as often as the configuration asks for and removes
  the temporary home again. The operating system is the parameter \<open>host\<close>: what the file
  system holds, what a program does when it runs, the random generator and the text Python
  prints for lists and dictionaries. What the script changes is the record \<open>world\<close>.
\<close>

section \<open>Python values\<close>

text \<open>
  What \<^verbatim>\<open>json.loads\<close> gives. The entries of an object are in the order of the text, where the
  last one of a key counts; a number with a fraction or an exponent is kept as what
  \<^verbatim>\<open>int\<close> makes of it (nothing for an infinity) and its text.
\<close>

datatype json =
    J_null
  | J_bool bool
  | J_int int
  | J_float "int option" string
  | J_str string
  | J_list "json list"
  | J_obj "(string \<times> json) list"

type_synonym config = "string \<rightharpoonup> json"
type_synonym environment = "string \<rightharpoonup> string"

datatype py_exn =
    Py_exception string
  | CalledProcessError int string
  | KeyError string
  | Type_error
  | Value_error
  | Overflow_error
  | Os_error
  | Config_error
  | Wait_error
  | System_exit int

text \<open>\<^verbatim>\<open>int(x)\<close>: text may have blanks around it, a sign and single underscores.\<close>

definition is_space :: "char \<Rightarrow> bool" where
  "is_space c \<longleftrightarrow> c = CHR '' '' \<or> (9 \<le> (of_char c :: nat) \<and> (of_char c :: nat) \<le> 13)"

definition py_strip :: "string \<Rightarrow> string" where
  "py_strip s = rev (dropWhile is_space (rev (dropWhile is_space s)))"

fun py_digits :: "int \<Rightarrow> string \<Rightarrow> int option" where
  "py_digits acc [] = Some acc"
| "py_digits acc (c # cs) =
     (if is_digit c then py_digits (10 * acc + (int (of_char c) - 48)) cs
      else if c = CHR ''_'' \<and> cs \<noteq> [] \<and> is_digit (hd cs) then py_digits acc cs
      else None)"

definition py_unsigned :: "string \<Rightarrow> int option" where
  "py_unsigned s = (if s \<noteq> [] \<and> is_digit (hd s) then py_digits 0 s else None)"

definition py_parse_int :: "string \<Rightarrow> int option" where
  "py_parse_int s =
     (case py_strip s of
        [] \<Rightarrow> None
      | c # cs \<Rightarrow>
          if c = CHR ''-'' then map_option uminus (py_unsigned cs)
          else if c = CHR ''+'' then py_unsigned cs
          else py_unsigned (c # cs))"

fun py_int :: "json \<Rightarrow> py_exn + int" where
  "py_int (J_int n) = Inr n"
| "py_int (J_bool b) = Inr (if b then 1 else 0)"
| "py_int (J_float None _) = Inl Overflow_error"
| "py_int (J_float (Some n) _) = Inr n"
| "py_int (J_str s) = (case py_parse_int s of None \<Rightarrow> Inl Value_error | Some n \<Rightarrow> Inr n)"
| "py_int _ = Inl Type_error"

text \<open>\<^verbatim>\<open>str(x)\<close>.\<close>

fun py_str :: "(json \<Rightarrow> string) \<Rightarrow> json \<Rightarrow> string" where
  "py_str repr J_null = ''None''"
| "py_str repr (J_bool b) = (if b then ''True'' else ''False'')"
| "py_str repr (J_int n) = (if n < 0 then ''-'' else '''') @ to_string (nat \<bar>n\<bar>)"
| "py_str repr (J_float _ t) = t"
| "py_str repr (J_str s) = s"
| "py_str repr v = repr v"

text \<open>
  \<^verbatim>\<open>string.Template(s).safe_substitute(d)\<close>: \<open>$$\<close>, \<open>$name\<close> and \<open>${name}\<close>; a name
  without a value and any other \<open>$\<close> stay as they are.
\<close>

definition id_start :: "char \<Rightarrow> bool" where
  "id_start c \<longleftrightarrow> c = CHR ''_'' \<or>
     (let k = of_char c :: nat in 65 \<le> k \<and> k \<le> 90 \<or> 97 \<le> k \<and> k \<le> 122)"

definition id_char :: "char \<Rightarrow> bool" where
  "id_char c \<longleftrightarrow> id_start c \<or> is_digit c"

definition id_at :: "string \<Rightarrow> bool" where
  "id_at s \<longleftrightarrow> s \<noteq> [] \<and> id_start (hd s)"

definition braced_at :: "string \<Rightarrow> bool" where
  "braced_at s \<longleftrightarrow> s \<noteq> [] \<and> hd s = CHR ''{'' \<and> id_at (tl s) \<and>
     dropWhile id_char (tl s) \<noteq> [] \<and> hd (dropWhile id_char (tl s)) = CHR ''}''"

function safe_substitute :: "(string \<Rightarrow> string option) \<Rightarrow> string \<Rightarrow> string" where
  "safe_substitute look s =
     (case s of
        [] \<Rightarrow> []
      | c # r \<Rightarrow>
          if c \<noteq> CHR ''$'' then c # safe_substitute look r
          else if r \<noteq> [] \<and> hd r = CHR ''$'' then CHR ''$'' # safe_substitute look (tl r)
          else if id_at r then
            (let n = takeWhile id_char r
             in (case look n of None \<Rightarrow> CHR ''$'' # n | Some v \<Rightarrow> v) @
                safe_substitute look (dropWhile id_char r))
          else if braced_at r then
            (let n = takeWhile id_char (tl r)
             in (case look n of None \<Rightarrow> ''${'' @ n @ ''}'' | Some v \<Rightarrow> v) @
                safe_substitute look (tl (dropWhile id_char (tl r))))
          else CHR ''$'' # safe_substitute look r)"
  by pat_completeness auto
termination
proof (relation "measure (\<lambda>(look, s). length s)", goal_cases)
  case (4 look s c r)
  then show ?case by (simp add: less_Suc_eq_le length_dropWhile_le)
next
  case (5 look s c r)
  then show ?case
    using length_dropWhile_le [of id_char "tl r"] by (cases r) simp_all
qed auto

declare safe_substitute.simps [simp del]

lemma safe_substitute_plain: "CHR ''$'' \<notin> set s \<Longrightarrow> safe_substitute look s = s"
  by (induction s) (auto simp: safe_substitute.simps)

section \<open>The host and the world\<close>

text \<open>
  \<open>h_load f\<close> is \<^verbatim>\<open>json.loads(open(f).read())\<close>, \<open>None\<close> when either raises. \<open>h_glob\<close>
  takes the working directory as well, because a relative pattern depends on it.
  \<open>h_proc n cmd d env ds\<close> is the n-th program started, with its command line, directory,
  environment and the directories that exist: the exit code (\<open>None\<close> when waiting for it
  raises) and the directories that exist then.
\<close>

record host =
  h_environ :: environment
  h_isfile :: "string \<Rightarrow> bool"
  h_load :: "string \<Rightarrow> json option"
  h_glob :: "string \<Rightarrow> string \<Rightarrow> string list"
  h_copy_ok :: "string \<Rightarrow> string \<Rightarrow> bool"
  h_choice :: "nat \<Rightarrow> string \<Rightarrow> char"
  h_mkdtemp :: "string \<Rightarrow> string \<Rightarrow> string list \<Rightarrow> string"
  h_proc :: "nat \<Rightarrow> string \<Rightarrow> string \<Rightarrow> environment \<Rightarrow> string list \<Rightarrow> int option \<times> string list"
  h_repr :: "json \<Rightarrow> string"

record world =
  w_cwd :: string
  w_dirs :: "string list"
  w_copied :: "(string \<times> string) list"
  w_runs :: "(string \<times> int option) list"

type_synonym ('s, 'a) py = "'s \<Rightarrow> (py_exn + 'a) \<times> 's"

definition pbind :: "('s, 'a) py \<Rightarrow> ('a \<Rightarrow> ('s, 'b) py) \<Rightarrow> ('s, 'b) py" where
  "pbind m f w = (case m w of (Inl e, w') \<Rightarrow> (Inl e, w') | (Inr a, w') \<Rightarrow> f a w')"

definition below :: "string \<Rightarrow> string \<Rightarrow> bool" where
  "below d p \<longleftrightarrow> p = d \<or> prefix (d @ ''/'') p"

text \<open>\<^verbatim>\<open>shutil.rmtree\<close>: the directory and everything below it.\<close>

definition rmtree :: "string \<Rightarrow> (world, unit) py" where
  "rmtree d w =
     (if d \<in> set (w_dirs w)
      then (Inr (), w\<lparr>w_dirs := filter (\<lambda>p. \<not> below d p) (w_dirs w)\<rparr>)
      else (Inl Os_error, w))"

section \<open>The script\<close>

definition KTEST_DIR_PREFIX :: string where
  "KTEST_DIR_PREFIX = ''smf_test_''"

definition ascii_letters_digits :: string where
  "ascii_letters_digits = ''abcdefghijklmnopqrstuvwxyz'' @ ''ABCDEFGHIJKLMNOPQRSTUVWXYZ'' @ ''0123456789''"

definition gen_alphanum :: "host \<Rightarrow> nat \<Rightarrow> string" where
  "gen_alphanum h x = map (\<lambda>k. h_choice h k ascii_letters_digits) [0..<x]"

definition test_environ :: "host \<Rightarrow> environment" where
  "test_environ h = (h_environ h)
     (''GLOG_logtostderr'' \<mapsto> ''1'', ''GLOG_v'' \<mapsto> ''1'', ''GLOG_vmodule'' \<mapsto> '''',
      ''GLOG_logbufsecs'' \<mapsto> ''0'', ''GLOG_log_dir'' \<mapsto> ''.'', ''GTEST_COLOR'' \<mapsto> ''no'',
      ''GTEST_SHUFFLE'' \<mapsto> ''1'', ''GTEST_BREAK_ON_FAILURE'' \<mapsto> ''1'', ''GTEST_REPEAT'' \<mapsto> ''1'')"

definition hydrate :: "host \<Rightarrow> config \<Rightarrow> string \<Rightarrow> string" where
  "hydrate h cfg cmd = safe_substitute (\<lambda>k. map_option (py_str (h_repr h)) (cfg k)) cmd"

definition run_subprocess :: "host \<Rightarrow> string \<Rightarrow> config \<Rightarrow> environment \<Rightarrow> (world, unit) py" where
  "run_subprocess h cmd cfg env w =
     (case cfg ''execution_directory'' of
        Some (J_str d) \<Rightarrow>
          if d \<notin> set (w_dirs w) then (Inl (Py_exception (''Test directory does not exist: '' @ d)), w)
          else
            (let hydrated_cmd = hydrate h cfg cmd;
                 (return_code, ds) =
                   h_proc h (length (w_runs w)) (''exec '' @ hydrated_cmd) d env (w_dirs w);
                 w' = w\<lparr>w_cwd := d, w_dirs := ds,
                        w_runs := w_runs w @ [(''exec '' @ hydrated_cmd, return_code)]\<rparr>
             in case return_code of
                  None \<Rightarrow> (Inl Wait_error, w')
                | Some c \<Rightarrow> (if c \<noteq> 0 then Inl (CalledProcessError c hydrated_cmd) else Inr (), w'))
      | Some _ \<Rightarrow> (Inl Type_error, w)
      | None \<Rightarrow> (Inl (KeyError ''execution_directory''), w))"

fun copy_globbed :: "host \<Rightarrow> string \<Rightarrow> string list \<Rightarrow> (world, unit) py" where
  "copy_globbed h dirpath [] w = (Inr (), w)"
| "copy_globbed h dirpath (g # gs) w =
     (if h_copy_ok h g dirpath
      then copy_globbed h dirpath gs (w\<lparr>w_copied := w_copied w @ [(g, dirpath)]\<rparr>)
      else (Inl Os_error, w))"

fun copy_files :: "host \<Rightarrow> config \<Rightarrow> string \<Rightarrow> json list \<Rightarrow> (world, unit) py" where
  "copy_files h cfg dirpath [] w = (Inr (), w)"
| "copy_files h cfg dirpath (f # fs) w =
     (case cfg ''source_directory'' of
        None \<Rightarrow> (Inl (KeyError ''source_directory''), w)
      | Some src \<Rightarrow>
          (case (src, f) of
             (J_str s, J_str n) \<Rightarrow>
               pbind (copy_globbed h dirpath (h_glob h (w_cwd w) (s @ ''/'' @ n)))
                     (\<lambda>_. copy_files h cfg dirpath fs) w
           | _ \<Rightarrow> (Inl Type_error, w)))"

definition make_home :: "host \<Rightarrow> config \<Rightarrow> world \<Rightarrow> string \<times> environment \<times> world" where
  "make_home h cfg w =
     (if cfg ''tmp_home'' \<noteq> None
      then let d = h_mkdtemp h (gen_alphanum h 16) KTEST_DIR_PREFIX (w_dirs w)
           in (d, (test_environ h)(''HOME'' \<mapsto> d), w\<lparr>w_cwd := d, w_dirs := d # w_dirs w\<rparr>)
      else (w_cwd w, test_environ h, w))"

definition set_up_test_environment :: "host \<Rightarrow> config \<Rightarrow> (world, environment \<times> config) py" where
  "set_up_test_environment h cfg w =
     (let (dirpath, test_env, w1) = make_home h cfg w;
          files_to_copy = (case cfg ''copy_files'' of Some (J_list fs) \<Rightarrow> fs | _ \<Rightarrow> [])
      in pbind (copy_files h cfg dirpath files_to_copy)
               (\<lambda>_ w2. (Inr (test_env, cfg(''execution_directory'' \<mapsto> J_str dirpath)), w2)) w1)"

definition clean_test_resources :: "config \<Rightarrow> (world, unit) py" where
  "clean_test_resources cfg w =
     (case cfg ''execution_directory'' of
        None \<Rightarrow> (Inr (), w)
      | Some (J_str exec_dir) \<Rightarrow>
          if sublist KTEST_DIR_PREFIX exec_dir then
            if cfg ''remove_test_dir'' = Some (J_bool False) then (Inr (), w) else rmtree exec_dir w
          else (Inr (), w)
      | Some _ \<Rightarrow> (Inl Type_error, w))"

definition load_test_configuration :: "host \<Rightarrow> string \<Rightarrow> py_exn + config" where
  "load_test_configuration h directory =
     (let test_cfg = directory @ ''/test.json''
      in if \<not> h_isfile h test_cfg then Inr Map.empty
         else case h_load h test_cfg of
                None \<Rightarrow> Inl Config_error
              | Some (J_obj kvs) \<Rightarrow> Inr ((map_of (rev kvs))(''source_directory'' \<mapsto> J_str directory))
              | Some _ \<Rightarrow> Inl Type_error)"

fun join_args :: "string \<Rightarrow> json list \<Rightarrow> py_exn + string" where
  "join_args cmd [] = Inr cmd"
| "join_args cmd (J_str a # as) = join_args (cmd @ '' '' @ a) as"
| "join_args cmd (_ # as) = Inl Type_error"

definition get_full_executable :: "string \<Rightarrow> config \<Rightarrow> py_exn + string" where
  "get_full_executable binary cfg =
     (case cfg ''args'' of
        None \<Rightarrow> Inr binary
      | Some (J_list as) \<Rightarrow> join_args binary as
      | Some _ \<Rightarrow> Inl Type_error)"

text \<open>The loop \<^verbatim>\<open>while repeat > 0\<close>.\<close>

fun repeat_runs :: "host \<Rightarrow> string \<Rightarrow> config \<Rightarrow> environment \<Rightarrow> nat \<Rightarrow> (world, unit) py" where
  "repeat_runs h cmd cfg env 0 w = (Inr (), w)"
| "repeat_runs h cmd cfg env (Suc n) w =
     pbind (run_subprocess h cmd cfg env) (\<lambda>_. repeat_runs h cmd cfg env n) w"

definition execute :: "host \<Rightarrow> string \<Rightarrow> environment \<Rightarrow> config \<Rightarrow> (world, unit) py" where
  "execute h cmd test_env cfg =
     pbind (run_subprocess h cmd cfg test_env)
       (\<lambda>_ w. case (cfg ''repeat_in_same_dir'', cfg ''repeat_times'') of
                (Some _, Some t) \<Rightarrow>
                  (case py_int t of
                     Inl e \<Rightarrow> (Inl e, w)
                   | Inr n \<Rightarrow> repeat_runs h cmd cfg test_env (nat (n - 1)) w)
              | _ \<Rightarrow> (Inr (), w))"

definition prepare_test :: "host \<Rightarrow> string \<Rightarrow> string \<Rightarrow> (world, string \<times> environment \<times> config) py" where
  "prepare_test h binary source_dir w =
     (case load_test_configuration h source_dir of
        Inl e \<Rightarrow> (Inl e, w)
      | Inr cfg0 \<Rightarrow>
          pbind (set_up_test_environment h cfg0)
            (\<lambda>(test_env, cfg) w1.
               case get_full_executable binary cfg of
                 Inl e \<Rightarrow> (Inl e, w1)
               | Inr cmd \<Rightarrow> (Inr (cmd, test_env, cfg), w1)) w)"

text \<open>
  The options; an option that is missing and one that is the empty string are the same to the
  script. \<^verbatim>\<open>--test_type\<close> has a default, so it is a string, and the comparisons below the test
  for the empty one are joined by \<^verbatim>\<open>or\<close>: all an empty one does is to fail.
\<close>

record runner_options =
  opt_binary :: string
  opt_directory :: string
  opt_test_type :: string

definition runner_main :: "host \<Rightarrow> runner_options \<Rightarrow> (world, unit) py" where
  "runner_main h options w =
     (if opt_binary options = [] then (Inl (Py_exception ''Missing binary''), w)
      else if opt_directory options = [] then (Inl (Py_exception ''Missing source directory''), w)
      else if opt_test_type options = [] \<and>
              (opt_test_type options \<noteq> ''unit'' \<or> opt_test_type options \<noteq> ''integration'' \<or>
               opt_test_type options \<noteq> ''benchmark'')
      then (Inl (Py_exception ''Missing test_type ''), w)
      else pbind (prepare_test h (opt_binary options) (opt_directory options))
             (\<lambda>(cmd, env, cfg).
                pbind (execute h cmd env cfg) (\<lambda>_. clean_test_resources cfg)) w)"

section \<open>What is relied on\<close>

text \<open>
  \<^verbatim>\<open>tempfile.mkdtemp\<close> makes a directory that did not exist, with the prefix in its name; a test
  program makes and removes directories below the one it runs in, and does not remove that one.
\<close>

definition mkdtemp_law :: "host \<Rightarrow> bool" where
  "mkdtemp_law h \<longleftrightarrow>
     (\<forall>sfx pfx ds. sublist pfx (h_mkdtemp h sfx pfx ds) \<and>
                   (\<forall>p \<in> set ds. \<not> below (h_mkdtemp h sfx pfx ds) p))"

definition confined_law :: "host \<Rightarrow> bool" where
  "confined_law h \<longleftrightarrow>
     (\<forall>n cmd d env ds.
        filter (\<lambda>p. \<not> below d p) (snd (h_proc h n cmd d env ds)) = filter (\<lambda>p. \<not> below d p) ds \<and>
        (d \<in> set ds \<longrightarrow> d \<in> set (snd (h_proc h n cmd d env ds))))"

lemma pbind_cases:
  assumes "pbind m f w = (r, w')"
  obtains (raised) e where "m w = (Inl e, w')" "r = Inl e"
  | (went_on) a w1 where "m w = (Inr a, w1)" "f a w1 = (r, w')"
  using assms by (auto simp: pbind_def split: prod.splits sum.splits)

section \<open>Running the program\<close>

text \<open>
  \<open>ran\<close> relates the world before and after some runs of one command line in one directory:
  the successful ones first, then at most one that was not.
\<close>

definition ran :: "string \<Rightarrow> string \<Rightarrow> nat \<Rightarrow> int option list \<Rightarrow> world \<Rightarrow> world \<Rightarrow> bool" where
  "ran d cl n bad w w' \<longleftrightarrow>
     w_runs w' = w_runs w @ replicate n (cl, Some 0) @ map (Pair cl) bad \<and>
     filter (\<lambda>p. \<not> below d p) (w_dirs w') = filter (\<lambda>p. \<not> below d p) (w_dirs w) \<and>
     d \<in> set (w_dirs w')"

text \<open>The result that goes with the runs: \<open>all\<close> of them when there is no exception.\<close>

definition run_outcome :: "string \<Rightarrow> nat \<Rightarrow> py_exn + unit \<Rightarrow> nat \<Rightarrow> int option list \<Rightarrow> bool" where
  "run_outcome cl all r n bad \<longleftrightarrow>
     (r = Inr () \<longrightarrow> n = all \<and> bad = []) \<and>
     (\<forall>c x. r = Inl (CalledProcessError c x) \<longrightarrow> x = cl \<and> c \<noteq> 0 \<and> bad = [Some c])"

lemma ran_trans:
  assumes "ran d cl n [] w w1" "ran d cl m bad w1 w'"
  shows "ran d cl (n + m) bad w w'"
  using assms by (simp add: ran_def replicate_add)

lemma run_subprocess_ran:
  assumes law: "confined_law h"
    and d: "cfg ''execution_directory'' = Some (J_str d)" "d \<in> set (w_dirs w)"
    and run: "run_subprocess h cmd cfg env w = (r, w')"
  shows "\<exists>n bad. ran d (''exec '' @ hydrate h cfg cmd) n bad w w' \<and>
                 run_outcome (hydrate h cfg cmd) 1 r n bad"
proof -
  let ?p = "h_proc h (length (w_runs w)) (''exec '' @ hydrate h cfg cmd) d env (w_dirs w)"
  let ?bad = "if fst ?p = Some 0 then [] else [fst ?p]"
  have w': "w' = w\<lparr>w_cwd := d, w_dirs := snd ?p,
                   w_runs := w_runs w @ [(''exec '' @ hydrate h cfg cmd, fst ?p)]\<rparr>"
    and r: "r = (case fst ?p of None \<Rightarrow> Inl Wait_error
                 | Some c \<Rightarrow> if c \<noteq> 0 then Inl (CalledProcessError c (hydrate h cfg cmd)) else Inr ())"
    using run d by (auto simp: run_subprocess_def Let_def split: prod.splits option.splits if_splits)
  have "ran d (''exec '' @ hydrate h cfg cmd) (1 - length ?bad) ?bad w w'"
    using law d(2) by (auto simp: w' ran_def confined_law_def)
  moreover have "run_outcome (hydrate h cfg cmd) 1 r (1 - length ?bad) ?bad"
    by (auto simp: r run_outcome_def split: option.splits if_splits)
  ultimately show ?thesis by blast
qed

lemma repeat_runs_ran:
  assumes law: "confined_law h" and d: "cfg ''execution_directory'' = Some (J_str d)"
    and "d \<in> set (w_dirs w)" "repeat_runs h cmd cfg env k w = (r, w')"
  shows "\<exists>n bad. ran d (''exec '' @ hydrate h cfg cmd) n bad w w' \<and>
                 run_outcome (hydrate h cfg cmd) k r n bad"
  using assms(3,4)
proof (induction k arbitrary: w)
  case 0
  then show ?case by (intro exI [of _ 0] exI [of _ "[]"]) (auto simp: ran_def run_outcome_def)
next
  case (Suc k)
  from Suc.prems(2) have "pbind (run_subprocess h cmd cfg env) (\<lambda>_. repeat_runs h cmd cfg env k) w = (r, w')"
    by simp
  then show ?case
  proof (cases rule: pbind_cases)
    case (raised e)
    from run_subprocess_ran [OF law d Suc.prems(1) raised(1)] show ?thesis
      unfolding raised(2) by (auto simp: run_outcome_def)
  next
    case (went_on a w1)
    from run_subprocess_ran [OF law d Suc.prems(1) went_on(1)]
    have one: "ran d (''exec '' @ hydrate h cfg cmd) 1 [] w w1" by (auto simp: run_outcome_def)
    then have "d \<in> set (w_dirs w1)" by (simp add: ran_def)
    from Suc.IH [OF this went_on(2)] obtain n bad
      where "ran d (''exec '' @ hydrate h cfg cmd) n bad w1 w'"
        and o: "run_outcome (hydrate h cfg cmd) k r n bad" by blast
    from ran_trans [OF one this(1)] have "ran d (''exec '' @ hydrate h cfg cmd) (Suc n) bad w w'" by simp
    with o show ?thesis by (intro exI [of _ "Suc n"] exI [of _ bad]) (auto simp: run_outcome_def)
  qed
qed

text \<open>How often the configuration asks for the program to be run.\<close>

definition run_times :: "config \<Rightarrow> nat" where
  "run_times cfg =
     (case (cfg ''repeat_in_same_dir'', cfg ''repeat_times'') of
        (Some _, Some t) \<Rightarrow> (case py_int t of Inr n \<Rightarrow> nat (max 1 n) | Inl _ \<Rightarrow> 1)
      | _ \<Rightarrow> 1)"

lemma execute_ran:
  assumes law: "confined_law h" and d: "cfg ''execution_directory'' = Some (J_str d)" "d \<in> set (w_dirs w)"
    and run: "execute h cmd env cfg w = (r, w')"
  shows "\<exists>n bad. ran d (''exec '' @ hydrate h cfg cmd) n bad w w' \<and>
                 run_outcome (hydrate h cfg cmd) (run_times cfg) r n bad"
  using run unfolding execute_def
proof (cases rule: pbind_cases)
  case (raised e)
  from run_subprocess_ran [OF law d raised(1)] show ?thesis
    unfolding raised(2) by (auto simp: run_outcome_def)
next
  case (went_on a w1)
  from run_subprocess_ran [OF law d went_on(1)]
  have one: "ran d (''exec '' @ hydrate h cfg cmd) 1 [] w w1" by (auto simp: run_outcome_def)
  then have d1: "d \<in> set (w_dirs w1)" by (simp add: ran_def)
  consider (more) s t k where "cfg ''repeat_in_same_dir'' = Some s" "cfg ''repeat_times'' = Some t"
      "py_int t = Inr k" "repeat_runs h cmd cfg env (nat (k - 1)) w1 = (r, w')"
    | (value_error) e t where "r = Inl e" "w' = w1" "py_int t = Inl e"
    | (once) "run_times cfg = 1" "r = Inr ()" "w' = w1"
    using went_on(2) by (auto simp: run_times_def split: option.splits sum.splits)
  then show ?thesis
  proof cases
    case more
    from repeat_runs_ran [OF law d(1) d1 more(4)] obtain n bad
      where n: "ran d (''exec '' @ hydrate h cfg cmd) n bad w1 w'"
        and o: "run_outcome (hydrate h cfg cmd) (nat (k - 1)) r n bad" by blast
    have "run_times cfg = 1 + nat (k - 1)" by (simp add: run_times_def more)
    with o ran_trans [OF one n] show ?thesis
      by (intro exI [of _ "1 + n"] exI [of _ bad]) (simp add: run_outcome_def)
  next
    case value_error
    have "py_int t \<noteq> Inl (CalledProcessError c x)" for t c x
      by (cases t rule: py_int.cases) (auto split: option.splits)
    with value_error one show ?thesis by (intro exI [of _ 1] exI [of _ "[]"]) (auto simp: run_outcome_def)
  next
    case once
    with one show ?thesis by (intro exI [of _ 1] exI [of _ "[]"]) (simp add: run_outcome_def)
  qed
qed

section \<open>Setting up and cleaning up\<close>

lemma copy_globbed_frame:
  "copy_globbed h dirpath gs w = (r, w') \<Longrightarrow>
     w_dirs w' = w_dirs w \<and> w_runs w' = w_runs w \<and> w_cwd w' = w_cwd w \<and> r \<noteq> Inl (CalledProcessError c x)"
  by (induction gs arbitrary: w) (auto split: if_splits)

lemma copy_files_frame:
  "copy_files h cfg dirpath fs w = (r, w') \<Longrightarrow>
     w_dirs w' = w_dirs w \<and> w_runs w' = w_runs w \<and> w_cwd w' = w_cwd w \<and> r \<noteq> Inl (CalledProcessError c x)"
proof (induction fs arbitrary: w)
  case (Cons f fs)
  consider (copied) s n where "pbind (copy_globbed h dirpath (h_glob h (w_cwd w) (s @ ''/'' @ n)))
        (\<lambda>_. copy_files h cfg dirpath fs) w = (r, w')"
    | (other) "w' = w" "r \<noteq> Inl (CalledProcessError c x)"
    using Cons.prems by (auto split: option.splits json.splits)
  then show ?case
  proof cases
    case copied
    then show ?thesis
    proof (cases rule: pbind_cases)
      case (raised e)
      from copy_globbed_frame [OF raised(1)] raised(2) show ?thesis by auto
    next
      case (went_on a w1)
      from copy_globbed_frame [OF went_on(1)] Cons.IH [OF went_on(2)] show ?thesis by simp
    qed
  qed simp
qed auto

abbreviation tmp_home_of :: "host \<Rightarrow> world \<Rightarrow> string" where
  "tmp_home_of h w \<equiv> h_mkdtemp h (gen_alphanum h 16) KTEST_DIR_PREFIX (w_dirs w)"

lemma set_up_tmp_home:
  assumes "cfg ''tmp_home'' \<noteq> None" "set_up_test_environment h cfg w = (r, w1)"
  shows "w_dirs w1 = tmp_home_of h w # w_dirs w" "w_runs w1 = w_runs w"
    "r \<noteq> Inl (CalledProcessError c x)"
    "r = Inr (env, cfg') \<Longrightarrow> cfg' = cfg(''execution_directory'' \<mapsto> J_str (tmp_home_of h w))"
proof -
  let ?w = "w\<lparr>w_cwd := tmp_home_of h w, w_dirs := tmp_home_of h w # w_dirs w\<rparr>"
  obtain fs where "pbind (copy_files h cfg (tmp_home_of h w) fs)
      (\<lambda>_ w2. (Inr ((test_environ h)(''HOME'' \<mapsto> tmp_home_of h w),
                    cfg(''execution_directory'' \<mapsto> J_str (tmp_home_of h w))), w2)) ?w = (r, w1)"
    using assms by (auto simp: set_up_test_environment_def make_home_def Let_def)
  then have "w_dirs w1 = w_dirs ?w \<and> w_runs w1 = w_runs ?w \<and> r \<noteq> Inl (CalledProcessError c x) \<and>
    (r = Inr (env, cfg') \<longrightarrow> cfg' = cfg(''execution_directory'' \<mapsto> J_str (tmp_home_of h w)))"
  proof (cases rule: pbind_cases)
    case (raised e)
    from copy_files_frame [OF raised(1)] raised(2) show ?thesis by auto
  next
    case (went_on a w2)
    from copy_files_frame [OF went_on(1)] went_on(2) show ?thesis by auto
  qed
  then show "w_dirs w1 = tmp_home_of h w # w_dirs w" "w_runs w1 = w_runs w"
    "r \<noteq> Inl (CalledProcessError c x)"
    "r = Inr (env, cfg') \<Longrightarrow> cfg' = cfg(''execution_directory'' \<mapsto> J_str (tmp_home_of h w))"
    by simp_all
qed

lemma get_full_executable_no_process:
  "get_full_executable b cfg \<noteq> Inl (CalledProcessError c x)"
proof -
  have "join_args b as \<noteq> Inl (CalledProcessError c x)" for as
    by (induction b as rule: join_args.induct) auto
  then show ?thesis by (auto simp: get_full_executable_def split: option.splits json.splits)
qed

lemma clean_removes:
  assumes "cfg ''execution_directory'' = Some (J_str d)" "sublist KTEST_DIR_PREFIX d" "d \<in> set (w_dirs w)"
    "clean_test_resources cfg w = (r, w')"
  shows "r = Inr ()" "w_runs w' = w_runs w"
    "w_dirs w' = (if cfg ''remove_test_dir'' = Some (J_bool False) then w_dirs w
                  else filter (\<lambda>p. \<not> below d p) (w_dirs w))"
  using assms by (auto simp: clean_test_resources_def rmtree_def split: if_splits)

lemma ran_in_fresh_home:
  assumes "\<forall>p \<in> set (w_dirs w). \<not> below d p" "w_dirs w1 = d # w_dirs w" "ran d cl n bad w1 w'"
  shows "filter (\<lambda>p. \<not> below d p) (w_dirs w') = w_dirs w" "d \<in> set (w_dirs w')"
  using assms by (simp_all add: ran_def below_def [of d d] filter_id_conv)

section \<open>The whole script\<close>

text \<open>The configuration of a test while it runs in the directory \<open>d\<close>.\<close>

abbreviation test_cfg :: "(string \<times> json) list \<Rightarrow> string \<Rightarrow> string \<Rightarrow> config" where
  "test_cfg kvs src d \<equiv>
     (map_of (rev kvs))(''source_directory'' \<mapsto> J_str src, ''execution_directory'' \<mapsto> J_str d)"

lemma runner_main_cases:
  assumes opts: "opt_binary options \<noteq> []" "opt_directory options \<noteq> []" "opt_test_type options \<noteq> []"
    and cfg: "h_isfile h (opt_directory options @ ''/test.json'')"
      "h_load h (opt_directory options @ ''/test.json'') = Some (J_obj kvs)"
      "map_of (rev kvs) ''tmp_home'' \<noteq> None"
    and main: "runner_main h options w = (r, w')"
  obtains (set_up) "w_dirs w' = tmp_home_of h w # w_dirs w" "w_runs w' = w_runs w" "r \<noteq> Inr ()"
      "\<And>c x. r \<noteq> Inl (CalledProcessError c x)"
  | (started) cmd env w1 where "w_dirs w1 = tmp_home_of h w # w_dirs w" "w_runs w1 = w_runs w"
      "get_full_executable (opt_binary options) (test_cfg kvs (opt_directory options) (tmp_home_of h w)) = Inr cmd"
      "pbind (execute h cmd env (test_cfg kvs (opt_directory options) (tmp_home_of h w)))
         (\<lambda>_. clean_test_resources (test_cfg kvs (opt_directory options) (tmp_home_of h w))) w1 = (r, w')"
proof -
  let ?cfg0 = "(map_of (rev kvs))(''source_directory'' \<mapsto> J_str (opt_directory options))"
  have home: "?cfg0 ''tmp_home'' \<noteq> None" using cfg(3) by simp
  obtain r0 w0 where su: "set_up_test_environment h ?cfg0 w = (r0, w0)" by fastforce
  note frame = set_up_tmp_home [OF home su]
  from main opts have m: "pbind (prepare_test h (opt_binary options) (opt_directory options))
      (\<lambda>(cmd, env, cfg). pbind (execute h cmd env cfg) (\<lambda>_. clean_test_resources cfg)) w = (r, w')"
    by (simp add: runner_main_def)
  have load: "load_test_configuration h (opt_directory options) = Inr ?cfg0"
    using cfg by (simp add: load_test_configuration_def)
  show thesis
  proof (cases r0)
    case (Inl e)
    with m load su have "r = Inl e" "w' = w0" by (simp_all add: pbind_def prepare_test_def)
    with frame(1-3) Inl show thesis by (intro set_up) auto
  next
    case (Inr p)
    then obtain env cfg' where p: "r0 = Inr (env, cfg')" by (cases p) simp
    from frame(4) [OF p] have cfg': "cfg' = test_cfg kvs (opt_directory options) (tmp_home_of h w)" .
    show thesis
    proof (cases "get_full_executable (opt_binary options) cfg'")
      case (Inl e)
      with m load su p have "r = Inl e" "w' = w0" by (simp_all add: pbind_def prepare_test_def)
      with frame(1,2) Inl get_full_executable_no_process [of "opt_binary options" cfg']
      show thesis by (intro set_up) auto
    next
      case (Inr cmd)
      with m load su p show thesis unfolding cfg'
        by (intro started [OF frame(1,2)]) (simp_all add: pbind_def prepare_test_def)
    qed
  qed
qed


text \<open>A host whose programs succeed, and a test that is to be run three times.\<close>

definition example_kvs :: "(string \<times> json) list" where
  "example_kvs =
     [(''args'', J_list [J_str ''-c 2'', J_str ''--dir ${execution_directory}'']), (''tmp_home'', J_bool True),
      (''repeat_in_same_dir'', J_bool True), (''repeat_times'', J_str '' 3'')]"

definition example_host :: host where
  "example_host =
     \<lparr>h_environ = Map.empty, h_isfile = (\<lambda>f. True), h_load = (\<lambda>f. Some (J_obj example_kvs)),
      h_glob = (\<lambda>cwd g. []), h_copy_ok = (\<lambda>f d. True), h_choice = (\<lambda>k s. hd s),
      h_mkdtemp = (\<lambda>sfx pfx ds. ''/tmp/'' @ pfx @ sfx @ concat ds),
      h_proc = (\<lambda>n cmd d env ds. (Some 0, ds)), h_repr = (\<lambda>v. [])\<rparr>"

definition example_world :: world where
  "example_world = \<lparr>w_cwd = ''/w'', w_dirs = [''/w''], w_copied = [], w_runs = []\<rparr>"

definition example_options :: runner_options where
  "example_options = \<lparr>opt_binary = ''b'', opt_directory = ''/s'', opt_test_type = ''unit''\<rparr>"

lemma length_le_concat: "p \<in> set ds \<Longrightarrow> length p \<le> length (concat ds)"
  by (induction ds) auto

lemma example_host_laws: "mkdtemp_law example_host" "confined_law example_host"
proof -
  have "\<not> below (''/tmp/'' @ pfx @ sfx @ concat ds) p" if "p \<in> set ds" for p pfx sfx and ds :: "string list"
    using length_le_concat [OF that] by (auto simp: below_def dest: prefix_length_le)
  moreover have "sublist pfx (''/tmp/'' @ pfx @ sfx)" for pfx sfx :: string
    unfolding sublist_def by blast
  ultimately show "mkdtemp_law example_host"
    by (simp add: mkdtemp_law_def example_host_def sublist_appendI)
  show "confined_law example_host" by (simp add: confined_law_def example_host_def)
qed


text \<open>
  Without a temporary home the directory the script was started in is the one that is cleaned
  up: when the path of that directory has the prefix in it, a test that succeeds removes it
  with all its contents, whoever made it.
\<close>

lemma test_runner_removes_cwd:
  assumes "opt_binary options \<noteq> []" "opt_directory options \<noteq> []" "opt_test_type options \<noteq> []"
    and "\<not> h_isfile h (opt_directory options @ ''/test.json'')"
    and "sublist KTEST_DIR_PREFIX (w_cwd w)" "w_cwd w \<in> set (w_dirs w)"
    and run: "\<And>n cmd d env ds. h_proc h n cmd d env ds = (Some 0, ds)"
  shows "\<exists>w'. runner_main h options w = (Inr (), w') \<and>
              w_dirs w' = filter (\<lambda>p. \<not> below (w_cwd w) p) (w_dirs w)"
  using assms
  by (simp add: runner_main_def prepare_test_def load_test_configuration_def pbind_def
      set_up_test_environment_def make_home_def get_full_executable_def execute_def run_subprocess_def
      clean_test_resources_def rmtree_def)

end
