(* ===== verification/Source_Formatter.thy ===== *)
theory Source_Formatter
  imports Test_Runner
begin

text \<open>
  The script that formats the sources (tools/fmt.py), read as Python 2: it puts a copyright
  notice into every tracked file that has none and runs the clang tools on the C++ ones. git,
  the clang tools and the date are the parameter \<open>fmt_host\<close>; the state is the contents of the
  files by path.
\<close>

section \<open>Files and text\<close>

type_synonym files = "string \<rightharpoonup> string"

definition readline :: "string \<Rightarrow> string" where
  "readline s = takeWhile (\<lambda>c. c \<noteq> newline) s @ (if newline \<in> set s then [newline] else [])"

definition after_line1 :: "string \<Rightarrow> string" where
  "after_line1 s = drop (length (readline s)) s"

text \<open>Writing from the start of a file: what is longer than the text written stays.\<close>

definition write_at_0 :: "string \<Rightarrow> string \<Rightarrow> string" where
  "write_at_0 s t = t @ drop (length t) s"

text \<open>\<^verbatim>\<open>"".join(s.split())\<close>; \<^verbatim>\<open>s.split("\n")\<close> is \<open>split_lines\<close>.\<close>

definition unblank :: "string \<Rightarrow> string" where
  "unblank s = filter (\<lambda>c. \<not> is_space c) s"

section \<open>The host\<close>

text \<open>
  \<open>g_output cmd\<close> is \<^verbatim>\<open>subprocess.check_output(cmd, shell=True)\<close>, an exit code when that is not
  0; \<open>g_run cmd\<close> starts a program that may change files, with its exit code, \<open>None\<close> when
  waiting for it raises.
\<close>

record fmt_host =
  g_output :: "string \<Rightarrow> int + string"
  g_isdir :: "string \<Rightarrow> bool"
  g_run :: "string \<Rightarrow> files \<Rightarrow> int option \<times> files"
  g_year :: nat

definition check_output :: "fmt_host \<Rightarrow> string \<Rightarrow> py_exn + string" where
  "check_output h cmd = (case g_output h cmd of Inl c \<Rightarrow> Inl (CalledProcessError c cmd) | Inr s \<Rightarrow> Inr s)"

definition lift_py :: "py_exn + 'a \<Rightarrow> ('s, 'a) py" where
  "lift_py r s = (r, s)"

section \<open>The script\<close>

definition get_git_root :: "fmt_host \<Rightarrow> py_exn + string" where
  "get_git_root h = map_sum id unblank (check_output h ''git rev-parse --show-toplevel'')"

definition get_build_dir_type :: "fmt_host \<Rightarrow> string \<Rightarrow> py_exn + string option" where
  "get_build_dir_type h d =
     map_sum id (\<lambda>root. let build_dir = root @ ''/build_'' @ d
                        in if g_isdir h build_dir then Some build_dir else None) (get_git_root h)"

definition get_debug_build_dir :: "fmt_host \<Rightarrow> py_exn + string option" where
  "get_debug_build_dir h = get_build_dir_type h ''debug''"

definition get_release_build_dir :: "fmt_host \<Rightarrow> py_exn + string option" where
  "get_release_build_dir h = get_build_dir_type h ''release''"

definition fmt_run_subprocess :: "fmt_host \<Rightarrow> string \<Rightarrow> (files, unit) py" where
  "fmt_run_subprocess h cmd fs =
     (case g_run h (''exec '' @ cmd) fs of
        (None, fs') \<Rightarrow> (Inl Wait_error, fs')
      | (Some c, fs') \<Rightarrow> (if c \<noteq> 0 then Inl (CalledProcessError c cmd) else Inr (), fs'))"

definition CLANG_SOURCE_VERSION :: string where
  "CLANG_SOURCE_VERSION = ''8.0.0''"

definition version_command :: "string \<Rightarrow> string" where
  "version_command prog =
     prog @ '' --version | grep '' @ CLANG_SOURCE_VERSION @ '' | awk '' @
     [CHR 0x27] @ ''{print $3}'' @ [CHR 0x27]"

definition get_clang_prog :: "fmt_host \<Rightarrow> string \<Rightarrow> py_exn + string option" where
  "get_clang_prog h prog =
     (case check_output h (''which '' @ prog) of
        Inl e \<Rightarrow> Inl e
      | Inr ret \<Rightarrow>
          (let original = unblank ret
           in case check_output h (version_command original) of
                Inl e \<Rightarrow> Inl e
              | Inr v \<Rightarrow> Inr (if unblank v \<noteq> CLANG_SOURCE_VERSION then None else Some original)))"

record fmt_options =
  opt_log :: string
  opt_tidy :: bool
  opt_incremental :: bool

definition get_clang_format :: "fmt_host \<Rightarrow> fmt_options \<Rightarrow> py_exn + string option" where
  "get_clang_format h options = get_clang_prog h ''clang-format''"

definition get_clang_tidy :: "fmt_host \<Rightarrow> fmt_options \<Rightarrow> py_exn + string option" where
  "get_clang_tidy h options =
     (if opt_tidy options then
        (case get_clang_prog h ''clang-tidy'' of
           Inl e \<Rightarrow> Inl e
         | Inr clang_tidy \<Rightarrow>
             if clang_tidy = None \<or> clang_tidy = Some []
             then Inl (Py_exception ''error tried to run clang tidy but binary not found'')
             else Inr clang_tidy)
      else Inr None)"

definition white_list :: "string list" where
  "white_list = [''src/include/smf/rpc_generated.h'']"

definition get_git_files :: "fmt_host \<Rightarrow> fmt_options \<Rightarrow> py_exn + string list" where
  "get_git_files h options =
     (let git_args = (if opt_incremental options then ''show --pretty='' @ [CHR 0x22, CHR 0x22] @ '' --name-only''
                      else ''ls-files'')
      in case get_git_root h of
           Inl e \<Rightarrow> Inl e
         | Inr root \<Rightarrow>
             map_sum id (\<lambda>ret. filter (\<lambda>x. x \<notin> set white_list) (split_lines ret))
               (check_output h (''cd '' @ root @ '' && git '' @ git_args)))"

definition is_clang_fmt_file :: "string \<Rightarrow> bool" where
  "is_clang_fmt_file filename \<longleftrightarrow>
     list_ex (\<lambda>ext. suffix ext filename) [''.cc'', ''.cpp'', ''.h'', ''.hpp'', ''.proto'', ''.java'', ''.js'']"

definition is_clang_tidy_file :: "string \<Rightarrow> bool" where
  "is_clang_tidy_file filename \<longleftrightarrow> list_ex (\<lambda>ext. suffix ext filename) [''.cc'', ''.cpp'']"

definition is_double_slash :: "string \<Rightarrow> bool" where
  "is_double_slash filename \<longleftrightarrow>
     is_clang_fmt_file filename \<or> list_ex (\<lambda>ext. suffix ext filename) [''.scala'', ''.fbs'']"

definition comment_char :: "string \<Rightarrow> string" where
  "comment_char filename = (if is_double_slash filename then ''//'' else ''#'')"

definition get_legal_header :: "fmt_host \<Rightarrow> string \<Rightarrow> string" where
  "get_legal_header h filename =
     comment_char filename @ '' Copyright '' @ to_string (g_year h) @ '' '' @ ''SMF Authors'' @ [newline] @
     comment_char filename @ [newline, newline]"

definition is_script_file :: "string \<Rightarrow> bool" where
  "is_script_file filename \<longleftrightarrow> list_ex (\<lambda>ext. suffix ext filename) [''.sh'', ''.bash'', ''.py'']"

definition double_slash_legal :: "fmt_host \<Rightarrow> string \<Rightarrow> (files, unit) py" where
  "double_slash_legal h filename fs =
     (if is_double_slash filename then
        (case fs filename of
           None \<Rightarrow> (Inl Os_error, fs)
         | Some content \<Rightarrow>
             (let line1 = readline content
              in if \<not> sublist ''// Copyright'' line1
                 then (Inr (), fs(filename \<mapsto> write_at_0 content (get_legal_header h filename @ content)))
                 else (Inr (), fs)))
      else (Inr (), fs))"

definition hash_legal :: "fmt_host \<Rightarrow> string \<Rightarrow> (files, unit) py" where
  "hash_legal h filename fs =
     (if is_script_file filename then
        (case fs filename of
           None \<Rightarrow> (Inl Os_error, fs)
         | Some s \<Rightarrow>
             (let line1 = readline s; content = after_line1 s
              in if \<not> sublist ''# Copyright'' content
                 then (Inr (), fs(filename \<mapsto>
                         write_at_0 s (line1 @ [newline] @ get_legal_header h filename @ content)))
                 else (Inr (), fs)))
      else (Inr (), fs))"

definition insert_legal :: "fmt_host \<Rightarrow> string \<Rightarrow> (files, unit) py" where
  "insert_legal h filename = pbind (double_slash_legal h filename) (\<lambda>_. hash_legal h filename)"

text \<open>The two tools in the \<^verbatim>\<open>try\<close> block; any exception of theirs ends the script with code 1.\<close>

definition run_tools :: "fmt_host \<Rightarrow> string option \<Rightarrow> string option \<Rightarrow> string \<Rightarrow> (files, unit) py" where
  "run_tools h clang_fmt clang_tidy f =
     (if is_clang_fmt_file f then
        pbind (case clang_tidy of
                 Some tidy \<Rightarrow>
                   if is_clang_tidy_file f
                   then fmt_run_subprocess h (tidy @ '' -header-filter=.* -fix '' @ f)
                   else lift_py (Inr ())
               | None \<Rightarrow> lift_py (Inr ()))
          (\<lambda>_. case clang_fmt of
                  Some fmt \<Rightarrow> fmt_run_subprocess h (fmt @ '' -i '' @ f)
                | None \<Rightarrow> lift_py (Inr ()))
      else lift_py (Inr ()))"

definition format_file :: "fmt_host \<Rightarrow> string option \<Rightarrow> string option \<Rightarrow> string \<Rightarrow> (files, unit) py" where
  "format_file h clang_fmt clang_tidy f =
     pbind (insert_legal h f)
       (\<lambda>_ fs. case run_tools h clang_fmt clang_tidy f fs of
                 (Inl e, fs') \<Rightarrow> (Inl (System_exit 1), fs')
               | (Inr _, fs') \<Rightarrow> (Inr (), fs'))"

fun format_files :: "fmt_host \<Rightarrow> string \<Rightarrow> string option \<Rightarrow> string option \<Rightarrow> string list \<Rightarrow> (files, unit) py" where
  "format_files h root clang_fmt clang_tidy [] = lift_py (Inr ())"
| "format_files h root clang_fmt clang_tidy (f # fl) =
     pbind (format_file h clang_fmt clang_tidy (root @ ''/'' @ f))
       (\<lambda>_. format_files h root clang_fmt clang_tidy fl)"

text \<open>
  \<^verbatim>\<open>logger.setLevel(getattr(logging, options.log.upper(), None))\<close>: \<^verbatim>\<open>None\<close> is not a level, and
  \<^verbatim>\<open>logging.BASIC_FORMAT\<close> is a string that names none.
\<close>

definition py_upper :: "string \<Rightarrow> string" where
  "py_upper = map (\<lambda>c. let k = of_char c :: nat in if 97 \<le> k \<and> k \<le> 122 then char_of (k - 32) else c)"

definition set_log_level :: "string \<Rightarrow> py_exn + unit" where
  "set_log_level l =
     (if py_upper l \<in> set [''CRITICAL'', ''FATAL'', ''ERROR'', ''WARNING'', ''WARN'', ''INFO'', ''DEBUG'', ''NOTSET'']
      then Inr ()
      else if py_upper l = ''BASIC_FORMAT'' then Inl Value_error else Inl Type_error)"

definition fmt_main :: "fmt_host \<Rightarrow> fmt_options \<Rightarrow> (files, unit) py" where
  "fmt_main h options =
     pbind (lift_py (set_log_level (opt_log options)))
       (\<lambda>_. pbind (lift_py (get_git_files h options))
         (\<lambda>fl. pbind (lift_py (get_clang_format h options))
           (\<lambda>clang_fmt. pbind (lift_py (get_clang_tidy h options))
             (\<lambda>clang_tidy. pbind (lift_py (get_git_root h))
               (\<lambda>root. format_files h root clang_fmt clang_tidy fl)))))"

section \<open>The notice of one file\<close>

text \<open>
  Where the script looks for a notice: in the first line of a C++ file, after the first line of
  a script.
\<close>

definition has_notice :: "string \<Rightarrow> string \<Rightarrow> bool" where
  "has_notice f s \<longleftrightarrow>
     (is_double_slash f \<longrightarrow> sublist ''// Copyright'' (readline s)) \<and>
     (is_script_file f \<longrightarrow> sublist ''# Copyright'' (after_line1 s))"

lemma write_at_0_longer [simp]: "length s \<le> length t \<Longrightarrow> write_at_0 s t = t"
  by (simp add: write_at_0_def)

lemma readline_append_newline: "newline \<notin> set s \<Longrightarrow> readline (s @ newline # t) = s @ [newline]"
  by (simp add: readline_def)

lemma readline_after_line1 [simp]: "readline s @ after_line1 s = s"
proof (cases "newline \<in> set s")
  case True
  then obtain a b where "s = a @ newline # b" "newline \<notin> set a" by (metis split_list_first)
  then show ?thesis by (simp add: after_line1_def readline_append_newline)
next
  case False
  then have "readline s = s" by (simp add: readline_def takeWhile_eq_all_conv) metis
  then show ?thesis by (simp add: after_line1_def)
qed

lemma readline_cases:
  obtains (line) a where "readline s = a @ [newline]" "newline \<notin> set a"
  | (open_end) "readline s = s" "newline \<notin> set s" "after_line1 s = []"
proof (cases "newline \<in> set s")
  case True
  then obtain a b where "s = a @ newline # b" "newline \<notin> set a" by (metis split_list_first)
  then show thesis using line by (simp add: readline_append_newline)
next
  case False
  then have "readline s = s" by (simp add: readline_def takeWhile_eq_all_conv) metis
  with False show thesis using open_end by (simp add: after_line1_def)
qed

lemma no_newline_to_string: "newline \<notin> set (to_string n)"
  using to_string_digits [of n] by (auto simp: is_digit_def newline_def)

lemma readline_legal_header:
  "readline (get_legal_header h f @ s) =
     comment_char f @ '' Copyright '' @ to_string (g_year h) @ '' SMF Authors'' @ [newline]"
proof -
  have "newline \<notin> set (comment_char f @ '' Copyright '' @ to_string (g_year h) @ '' SMF Authors'')"
    using no_newline_to_string [of "g_year h"] by (simp add: comment_char_def newline_def)
  from readline_append_newline [OF this] show ?thesis by (simp add: get_legal_header_def)
qed

lemma endings_differ:
  "list_all (\<lambda>x. list_all (\<lambda>y. \<not> suffix x y \<and> \<not> suffix y x) [''.sh'', ''.bash'', ''.py''])
     [''.cc'', ''.cpp'', ''.h'', ''.hpp'', ''.proto'', ''.java'', ''.js'', ''.scala'', ''.fbs'']"
  by code_simp

lemma not_both: "is_double_slash f \<Longrightarrow> \<not> is_script_file f"
proof
  assume "is_double_slash f" "is_script_file f"
  then obtain x y where xy: "suffix x f" "suffix y f"
    "x \<in> set [''.cc'', ''.cpp'', ''.h'', ''.hpp'', ''.proto'', ''.java'', ''.js'', ''.scala'', ''.fbs'']"
    "y \<in> set [''.sh'', ''.bash'', ''.py'']"
    unfolding is_double_slash_def is_clang_fmt_file_def is_script_file_def list_ex_iff by fastforce
  from suffix_same_cases [OF xy(1,2)] xy(3,4) endings_differ show False
    unfolding list_all_iff by blast
qed

lemma legal_header_notice:
  "is_double_slash f \<Longrightarrow> sublist ''// Copyright'' (readline (get_legal_header h f @ s))"
  "is_script_file f \<Longrightarrow> sublist ''# Copyright'' (get_legal_header h f @ s)"
proof -
  assume "is_double_slash f"
  then show "sublist ''// Copyright'' (readline (get_legal_header h f @ s))"
    by (simp add: readline_legal_header comment_char_def sublist_Cons_right)
next
  assume "is_script_file f"
  then have "\<not> is_double_slash f" using not_both by blast
  then show "sublist ''# Copyright'' (get_legal_header h f @ s)"
    by (simp add: get_legal_header_def comment_char_def sublist_Cons_right)
qed

lemma after_line1_inserted:
  "sublist p t \<Longrightarrow> sublist p (after_line1 (readline s @ [newline] @ t))"
proof (cases s rule: readline_cases)
  case (line a)
  then have "after_line1 (readline s @ [newline] @ t) = newline # t"
    by (simp add: after_line1_def readline_append_newline)
  then show "sublist p t \<Longrightarrow> sublist p (after_line1 (readline s @ [newline] @ t))"
    by (simp add: sublist_Cons_right)
next
  case open_end
  then have "after_line1 (readline s @ [newline] @ t) = t"
    by (simp add: after_line1_def readline_append_newline)
  then show "sublist p t \<Longrightarrow> sublist p (after_line1 (readline s @ [newline] @ t))" by simp
qed

text \<open>
  What the script makes of the contents of one file: text is only ever inserted, and nothing
  when there is a notice.
\<close>

definition noticed :: "fmt_host \<Rightarrow> string \<Rightarrow> string \<Rightarrow> string" where
  "noticed h f s =
     (if has_notice f s then s
      else if is_double_slash f then get_legal_header h f @ s
      else readline s @ [newline] @ get_legal_header h f @ after_line1 s)"

lemma noticed_has_notice: "has_notice f (noticed h f s)"
  using not_both [of f] legal_header_notice [of f h]
  by (auto simp: noticed_def has_notice_def simp del: append_Cons append.simps(2)
      intro!: after_line1_inserted)

lemma noticed_inserts: "\<exists>a b ins. s = a @ b \<and> noticed h f s = a @ ins @ b"
proof (cases "has_notice f s")
  case True
  then show ?thesis by (intro exI [of _ "[]"] exI [of _ s]) (simp add: noticed_def)
next
  case False
  show ?thesis
  proof (cases "is_double_slash f")
    case True
    with False show ?thesis
      by (intro exI [of _ "[]"] exI [of _ s] exI [of _ "get_legal_header h f"]) (simp add: noticed_def)
  next
    case False
    with \<open>\<not> has_notice f s\<close> show ?thesis
      by (intro exI [of _ "readline s"] exI [of _ "after_line1 s"] exI [of _ "[newline] @ get_legal_header h f"])
        (simp add: noticed_def)
  qed
qed

text \<open>A file that the script looks at.\<close>

definition looked_at :: "string \<Rightarrow> bool" where
  "looked_at f \<longleftrightarrow> is_double_slash f \<or> is_script_file f"

lemma insert_legal_spec:
  "insert_legal h f fs =
     (if \<not> looked_at f then (Inr (), fs)
      else case fs f of
             None \<Rightarrow> (Inl Os_error, fs)
           | Some s \<Rightarrow> (Inr (), fs(f \<mapsto> noticed h f s)))"
proof -
  have "length (readline s) + length (after_line1 s) = length s" for s
    by (metis length_append readline_after_line1)
  then have len: "length s \<le> Suc (length (readline s) + (length (get_legal_header h f) + length (after_line1 s)))"
    for s by (metis add_leD1 le_add2 le_Suc_eq add.left_commute)
  consider (slash) "is_double_slash f" "\<not> is_script_file f" | (script) "\<not> is_double_slash f" "is_script_file f"
    | (other) "\<not> is_double_slash f" "\<not> is_script_file f"
    using not_both by blast
  then show ?thesis
  proof cases
    case slash
    then show ?thesis
      by (simp add: insert_legal_def pbind_def double_slash_legal_def hash_legal_def looked_at_def
          noticed_def has_notice_def fun_upd_idem split: option.split)
  next
    case script
    then show ?thesis using len
      by (simp add: insert_legal_def pbind_def double_slash_legal_def hash_legal_def looked_at_def
          noticed_def has_notice_def fun_upd_idem split: option.split)
  next
    case other
    then show ?thesis
      by (simp add: insert_legal_def pbind_def double_slash_legal_def hash_legal_def looked_at_def)
  qed
qed

lemma noticed_idem [simp]: "noticed h f (noticed h f s) = noticed h f s"
  by (subst noticed_def) (simp add: noticed_has_notice)

lemma insert_legal_idempotent:
  "insert_legal h f fs = (Inr (), fs') \<Longrightarrow> insert_legal h f fs' = (Inr (), fs')"
  by (auto simp: insert_legal_spec split: if_splits option.splits)


section \<open>All files\<close>

text \<open>What is relied on: the clang tools remove no file and no notice.\<close>

definition noticed_file :: "files \<Rightarrow> string \<Rightarrow> bool" where
  "noticed_file fs f \<longleftrightarrow> (case fs f of None \<Rightarrow> False | Some s \<Rightarrow> has_notice f s)"

lemma insert_legal_noop: "noticed_file fs f \<Longrightarrow> insert_legal h f fs = (Inr (), fs)"
  by (auto simp: noticed_file_def insert_legal_spec noticed_def fun_upd_idem split: option.splits)

definition tools_keep_notices :: "fmt_host \<Rightarrow> bool" where
  "tools_keep_notices h \<longleftrightarrow>
     (\<forall>cmd fs f. noticed_file fs f \<longrightarrow> noticed_file (snd (g_run h cmd fs)) f)"

definition keeps_notices :: "(files, 'a) py \<Rightarrow> bool" where
  "keeps_notices m \<longleftrightarrow> (\<forall>fs f. noticed_file fs f \<longrightarrow> noticed_file (snd (m fs)) f)"

lemma keeps_notices_lift [intro!]: "keeps_notices (lift_py r)"
  by (simp add: keeps_notices_def lift_py_def)

lemma keeps_notices_pbind [intro]:
  "keeps_notices m \<Longrightarrow> (\<And>a. keeps_notices (f a)) \<Longrightarrow> keeps_notices (pbind m f)"
  by (auto simp: keeps_notices_def pbind_def split: prod.splits sum.splits) (metis snd_conv)+

lemma keeps_notices_run: "tools_keep_notices h \<Longrightarrow> keeps_notices (fmt_run_subprocess h cmd)"
  unfolding keeps_notices_def fmt_run_subprocess_def tools_keep_notices_def
  by (auto split: prod.splits option.splits) (metis snd_conv)+

lemma keeps_notices_tools: "tools_keep_notices h \<Longrightarrow> keeps_notices (run_tools h clang_fmt clang_tidy f)"
  unfolding run_tools_def by (auto intro!: keeps_notices_pbind keeps_notices_run split: option.splits)

lemma keeps_notices_insert: "keeps_notices (insert_legal h f)"
  by (auto simp: keeps_notices_def insert_legal_spec noticed_file_def noticed_has_notice split: option.splits)

lemma keeps_notices_format_file:
  assumes "tools_keep_notices h" shows "keeps_notices (format_file h clang_fmt clang_tidy f)"
  unfolding format_file_def
proof (intro keeps_notices_pbind keeps_notices_insert)
  fix a
  show "keeps_notices (\<lambda>fs. case run_tools h clang_fmt clang_tidy f fs of
      (Inl e, fs') \<Rightarrow> (Inl (System_exit 1), fs') | (Inr _, fs') \<Rightarrow> (Inr (), fs'))"
    using keeps_notices_tools [OF assms, of clang_fmt clang_tidy f]
    by (auto simp: keeps_notices_def split: prod.splits sum.splits) (metis snd_conv)+
qed

lemma keeps_notices_format_files:
  "tools_keep_notices h \<Longrightarrow> keeps_notices (format_files h root clang_fmt clang_tidy fl)"
  by (induction fl) (auto intro: keeps_notices_format_file)

lemma format_file_noticed:
  assumes law: "tools_keep_notices h" and f: "looked_at f"
    and run: "format_file h clang_fmt clang_tidy f fs = (Inr (), fs')"
  shows "noticed_file fs' f"
  using run unfolding format_file_def
proof (cases rule: pbind_cases)
  case (went_on a fs1)
  then have "noticed_file fs1 f"
    using f by (auto simp: insert_legal_spec noticed_file_def noticed_has_notice split: option.splits)
  moreover have "snd (run_tools h clang_fmt clang_tidy f fs1) = fs'"
    using went_on(2) by (auto split: prod.splits sum.splits)
  ultimately show ?thesis
    using keeps_notices_tools [OF law, of clang_fmt clang_tidy f] by (auto simp: keeps_notices_def)
qed simp

lemma format_files_noticed:
  assumes law: "tools_keep_notices h"
  shows "format_files h root clang_fmt clang_tidy fl fs = (Inr (), fs') \<Longrightarrow> f \<in> set fl \<Longrightarrow>
    looked_at (root @ ''/'' @ f) \<Longrightarrow> noticed_file fs' (root @ ''/'' @ f)"
proof (induction fl arbitrary: fs)
  case (Cons g fl)
  from Cons.prems(1) obtain fs1 where
    one: "format_file h clang_fmt clang_tidy (root @ ''/'' @ g) fs = (Inr (), fs1)"
    and rest: "format_files h root clang_fmt clang_tidy fl fs1 = (Inr (), fs')"
    by (auto elim: pbind_cases)
  show ?case
  proof (cases "f = g")
    case True
    with format_file_noticed [OF law _ one] Cons.prems(3) have "noticed_file fs1 (root @ ''/'' @ f)" by simp
    with keeps_notices_format_files [OF law, of root clang_fmt clang_tidy fl] rest
    show ?thesis by (metis keeps_notices_def snd_conv)
  next
    case False
    with Cons.IH [OF rest] Cons.prems show ?thesis by simp
  qed
qed simp

text \<open>The contents of the files when no tool is run.\<close>

definition with_notices :: "fmt_host \<Rightarrow> string set \<Rightarrow> files \<Rightarrow> files" where
  "with_notices h ps fs = (\<lambda>p. if p \<in> ps \<and> looked_at p then map_option (noticed h p) (fs p) else fs p)"

lemma with_notices_insert:
  "with_notices h ps (with_notices h {p} fs) = with_notices h (insert p ps) fs"
  by (auto simp: with_notices_def option.map_comp comp_def fun_eq_iff)

lemma format_files_no_tools:
  "format_files h root None None fl fs = (Inr (), fs') \<Longrightarrow>
     fs' = with_notices h ((\<lambda>f. root @ ''/'' @ f) ` set fl) fs"
proof (induction fl arbitrary: fs)
  case Nil
  then show ?case by (simp add: lift_py_def with_notices_def)
next
  case (Cons g fl)
  from Cons.prems obtain fs1 where one: "format_file h None None (root @ ''/'' @ g) fs = (Inr (), fs1)"
    and rest: "format_files h root None None fl fs1 = (Inr (), fs')"
    by (auto elim: pbind_cases)
  have "run_tools h None None p = lift_py (Inr ())" for p
    by (simp add: run_tools_def pbind_def lift_py_def fun_eq_iff)
  with one have "fs1 = with_notices h {root @ ''/'' @ g} fs"
    by (auto simp: format_file_def pbind_def lift_py_def insert_legal_spec with_notices_def
        split: if_splits option.splits)
  with Cons.IH [OF rest] show ?case by (simp add: with_notices_insert)
qed


text \<open>A repository with a C++ file and a script, without the clang tools of the right version.\<close>

definition example_git :: fmt_host where
  "example_git =
     \<lparr>g_output = (\<lambda>cmd. if prefix ''git'' cmd then Inr (''/r'' @ [newline])
                       else if prefix ''cd'' cmd then Inr (''a.cc'' @ [newline] @ ''b.sh'' @ [newline])
                       else if prefix ''which'' cmd then Inr ''/bin/clang-format''
                       else Inr []),
      g_isdir = (\<lambda>d. False), g_run = (\<lambda>cmd fs. (Some 0, fs)), g_year = 2019\<rparr>"

definition example_files :: files where
  "example_files = [''/r/a.cc'' \<mapsto> ''int x;'', ''/r/b.sh'' \<mapsto> ''#!/bin/bash'' @ [newline] @ ''ls'']"

definition example_fmt_options :: fmt_options where
  "example_fmt_options = \<lparr>opt_log = ''info'', opt_tidy = False, opt_incremental = False\<rparr>"


text \<open>
  A script is searched for a notice after its first line only: one that starts with its notice
  gets a second one.
\<close>

lemma notice_in_line1_doubled:
  assumes "is_script_file f" "readline s = ''# Copyright 2019 SMF Authors'' @ [newline]"
    "\<not> sublist ''# Copyright'' (after_line1 s)"
  shows "noticed h f s = readline s @ [newline] @ get_legal_header h f @ after_line1 s"
  using assms not_both [of f] by (auto simp: noticed_def has_notice_def)

end
