(* ===== verification/Rpc_System.thy ===== *)
theory Rpc_System
  imports Rpc_Client_Calls "HOL-Library.Multiset" "HOL-Library.Sublist"
begin

text \<open>
  A client and a server joined by a connection: the two transition systems run side by side, in
  any interleaving, and the network moves the bytes one side wrote to the stream the other
  side reads, in pieces of any size. The server may serve other connections at the same time.
  Calls overlap, the server answers in any order, and each call still gets the answer to its
  own request.
\<close>

section \<open>The system\<close>

text \<open>
  \<open>sy_up\<close> and \<open>sy_down\<close> count the bytes delivered so far in each direction; \<open>sy_call\<close> records
  the envelope each call was made with.
\<close>

record ('sem, 'gate, 'sem2, 'gate2) rpc_pair =
  sy_cl :: "(bytes, 'sem, 'gate) rpc_client"
  sy_srv :: "(bytes, 'sem2, 'gate2) rpc_server"
  sy_up :: nat
  sy_down :: nat
  sy_call :: "nat \<Rightarrow> rpc_envelope"

text \<open>
  A read completes when the bytes it asks for have arrived, or fails. The events of the client
  are calls, \<^verbatim>\<open>stop\<close> and its continuations; the connection is made once and the reads are
  not given up by a timeout.
\<close>

fun cli_ready :: "bytes \<Rightarrow> bytes cli_event \<Rightarrow> bool" where
  "cli_ready bs (Ev_cli_run (Reply_header k a) Proceed i) = (kHeaderSize \<le> length bs)"
| "cli_ready bs (Ev_cli_run (Reply_payload k h a) Proceed i) = (unat (hdr_size h) \<le> length bs)"
| "cli_ready bs (Ev_cli_run f oc i) = True"
| "cli_ready bs (Ev_send e) = True"
| "cli_ready bs Ev_cli_stop = True"
| "cli_ready bs _ = False"

fun srv_ready :: "u64 \<Rightarrow> bytes \<Rightarrow> bytes event \<Rightarrow> bool" where
  "srv_ready cid bs (Ev_run (Read_header i) Proceed) = (i = cid \<longrightarrow> kHeaderSize \<le> length bs)"
| "srv_ready cid bs (Ev_run (Read_payload i h) Proceed) = (i = cid \<longrightarrow> unat (hdr_size h) \<le> length bs)"
| "srv_ready cid bs (Ev_destroy i) = (i \<noteq> cid)"
| "srv_ready cid bs _ = True"

datatype pair_event =
    At_client "bytes cli_event"
  | At_server "bytes event"
  | Up nat
  | Down nat

fun record_call :: "bytes cli_event \<Rightarrow> nat \<Rightarrow> (nat \<Rightarrow> rpc_envelope) \<Rightarrow> (nat \<Rightarrow> rpc_envelope)" where
  "record_call (Ev_send e) w ask = ask(w := e)"
| "record_call _ w ask = ask"

definition client_end :: "('sem, 'gate, 'sem2, 'gate2) rpc_pair \<Rightarrow> bytes rpc_connection" where
  "client_end s = fst (the (connections (sy_cl s) 0))"

definition server_end :: "u64 \<Rightarrow> ('sem, 'gate, 'sem2, 'gate2) rpc_pair \<Rightarrow> bytes rpc_connection" where
  "server_end cid s = the (heap (sy_srv s) cid)"

definition feed :: "bytes \<Rightarrow> bytes rpc_connection \<Rightarrow> bytes rpc_connection" where
  "feed bs c = c\<lparr>conn_istream := conn_istream c @ bs\<rparr>"

inductive pair_step ::
    "(bytes, 'sem, 'gate) seastar_env \<Rightarrow> (bytes, 'sem2, 'gate2) seastar_env \<Rightarrow> u64 \<Rightarrow>
     ('sem, 'gate, 'sem2, 'gate2) rpc_pair \<Rightarrow> pair_event \<Rightarrow>
     ('sem, 'gate, 'sem2, 'gate2) rpc_pair \<Rightarrow> bool" for E F cid where
  at_client: "client_step E (sy_cl s) e cl \<Longrightarrow> cli_ready (conn_istream (client_end s)) e \<Longrightarrow>
    pair_step E F cid s (At_client e)
      (s\<lparr>sy_cl := cl, sy_call := record_call e (next_work (sy_cl s)) (sy_call s)\<rparr>)"
| at_server: "server_step F (sy_srv s) e srv \<Longrightarrow> srv_ready cid (conn_istream (server_end cid s)) e \<Longrightarrow>
    pair_step E F cid s (At_server e) (s\<lparr>sy_srv := srv\<rparr>)"
| up: "bs = take n (drop (sy_up s) (wire_bytes (conn_ostream (client_end s)))) \<Longrightarrow>
    pair_step E F cid s (Up n)
      (s\<lparr>sy_srv := set_conn cid (feed bs (server_end cid s)) (sy_srv s), sy_up := sy_up s + length bs\<rparr>)"
| down: "bs = take n (drop (sy_down s) (wire_bytes (conn_ostream (server_end cid s)))) \<Longrightarrow>
    pair_step E F cid s (Down n)
      (s\<lparr>sy_cl := upd_conn 0 (feed bs) (sy_cl s), sy_down := sy_down s + length bs\<rparr>)"

text \<open>
  What the two sides are configured with: the filters of the client, the services and the
  filters of the server, and the client's address.
\<close>

record deployment =
  dp_client_out :: "(rpc_envelope \<Rightarrow> rpc_envelope res) list"
  dp_routes :: rpc_handle_router
  dp_server_in :: "(rpc_recv_context \<Rightarrow> rpc_recv_context res) list"
  dp_server_out :: "(rpc_envelope \<Rightarrow> rpc_envelope res) list"
  dp_addr :: address

text \<open>The start: the client just connected, the server just accepted the connection.\<close>

definition linked_client ::
    "(bytes, 'sem, 'gate) seastar_env \<Rightarrow> rpc_client_opts \<Rightarrow>
     (rpc_recv_context \<Rightarrow> rpc_recv_context res) list \<Rightarrow> deployment \<Rightarrow> (bytes, 'sem, 'gate) rpc_client" where
  "linked_client E opts ins D =
     (let (s, fs) = connected E [] None (configured_client E opts ins (dp_client_out D))
      in s\<lparr>cfibers := fs\<rparr>)"

definition linked_server ::
    "(bytes, 'sem, 'gate) seastar_env \<Rightarrow> rpc_server_args \<Rightarrow> deployment \<Rightarrow> (bytes, 'sem, 'gate) rpc_server" where
  "linked_server F as D =
     accept_connection [] (dp_addr D)
       (start (configured_server F as (dp_routes D) (dp_server_in D) (dp_server_out D)))"

definition linked_pair ::
    "(bytes, 'sem, 'gate) seastar_env \<Rightarrow> (bytes, 'sem2, 'gate2) seastar_env \<Rightarrow> rpc_client_opts \<Rightarrow>
     (rpc_recv_context \<Rightarrow> rpc_recv_context res) list \<Rightarrow> rpc_server_args \<Rightarrow> deployment \<Rightarrow>
     ('sem, 'gate, 'sem2, 'gate2) rpc_pair" where
  "linked_pair E F opts ins as D =
     \<lparr>sy_cl = linked_client E opts ins D, sy_srv = linked_server F as D, sy_up = 0, sy_down = 0,
      sy_call = (\<lambda>w. rpc_envelope_empty)\<rparr>"

section \<open>The way of a call\<close>

text \<open>
  A message on its way, by the stage it has reached: handed to the client's filters, sent,
  received by the server, routed, through the server's filters, answered by the handler, and
  replied. \<open>stage D e it\<close>: \<open>it\<close> is a stage of the call whose envelope, with its session, is \<open>e\<close>.
\<close>

datatype item =
    Asked rpc_envelope
  | Sent rpc_envelope
  | Got rpc_recv_context
  | Routed rpc_recv_context handle
  | Decoded rpc_recv_context handle
  | Answered rpc_envelope
  | Replied rpc_envelope

definition arrived :: "address \<Rightarrow> rpc_envelope \<Rightarrow> rpc_recv_context" where
  "arrived addr e = \<lparr>ctx_limits = Some 0, ctx_remote_address = addr,
     ctx_header = normalise_compression (env_header e), ctx_payload = env_body e\<rparr>"

fun step_of :: "item \<Rightarrow> nat" where
  "step_of (Asked e) = 0"
| "step_of (Sent e) = 1"
| "step_of (Got q) = 2"
| "step_of (Routed q h) = 3"
| "step_of (Decoded q h) = 4"
| "step_of (Answered e) = 5"
| "step_of (Replied e) = 6"

function stage :: "deployment \<Rightarrow> rpc_envelope \<Rightarrow> item \<Rightarrow> bool" where
  "stage D e (Asked e0) = (e0 = e)"
| "stage D e (Sent e1) = (rpc_filter_apply (dp_client_out D) e = Inr e1)"
| "stage D e (Got q) = (\<exists>e1. stage D e (Sent e1) \<and> q = arrived (dp_addr D) e1)"
| "stage D e (Routed q h) =
     (stage D e (Got q) \<and> get_handle_for_request (dp_routes D) (ctx_request_id q) = Some h)"
| "stage D e (Decoded q' h) =
     (\<exists>q. stage D e (Routed q h) \<and> rpc_filter_apply (dp_server_in D) q = Inr q' \<and>
        hdr_compression (ctx_header q') = compression_flags_none)"
| "stage D e (Answered r) = (\<exists>q h. stage D e (Decoded q h) \<and> h q = Inr r)"
| "stage D e (Replied r') = (\<exists>r. stage D e (Answered r) \<and> rpc_filter_apply (dp_server_out D) r = Inr r')"
  by pat_completeness auto
termination
  by (relation "measure (\<lambda>(D, e, it). step_of it)") auto

text \<open>
  What is relied on of the filters and the services: what the client's filters make of an
  envelope is well formed and keeps its session, and so is what the server answers, under the
  session of the request.
\<close>

definition good_call :: "xxh64 \<Rightarrow> deployment \<Rightarrow> rpc_envelope \<Rightarrow> bool" where
  "good_call xxh D e \<longleftrightarrow>
     (\<forall>sess e'. rpc_filter_apply (dp_client_out D) (mutate_session sess e) = Inr e' \<longrightarrow>
        sendable xxh e' \<and> hdr_session (env_header e') = sess)"

definition good_services :: "xxh64 \<Rightarrow> deployment \<Rightarrow> bool" where
  "good_services xxh D \<longleftrightarrow>
     (\<forall>q h q' r r'. get_handle_for_request (dp_routes D) (ctx_request_id q) = Some h \<longrightarrow>
        rpc_filter_apply (dp_server_in D) q = Inr q' \<longrightarrow> h q' = Inr r \<longrightarrow>
        rpc_filter_apply (dp_server_out D) r = Inr r' \<longrightarrow>
        sendable xxh r' \<and> hdr_session (env_header r') = ctx_session q)"

fun good_event :: "xxh64 \<Rightarrow> deployment \<Rightarrow> pair_event \<Rightarrow> bool" where
  "good_event xxh D (At_client (Ev_send e)) = good_call xxh D e"
| "good_event xxh D _ = True"

section \<open>Messages on a stream\<close>

definition frame :: "rpc_envelope \<Rightarrow> bytes" where
  "frame e = header_bytes (env_header e) @ env_body e"

text \<open>
  The bytes a reader has before it: whole messages, or, when it has read a header, that
  message's body and then whole messages. Without a reader nothing is read any more.
\<close>

fun stream :: "header option list \<Rightarrow> bytes \<Rightarrow> rpc_envelope list \<Rightarrow> bool" where
  "stream [] bs es = (es = [])"
| "stream [None] bs es = (bs = concat (map frame es))"
| "stream [Some h] bs es =
     (\<exists>e es'. es = e # es' \<and> h = normalise_compression (env_header e) \<and>
        bs = env_body e @ concat (map frame es'))"
| "stream _ bs es = False"

lemma stream_append:
  assumes "stream rs bs es"
  shows "\<exists>es'. stream rs (bs @ frame e) es' \<and> set es' \<subseteq> insert e (set es) \<and> mset es' \<subseteq># add_mset e (mset es)"
  using assms
proof (induction rs bs es rule: stream.induct)
  case (1 bs es)
  then show ?case by simp
next
  case (2 bs es)
  then show ?case by (intro exI [of _ "es @ [e]"]) simp
next
  case (3 h bs es)
  then show ?case by (intro exI [of _ "es @ [e]"]) auto
qed simp_all

section \<open>Messages and the calls they belong to\<close>

text \<open>
  Every message under way belongs to a call, no two to the same one, and the call's session
  leads to the call in the client's slots.
\<close>

definition tracked ::
    "deployment \<Rightarrow> (nat \<Rightarrow> rpc_envelope) \<Rightarrow> (nat \<Rightarrow> u16) \<Rightarrow> (u16 \<times> nat) list \<Rightarrow> item multiset \<Rightarrow> bool" where
  "tracked D ask sess slots M \<longleftrightarrow>
     (\<exists>T. image_mset snd T = M \<and>
        (\<forall>p \<in># T. stage D (ask (fst p)) (snd p) \<and> map_of slots (sess (fst p)) = Some (fst p)) \<and>
        (\<forall>w. count (image_mset fst T) w \<le> 1))"

lemma tracked_empty [simp]: "tracked D ask sess slots {#}"
  by (auto simp: tracked_def)

lemma tracked_sub:
  assumes "tracked D ask sess slots M" "M' \<subseteq># M"
  shows "tracked D ask sess slots M'"
proof -
  obtain N where N: "M = M' + N" using assms(2) by (metis subset_mset.le_iff_add)
  from assms(1) obtain T where T: "image_mset snd T = M"
    "\<forall>p \<in># T. stage D (ask (fst p)) (snd p) \<and> map_of slots (sess (fst p)) = Some (fst p)"
    "\<forall>w. count (image_mset fst T) w \<le> 1" by (auto simp: tracked_def)
  then obtain T1 T2 where "T = T1 + T2" "image_mset snd T1 = M'"
    using N by (metis image_mset_eq_plusD)
  moreover from this T(3) have "count (image_mset fst T1) w \<le> 1" for w
    by (metis add_leD1 count_union image_mset_union)
  ultimately show ?thesis using T(2) unfolding tracked_def by (metis UnCI set_mset_union)
qed

lemma tracked_addE:
  assumes "tracked D ask sess slots (add_mset x M)"
  obtains w T where "image_mset snd T = M" "stage D (ask w) x" "map_of slots (sess w) = Some w"
    "\<forall>p \<in># T. stage D (ask (fst p)) (snd p) \<and> map_of slots (sess (fst p)) = Some (fst p) \<and> fst p \<noteq> w"
    "\<forall>v. count (image_mset fst T) v \<le> 1"
proof -
  from assms obtain T where T: "image_mset snd T = add_mset x M"
    "\<forall>p \<in># T. stage D (ask (fst p)) (snd p) \<and> map_of slots (sess (fst p)) = Some (fst p)"
    "\<forall>w. count (image_mset fst T) w \<le> 1" by (auto simp: tracked_def)
  from T(1) obtain p T' where p: "T = add_mset p T'" "snd p = x" "image_mset snd T' = M"
    by (metis msed_map_invR)
  have "fst p \<notin># image_mset fst T'"
    using T(3) [rule_format, of "fst p"] p(1) by (simp add: count_eq_zero_iff)
  then have ne: "fst q \<noteq> fst p" if "q \<in># T'" for q using that by (metis image_eqI set_image_mset)
  have "count (image_mset fst T') v \<le> 1" for v
    using T(3) [rule_format, of v] p(1) by (auto split: if_splits)
  with T(2) p ne show thesis by (intro that [of T' "fst p"]) auto
qed

lemma tracked_addI:
  assumes "image_mset snd T = M" "stage D (ask w) x" "map_of slots (sess w) = Some w"
    "\<forall>p \<in># T. stage D (ask (fst p)) (snd p) \<and> map_of slots (sess (fst p)) = Some (fst p) \<and> fst p \<noteq> w"
    "\<forall>v. count (image_mset fst T) v \<le> 1"
  shows "tracked D ask sess slots (add_mset x M)"
proof -
  have "w \<notin># image_mset fst T" using assms(4) by auto
  then have "count (image_mset fst (add_mset (w, x) T)) v \<le> 1" for v
    using assms(5) by (auto simp: count_eq_zero_iff)
  with assms show ?thesis unfolding tracked_def by (intro exI [of _ "add_mset (w, x) T"]) auto
qed

lemma tracked_replace:
  assumes "tracked D ask sess slots (add_mset x M)" "\<And>e. stage D e x \<Longrightarrow> stage D e y"
  shows "tracked D ask sess slots (add_mset y M)"
  using assms(1)
proof (rule tracked_addE)
  fix w T
  assume "image_mset snd T = M" "stage D (ask w) x" "map_of slots (sess w) = Some w"
    "\<forall>p \<in># T. stage D (ask (fst p)) (snd p) \<and> map_of slots (sess (fst p)) = Some (fst p) \<and> fst p \<noteq> w"
    "\<forall>v. count (image_mset fst T) v \<le> 1"
  with assms(2) show ?thesis by (intro tracked_addI [of T M D ask w]) blast+
qed

lemma tracked_elem:
  "tracked D ask sess slots M \<Longrightarrow> x \<in># M \<Longrightarrow> \<exists>w. stage D (ask w) x \<and> map_of slots (sess w) = Some w"
  by (metis multi_member_split tracked_addE)

lemma tracked_reply:
  assumes "tracked D ask sess slots (add_mset x M)"
  shows "\<exists>w. stage D (ask w) x \<and> map_of slots (sess w) = Some w \<and>
    tracked D ask sess (AList.delete (sess w) slots) M"
  using assms
proof (rule tracked_addE)
  fix w T
  assume T: "image_mset snd T = M" "stage D (ask w) x" "map_of slots (sess w) = Some w"
    "\<forall>p \<in># T. stage D (ask (fst p)) (snd p) \<and> map_of slots (sess (fst p)) = Some (fst p) \<and> fst p \<noteq> w"
    "\<forall>v. count (image_mset fst T) v \<le> 1"
  have "map_of (AList.delete (sess w) slots) (sess (fst p)) = Some (fst p)" if "p \<in># T" for p
  proof -
    from T(3,4) that have "sess (fst p) \<noteq> sess w" by auto
    with T(4) that show ?thesis by (simp add: AList.map_of_delete)
  qed
  with T show ?thesis unfolding tracked_def by blast
qed

lemma tracked_send:
  assumes "tracked D ask sess slots M" "map_of slots sg = None"
    and "\<And>v. map_of slots (sess v) = Some v \<Longrightarrow> v < w"
  shows "tracked D (ask(w := e)) (sess(w := sg)) ((sg, w) # slots) (add_mset (Asked e) M)"
proof -
  from assms(1) obtain T where T: "image_mset snd T = M"
    "\<forall>p \<in># T. stage D (ask (fst p)) (snd p) \<and> map_of slots (sess (fst p)) = Some (fst p)"
    "\<forall>w. count (image_mset fst T) w \<le> 1" by (auto simp: tracked_def)
  have "fst p \<noteq> w" "sess (fst p) \<noteq> sg" if "p \<in># T" for p
    using T(2) that assms(2) assms(3) [of "fst p"] by auto
  with T show ?thesis by (intro tracked_addI [of T M _ _ w]) auto
qed

lemma tracked_cong:
  assumes "tracked D ask sess slots M"
    and "\<And>v. map_of slots (sess v) = Some v \<Longrightarrow> ask' v = ask v \<and> sess' v = sess v"
  shows "tracked D ask' sess' slots M"
  using assms unfolding tracked_def by metis

text \<open>A step that moves one message on, or loses it.\<close>

lemma tracked_move:
  assumes "tracked D ask sess slots (add_mset x M)" "\<And>e. stage D e x \<Longrightarrow> stage D e y"
    and "M' \<subseteq># add_mset y M"
  shows "tracked D ask sess slots M'"
  using tracked_sub [OF tracked_replace [OF assms(1,2)] assms(3)] by simp

section \<open>Messages in fibers and streams\<close>

fun cl_items :: "cfiber \<Rightarrow> item list" where
  "cl_items (Out_filters w m e) = [Asked e]"
| "cl_items (Write_wait e) = [Sent e]"
| "cl_items (Write_turn e n) = [Sent e]"
| "cl_items _ = []"

fun sv_items :: "u64 \<Rightarrow> fiber \<Rightarrow> item list" where
  "sv_items cid (Dispatch i n q) = (if i = cid then [Got q] else [])"
| "sv_items cid (Incoming i n q h) = (if i = cid then [Routed q h] else [])"
| "sv_items cid (Handle i n q h) = (if i = cid then [Decoded q h] else [])"
| "sv_items cid (Outgoing i n e) = (if i = cid then [Answered e] else [])"
| "sv_items cid (Reply i n e) = (if i = cid then [Replied e] else [])"
| "sv_items cid _ = []"

text \<open>A fiber that reads, with the header it has read.\<close>

fun cl_reader :: "cfiber \<Rightarrow> header option list" where
  "cl_reader Reads = [None]"
| "cl_reader (Reply_header k a) = [None]"
| "cl_reader (Reply_payload k h a) = [Some h]"
| "cl_reader _ = []"

fun sv_reader :: "u64 \<Rightarrow> fiber \<Rightarrow> header option list" where
  "sv_reader cid (Session i) = (if i = cid then [None] else [])"
| "sv_reader cid (Read_header i) = (if i = cid then [None] else [])"
| "sv_reader cid (Wait_memory i h) = (if i = cid then [Some h] else [])"
| "sv_reader cid (Read_payload i h) = (if i = cid then [Some h] else [])"
| "sv_reader cid _ = []"

abbreviation gather :: "('f \<Rightarrow> 'b list) \<Rightarrow> 'f list \<Rightarrow> 'b list" where
  "gather f xs \<equiv> concat (map f xs)"

text \<open>The messages on the two streams.\<close>

definition on_lines :: "rpc_envelope list \<Rightarrow> rpc_envelope list \<Rightarrow> item multiset" where
  "on_lines ups downs = image_mset Sent (mset ups) + image_mset Replied (mset downs)"

lemma on_lines_sub:
  "mset ups' \<subseteq># mset ups \<Longrightarrow> mset downs' \<subseteq># mset downs \<Longrightarrow> on_lines ups' downs' \<subseteq># on_lines ups downs"
  unfolding on_lines_def by (intro subset_mset.add_mono image_mset_subseteq_mono)

definition under_way ::
    "deployment \<Rightarrow> (nat \<Rightarrow> rpc_envelope) \<Rightarrow> (nat \<Rightarrow> u16) \<Rightarrow> (u16 \<times> nat) list \<Rightarrow>
     header option list \<Rightarrow> bytes \<Rightarrow> header option list \<Rightarrow> bytes \<Rightarrow> item multiset \<Rightarrow> bool" where
  "under_way D ask sess slots crs cbs srs sbs M \<longleftrightarrow>
     (\<exists>ups downs. stream srs sbs ups \<and> stream crs cbs downs \<and>
        tracked D ask sess slots (M + on_lines ups downs))"

lemma under_wayE:
  assumes "under_way D ask sess slots crs cbs srs sbs M"
  obtains ups downs where "stream srs sbs ups" "stream crs cbs downs"
    "tracked D ask sess slots (M + on_lines ups downs)"
  using assms by (auto simp: under_way_def)

lemma under_wayI:
  "stream srs sbs ups \<Longrightarrow> stream crs cbs downs \<Longrightarrow> tracked D ask sess slots (M + on_lines ups downs) \<Longrightarrow>
   under_way D ask sess slots crs cbs srs sbs M"
  by (auto simp: under_way_def)

lemma under_way_move:
  assumes "under_way D ask sess slots crs cbs srs sbs (add_mset x M)"
    "\<And>e. stage D e x \<Longrightarrow> stage D e y" "M' \<subseteq># add_mset y M"
  shows "under_way D ask sess slots crs cbs srs sbs M'"
proof -
  from assms(1) obtain ups downs where u: "stream srs sbs ups" "stream crs cbs downs"
    "tracked D ask sess slots (add_mset x (M + on_lines ups downs))" by (auto elim: under_wayE)
  have "M' + on_lines ups downs \<subseteq># add_mset y (M + on_lines ups downs)"
    using subset_mset.add_right_mono [OF assms(3), of "on_lines ups downs"] by simp
  from tracked_move [OF u(3) assms(2) this] show ?thesis by (rule under_wayI [OF u(1,2)])
qed

lemma under_way_sub:
  assumes "under_way D ask sess slots crs cbs srs sbs M" "M' \<subseteq># M"
  shows "under_way D ask sess slots crs cbs srs sbs M'"
  using assms(1)
proof (rule under_wayE)
  fix ups downs
  assume u: "stream srs sbs ups" "stream crs cbs downs" "tracked D ask sess slots (M + on_lines ups downs)"
  show ?thesis
    by (rule under_wayI [OF u(1,2) tracked_sub [OF u(3) subset_mset.add_right_mono [OF assms(2)]]])
qed

lemma under_way_drop:
  "under_way D ask sess slots crs cbs srs sbs (add_mset x M) \<Longrightarrow> under_way D ask sess slots crs cbs srs sbs M"
  by (erule under_way_sub) simp

text \<open>A reader that ends.\<close>

lemma under_way_no_reader_up:
  assumes "under_way D ask sess slots crs cbs srs sbs M"
  shows "under_way D ask sess slots crs cbs [] sbs' M"
  using assms
proof (rule under_wayE)
  fix ups downs
  assume u: "stream srs sbs ups" "stream crs cbs downs" "tracked D ask sess slots (M + on_lines ups downs)"
  have "M + on_lines [] downs \<subseteq># M + on_lines ups downs"
    by (intro subset_mset.add_left_mono on_lines_sub) simp_all
  from tracked_sub [OF u(3) this] show ?thesis by (intro under_wayI [OF _ u(2)]) simp_all
qed

lemma under_way_no_reader_down:
  assumes "under_way D ask sess slots crs cbs srs sbs M"
  shows "under_way D ask sess slots [] cbs' srs sbs M"
  using assms
proof (rule under_wayE)
  fix ups downs
  assume u: "stream srs sbs ups" "stream crs cbs downs" "tracked D ask sess slots (M + on_lines ups downs)"
  have "M + on_lines ups [] \<subseteq># M + on_lines ups downs"
    by (intro subset_mset.add_left_mono on_lines_sub) simp_all
  from tracked_sub [OF u(3) this] show ?thesis by (intro under_wayI [OF u(1)]) simp_all
qed

text \<open>A message that is written.\<close>

lemma under_way_write_up:
  assumes "under_way D ask sess slots crs cbs srs sbs (add_mset (Sent e) M)"
  shows "under_way D ask sess slots crs cbs srs (sbs @ frame e) M"
  using assms
proof (rule under_wayE)
  fix ups downs
  assume u: "stream srs sbs ups" "stream crs cbs downs"
    "tracked D ask sess slots (add_mset (Sent e) M + on_lines ups downs)"
  obtain es where es: "stream srs (sbs @ frame e) es" "mset es \<subseteq># mset (e # ups)"
    using stream_append [OF u(1)] by auto
  have "M + on_lines es downs \<subseteq># M + on_lines (e # ups) downs"
    by (intro subset_mset.add_left_mono on_lines_sub es(2)) simp
  moreover have "M + on_lines (e # ups) downs = add_mset (Sent e) M + on_lines ups downs"
    by (simp add: on_lines_def)
  ultimately show ?thesis using tracked_sub [OF u(3)] under_wayI [OF es(1) u(2)] by simp
qed

lemma under_way_write_down:
  assumes "under_way D ask sess slots crs cbs srs sbs (add_mset (Replied e) M)"
  shows "under_way D ask sess slots crs (cbs @ frame e) srs sbs M"
  using assms
proof (rule under_wayE)
  fix ups downs
  assume u: "stream srs sbs ups" "stream crs cbs downs"
    "tracked D ask sess slots (add_mset (Replied e) M + on_lines ups downs)"
  obtain es where es: "stream crs (cbs @ frame e) es" "mset es \<subseteq># mset (e # downs)"
    using stream_append [OF u(2)] by auto
  have "M + on_lines ups es \<subseteq># M + on_lines ups (e # downs)"
    by (intro subset_mset.add_left_mono on_lines_sub es(2)) simp
  moreover have "M + on_lines ups (e # downs) = add_mset (Replied e) M + on_lines ups downs"
    by (simp add: on_lines_def)
  ultimately show ?thesis using tracked_sub [OF u(3)] under_wayI [OF u(1) es(1)] by simp
qed

section \<open>Reading\<close>

definition calls_good ::
    "xxh64 \<Rightarrow> deployment \<Rightarrow> (nat \<Rightarrow> rpc_envelope) \<Rightarrow> (nat \<Rightarrow> u16) \<Rightarrow> (u16 \<times> nat) list \<Rightarrow> bool" where
  "calls_good xxh D ask sess slots \<longleftrightarrow>
     (\<forall>v e. map_of slots (sess v) = Some v \<longrightarrow> rpc_filter_apply (dp_client_out D) (ask v) = Inr e \<longrightarrow>
        sendable xxh e \<and> hdr_session (env_header e) = sess v)"

lemma arrived_simps [simp]:
  "ctx_session (arrived addr e) = hdr_session (env_header e)"
  by (simp add: arrived_def ctx_session_def)

lemma sent_sendable:
  "tracked D ask sess slots M \<Longrightarrow> calls_good xxh D ask sess slots \<Longrightarrow> Sent e \<in># M \<Longrightarrow> sendable xxh e"
  unfolding calls_good_def by (drule (1) tracked_elem) auto

lemma replied_of_call:
  assumes "stage D (ask w) (Replied r)" "map_of slots (sess w) = Some w"
    "calls_good xxh D ask sess slots" "good_services xxh D"
  shows "sendable xxh r \<and> hdr_session (env_header r) = sess w"
proof -
  from assms(1) obtain e1 q h q' r0 where st: "rpc_filter_apply (dp_client_out D) (ask w) = Inr e1"
    "q = arrived (dp_addr D) e1" "get_handle_for_request (dp_routes D) (ctx_request_id q) = Some h"
    "rpc_filter_apply (dp_server_in D) q = Inr q'" "h q' = Inr r0"
    "rpc_filter_apply (dp_server_out D) r0 = Inr r" by auto
  have "hdr_session (env_header e1) = sess w" using assms(2,3) st(1) by (auto simp: calls_good_def)
  moreover have "sendable xxh r \<and> hdr_session (env_header r) = ctx_session q"
    using assms(4) st(3-6) unfolding good_services_def by blast
  ultimately show ?thesis using st(2) by simp
qed

lemma replied_sendable:
  "tracked D ask sess slots M \<Longrightarrow> calls_good xxh D ask sess slots \<Longrightarrow> good_services xxh D \<Longrightarrow>
   Replied r \<in># M \<Longrightarrow> sendable xxh r"
  using tracked_elem replied_of_call by metis

text \<open>The next header, when its bytes are there.\<close>

lemma stream_header:
  assumes "stream [None] (bs @ rest) es" "kHeaderSize \<le> length bs"
  shows "\<exists>e es' bs'. es = e # es' \<and> bs = header_bytes (env_header e) @ bs' \<and>
    stream [Some (normalise_compression (env_header e))] (bs' @ rest) es"
proof (cases es)
  case Nil
  with assms show ?thesis by (simp add: kHeaderSize_def)
next
  case (Cons e es')
  with assms(1) have bs: "bs @ rest = header_bytes (env_header e) @ env_body e @ concat (map frame es')"
    by (simp add: frame_def)
  then have "header_bytes (env_header e) = take kHeaderSize bs"
    using assms(2) by (metis hdr.take_enc take_append append.right_neutral diff_is_0_eq take0)
  then have split: "bs = header_bytes (env_header e) @ drop kHeaderSize bs" by simp
  then have "drop kHeaderSize bs @ rest = env_body e @ concat (map frame es')"
    using bs by (metis append.assoc same_append_eq)
  with split Cons show ?thesis
    by (intro exI [of _ e] exI [of _ es'] exI [of _ "drop kHeaderSize bs"]) auto
qed

lemma stream_payload:
  assumes "stream [Some h] (bs @ rest) (e # es)" "sendable xxh e" "unat (hdr_size h) \<le> length bs"
  shows "\<exists>bs'. bs = env_body e @ bs' \<and> stream [None] (bs' @ rest) es \<and>
    h = normalise_compression (env_header e)"
proof -
  from assms(1) have h: "h = normalise_compression (env_header e)"
    and bs: "bs @ rest = env_body e @ concat (map frame es)" by auto
  have "unat (hdr_size h) = length (env_body e)"
    using assms(2) consistent_size [of xxh "env_letter e"] by (simp add: h sendable_def)
  then have split: "bs = env_body e @ drop (length (env_body e)) bs"
    using assms(3) bs by (metis append_eq_append_conv_if append_take_drop_id)
  then have "drop (length (env_body e)) bs @ rest = concat (map frame es)"
    using bs by (metis append.assoc same_append_eq)
  with split h show ?thesis by auto
qed

text \<open>What the parsers make of it.\<close>

lemma header_read:
  assumes "conn_istream c = header_bytes (env_header e) @ bs" "conn_istream_active_parser c = 0" "sendable xxh e"
  shows "parse_header dbg list_istream c =
    (Inr (Some (normalise_compression (env_header e))), c\<lparr>conn_istream := bs\<rparr>)"
  using parse_header_on_stream [OF list_istream_law assms(2), of "env_header e" bs dbg] assms
  by (simp add: sendable_def)

lemma payload_read:
  assumes "conn_istream c = env_body e @ bs" "sendable xxh e"
    "conn_limits c = Some 0" "conn_remote_address c = addr"
  shows "parse_payload dbg list_istream xxh c (normalise_compression (env_header e)) =
    (Inr (Some (arrived addr e)), c\<lparr>conn_istream := bs\<rparr>)"
proof -
  have "hdr_size (normalise_compression (env_header e)) = word_of_nat (length (env_body e))"
    "length (env_body e) < 2 ^ 31"
    "hdr_checksum (normalise_compression (env_header e)) =
       rpc_checksum_payload xxh (env_body e) (hdr_size (normalise_compression (env_header e)))"
    "hdr_bitflags (normalise_compression (env_header e)) AND header_bit_flags_has_payload_headers = 0"
    using assms(2) by (simp_all add: sendable_def consistent_letter_def)
  from parse_payload_on_stream [OF list_istream_law _ this, of c bs dbg] assms(1,3,4) show ?thesis
    by (simp add: arrived_def)
qed

text \<open>The reads of the two sides, on what is under way.\<close>

lemma header_up:
  assumes u: "under_way D ask sess slots crs cbs [None] (bs @ rest) M"
    and good: "calls_good xxh D ask sess slots" and len: "kHeaderSize \<le> length bs"
  shows "\<exists>e bs'. bs = header_bytes (env_header e) @ bs' \<and> sendable xxh e \<and>
    under_way D ask sess slots crs cbs [Some (normalise_compression (env_header e))] (bs' @ rest) M"
  using u
proof (rule under_wayE)
  fix ups downs
  assume u: "stream [None] (bs @ rest) ups" "stream crs cbs downs"
    "tracked D ask sess slots (M + on_lines ups downs)"
  from stream_header [OF u(1) len] obtain e es bs' where e: "ups = e # es"
    "bs = header_bytes (env_header e) @ bs'"
    "stream [Some (normalise_compression (env_header e))] (bs' @ rest) ups" by blast
  have "sendable xxh e" by (rule sent_sendable [OF u(3) good]) (simp add: e(1) on_lines_def)
  with e under_wayI [OF e(3) u(2,3)] show ?thesis by blast
qed

lemma payload_up:
  assumes u: "under_way D ask sess slots crs cbs [Some h] (bs @ rest) M"
    and good: "calls_good xxh D ask sess slots" and len: "unat (hdr_size h) \<le> length bs"
  shows "\<exists>e bs'. bs = env_body e @ bs' \<and> sendable xxh e \<and> h = normalise_compression (env_header e) \<and>
    under_way D ask sess slots crs cbs [None] (bs' @ rest) (add_mset (Got (arrived (dp_addr D) e)) M)"
  using u
proof (rule under_wayE)
  fix ups downs
  assume u: "stream [Some h] (bs @ rest) ups" "stream crs cbs downs"
    "tracked D ask sess slots (M + on_lines ups downs)"
  from u(1) obtain e es where e: "ups = e # es" by auto
  have s: "sendable xxh e" by (rule sent_sendable [OF u(3) good]) (simp add: e on_lines_def)
  from stream_payload [OF u(1) [unfolded e] s len] obtain bs' where b: "bs = env_body e @ bs'"
    "stream [None] (bs' @ rest) es" "h = normalise_compression (env_header e)" by blast
  have "M + on_lines ups downs = add_mset (Sent e) (M + on_lines es downs)" by (simp add: e on_lines_def)
  then have "tracked D ask sess slots (add_mset (Sent e) (M + on_lines es downs))" using u(3) by simp
  then have "tracked D ask sess slots (add_mset (Got (arrived (dp_addr D) e)) (M + on_lines es downs))"
    by (rule tracked_replace) auto
  then have "tracked D ask sess slots (add_mset (Got (arrived (dp_addr D) e)) M + on_lines es downs)" by simp
  from under_wayI [OF b(2) u(2) this] b s show ?thesis by blast
qed

lemma header_down:
  assumes u: "under_way D ask sess slots [None] (bs @ rest) srs sbs M"
    and good: "calls_good xxh D ask sess slots" "good_services xxh D" and len: "kHeaderSize \<le> length bs"
  shows "\<exists>e bs'. bs = header_bytes (env_header e) @ bs' \<and> sendable xxh e \<and>
    under_way D ask sess slots [Some (normalise_compression (env_header e))] (bs' @ rest) srs sbs M"
  using u
proof (rule under_wayE)
  fix ups downs
  assume u: "stream srs sbs ups" "stream [None] (bs @ rest) downs"
    "tracked D ask sess slots (M + on_lines ups downs)"
  from stream_header [OF u(2) len] obtain e es bs' where e: "downs = e # es"
    "bs = header_bytes (env_header e) @ bs'"
    "stream [Some (normalise_compression (env_header e))] (bs' @ rest) downs" by blast
  have "sendable xxh e" by (rule replied_sendable [OF u(3) good]) (simp add: e(1) on_lines_def)
  with e under_wayI [OF u(1) e(3) u(3)] show ?thesis by blast
qed

lemma payload_down:
  assumes u: "under_way D ask sess slots [Some h] (bs @ rest) srs sbs M"
    and good: "calls_good xxh D ask sess slots" "good_services xxh D" and len: "unat (hdr_size h) \<le> length bs"
  shows "\<exists>r bs' w. bs = env_body r @ bs' \<and> sendable xxh r \<and> h = normalise_compression (env_header r) \<and>
    stage D (ask w) (Replied r) \<and> map_of slots (sess w) = Some w \<and> hdr_session (env_header r) = sess w \<and>
    under_way D ask sess (AList.delete (sess w) slots) [None] (bs' @ rest) srs sbs M"
  using u
proof (rule under_wayE)
  fix ups downs
  assume u: "stream srs sbs ups" "stream [Some h] (bs @ rest) downs"
    "tracked D ask sess slots (M + on_lines ups downs)"
  from u(2) obtain r es where e: "downs = r # es" by auto
  have s: "sendable xxh r" by (rule replied_sendable [OF u(3) good]) (simp add: e on_lines_def)
  from stream_payload [OF u(2) [unfolded e] s len] obtain bs' where b: "bs = env_body r @ bs'"
    "stream [None] (bs' @ rest) es" "h = normalise_compression (env_header r)" by blast
  have "M + on_lines ups downs = add_mset (Replied r) (M + on_lines ups es)" by (simp add: e on_lines_def)
  then have "tracked D ask sess slots (add_mset (Replied r) (M + on_lines ups es))" using u(3) by simp
  from tracked_reply [OF this] obtain w where w: "stage D (ask w) (Replied r)" "map_of slots (sess w) = Some w"
    "tracked D ask sess (AList.delete (sess w) slots) (M + on_lines ups es)" by blast
  from replied_of_call [OF w(1,2) good] under_wayI [OF u(1) b(2) w(3)] w b s show ?thesis by blast
qed

section \<open>Steps of the server\<close>

definition end_ok :: "address \<Rightarrow> bytes rpc_connection \<Rightarrow> bool" where
  "end_ok addr c \<longleftrightarrow> conn_limits c = Some 0 \<and> conn_remote_address c = addr \<and> conn_istream_active_parser c = 0"

definition server_ok :: "deployment \<Rightarrow> (bytes, 'sem, 'gate) rpc_server \<Rightarrow> bool" where
  "server_ok D s \<longleftrightarrow> routes s = dp_routes D \<and> in_filters s = dp_server_in D \<and> out_filters s = dp_server_out D"

lemma end_ok_frame [simp]:
  "end_ok addr (set_error m c) = end_ok addr c" "end_ok addr (disable c) = end_ok addr c"
  "end_ok addr (socket_do cs c) = end_ok addr c" "end_ok addr (c\<lparr>conn_istream := i\<rparr>) = end_ok addr c"
  "end_ok addr (c\<lparr>conn_ostream := os\<rparr>) = end_ok addr c" "end_ok addr (feed bs c) = end_ok addr c"
  by (auto simp: end_ok_def set_error_def disable_def socket_do_def feed_def split: option.splits)

lemma stream_frame [simp]:
  "conn_istream (disable c) = conn_istream c" "conn_ostream (disable c) = conn_ostream c"
  "conn_istream (socket_do cs c) = conn_istream c" "conn_ostream (socket_do cs c) = conn_ostream c"
  "conn_ostream (feed bs c) = conn_ostream c" "conn_istream (feed bs c) = conn_istream c @ bs"
  by (simp_all add: disable_def socket_do_def feed_def)

text \<open>A step that leaves the streams of the connection as they are.\<close>

definition same_streams :: "address \<Rightarrow> bytes rpc_connection \<Rightarrow> bytes rpc_connection \<Rightarrow> bool" where
  "same_streams addr c c' \<longleftrightarrow> end_ok addr c' \<and> conn_istream c' = conn_istream c \<and>
     wire_bytes (conn_ostream c') = wire_bytes (conn_ostream c)"

lemma cleanup_same:
  assumes "heap s cid = Some c" "end_ok addr c"
  shows "\<exists>c'. heap (cleanup_dispatch_rpc cid c s) cid = Some c' \<and> same_streams addr c c'"
  using assms by (auto simp: cleanup_dispatch_rpc_def same_streams_def)

lemma exception_same:
  assumes "end_ok addr c"
  shows "\<exists>c'. heap (session_exception cid c s) cid = Some c' \<and> same_streams addr c c'"
proof -
  obtain c1 where c1: "heap (cleanup_dispatch_rpc cid c (set_conn cid c s)) cid = Some c1" "same_streams addr c c1"
    using cleanup_same [of "set_conn cid c s" cid c addr] assms by auto
  let ?s = "set_conn cid (set_error ''handling client session exception'' c1) (cleanup_dispatch_rpc cid c (set_conn cid c s))"
  have "end_ok addr (set_error ''handling client session exception'' c1)" using c1(2) by (simp add: same_streams_def)
  from cleanup_same [OF _ this, of ?s cid] c1 show ?thesis
    by (auto simp: session_exception_def same_streams_def Let_def)
qed

lemma server_ok_frame [simp]:
  "server_ok D (set_conn cid c s) = server_ok D s" "server_ok D (upd_stats f s) = server_ok D s"
  "server_ok D (signal_units E n s) = server_ok D s" "server_ok D (cleanup_dispatch_rpc cid c s) = server_ok D s"
  "server_ok D (session_exception cid c s) = server_ok D s" "server_ok D (s\<lparr>fibers := fs\<rparr>) = server_ok D s"
  "server_ok D (s\<lparr>limits := l\<rparr>) = server_ok D s" "server_ok D (s\<lparr>reply_gate := g\<rparr>) = server_ok D s"
  "server_ok D (dispatch_release E m s) = server_ok D s"
  by (simp_all add: server_ok_def set_conn_def upd_stats_def signal_units_def cleanup_dispatch_rpc_def
      session_exception_def dispatch_release_def Let_def)

lemma heap_release [simp]: "heap (dispatch_release E n s) = heap s"
  by (simp add: dispatch_release_def)

lemma parse_header_frame:
  "parse_header dbg ops c = (r, c') \<Longrightarrow> end_ok addr c \<Longrightarrow> end_ok addr c' \<and> conn_ostream c' = conn_ostream c"
  by (auto simp: parse_header_def end_ok_def Let_def split: prod.splits if_splits)

lemma parse_payload_frame:
  "parse_payload dbg ops xxh c h = (r, c') \<Longrightarrow> end_ok addr c \<Longrightarrow> end_ok addr c' \<and> conn_ostream c' = conn_ostream c"
  by (auto simp: parse_payload_def end_ok_def Let_def split: prod.splits)

text \<open>What a continuation keeps of its connection, whatever is on the streams.\<close>

definition kept :: "deployment \<Rightarrow> u64 \<Rightarrow> bytes rpc_connection \<Rightarrow> (bytes, 'sem, 'gate) rpc_server \<Rightarrow> bool" where
  "kept D cid c s \<longleftrightarrow> server_ok D s \<and> (\<exists>c'. heap s cid = Some c' \<and> end_ok (dp_addr D) c' \<and>
     prefix (wire_bytes (conn_ostream c)) (wire_bytes (conn_ostream c')))"

lemma keptI:
  "server_ok D s \<Longrightarrow> heap s cid = Some c' \<Longrightarrow> end_ok (dp_addr D) c' \<Longrightarrow>
   prefix (wire_bytes (conn_ostream c)) (wire_bytes (conn_ostream c')) \<Longrightarrow> kept D cid c s"
  by (auto simp: kept_def)

lemma kept_same:
  "server_ok D s \<Longrightarrow> \<exists>c'. heap s cid = Some c' \<and> same_streams (dp_addr D) c c' \<Longrightarrow> kept D cid c s"
  by (auto simp: kept_def same_streams_def)

lemma kept_trans: "conn_ostream c1 = conn_ostream c \<Longrightarrow> kept D cid c1 s \<Longrightarrow> kept D cid c s"
  by (simp add: kept_def)

lemma server_kept:
  assumes ok: "server_ok D s" "heap s cid = Some c" "end_ok (dp_addr D) c"
    and run: "exec_conn F oc f c s = Some (s', fs)" "fiber_conn f = cid"
  shows "kept D cid c s'"
proof -
  note same = kept_same [OF _ cleanup_same [OF ok(2,3)]] 
  have exc: "kept D cid c (session_exception cid c' s)"
    if "end_ok (dp_addr D) c'" "conn_ostream c' = conn_ostream c" for c'
    using kept_trans [OF that(2) kept_same [OF _ exception_same [OF that(1)]]] ok(1) by simp
  show ?thesis
  proof (cases f)
    case (Session i)
    with run same ok show ?thesis
      by (auto simp: session_loop_def intro: keptI split: if_splits)
  next
    case (Read_header i)
    show ?thesis
    proof (cases oc)
      case (Fail e)
      with Read_header run exc [OF ok(3)] show ?thesis by (auto simp: session_header_def)
    next
      case Proceed
      obtain r c1 where p: "parse_header (env_dbg F) (env_istream F) c = (r, c1)" by fastforce
      note c1 = parse_header_frame [OF p ok(3)]
      from Proceed Read_header run p c1 ok(1) exc [of c1] show ?thesis
        by (auto simp: session_header_def intro: keptI split: sum.splits option.splits)
    qed
  next
    case (Wait_memory i h)
    with run ok show ?thesis
      by (auto simp: session_wait_def intro!: keptI [OF _ _ ok(3)] split: option.splits)
  next
    case (Read_payload i h)
    show ?thesis
    proof (cases oc)
      case (Fail e)
      with Read_payload run exc [OF ok(3)] show ?thesis by (auto simp: session_payload_def)
    next
      case Proceed
      obtain r c1 where p: "parse_payload (env_dbg F) (env_istream F) (env_xxh F) c h = (r, c1)" by fastforce
      note c1 = parse_payload_frame [OF p ok(3)]
      from Proceed Read_payload run p c1 ok(1) exc [of c1] show ?thesis
        by (auto simp: session_payload_def dispatch_rpc_def intro: keptI
            split: sum.splits option.splits prod.splits)
    qed
  next
    case (Reply i n e)
    with run ok show ?thesis
      by (auto simp: dispatch_reply_def rpc_envelope_send_def Let_def intro!: keptI
          split: if_splits outcome.splits)
  next
    case (Flush_reply i n)
    with run ok show ?thesis
      by (auto simp: dispatch_flush_def intro!: keptI split: if_splits outcome.splits)
  next
    case (Cleanup i n)
    with run same ok show ?thesis by auto
  qed (use run ok in \<open>auto simp: do_dispatch_rpc_def dispatch_incoming_def dispatch_handle_def dispatch_outgoing_def
      intro!: keptI split: if_splits option.splits sum.splits\<close>)
qed

lemma stream_single: "stream (A @ x # B) bs es \<Longrightarrow> A = [] \<and> B = []"
  by (cases "(A @ x # B, bs, es)" rule: stream.cases) (auto simp: Cons_eq_append_conv append_eq_Cons_conv)

lemma one_reader_up: "under_way D ask sess slots crs cbs (A @ x # B) sbs M \<Longrightarrow> A = [] \<and> B = []"
  by (auto elim!: under_wayE dest: stream_single)

lemma one_reader_down: "under_way D ask sess slots (A @ x # B) cbs srs sbs M \<Longrightarrow> A = [] \<and> B = []"
  by (auto elim!: under_wayE dest: stream_single)

text \<open>The reading fibers of the server.\<close>

lemma server_reads:
  assumes law: "env_istream F = list_istream" "env_xxh F = xxh"
    and ok: "heap s cid = Some c" "end_ok (dp_addr D) c"
    and run: "exec_conn F oc f c s = Some (s', fs)" "fiber_conn f = cid" "sv_reader cid f = [x]"
    and ready: "srv_ready cid (conn_istream c) (Ev_run f oc)"
    and good: "calls_good xxh D ask sess slots"
    and u: "under_way D ask sess slots crs cbs [x] (conn_istream c @ rest) M"
  shows "\<exists>c'. heap s' cid = Some c' \<and> wire_bytes (conn_ostream c') = wire_bytes (conn_ostream c) \<and>
    under_way D ask sess slots crs cbs (gather (sv_reader cid) fs) (conn_istream c' @ rest)
      (M + mset (gather (sv_items cid) fs))"
proof -
  have ends: ?thesis
    if "\<exists>c'. heap s' cid = Some c' \<and> same_streams (dp_addr D) c c'" "fs = []"
    using that under_way_no_reader_up [OF u] by (auto simp: same_streams_def)
  have c: "conn_istream_active_parser c = 0" "conn_limits c = Some 0" "conn_remote_address c = dp_addr D"
    using ok(2) by (simp_all add: end_ok_def)
  show ?thesis
  proof (cases f)
    case (Session i)
    with run u ok ends cleanup_same [OF ok] show ?thesis
      by (auto simp: session_loop_def split: if_splits)
  next
    case (Read_header i)
    show ?thesis
    proof (cases oc)
      case (Fail e)
      with Read_header run exception_same [OF ok(2)] show ?thesis
        by (intro ends) (auto simp: session_header_def)
    next
      case Proceed
      have x: "x = None" using Read_header run by auto
      have "kHeaderSize \<le> length (conn_istream c)" using ready Proceed Read_header run by simp
      from header_up [OF u [unfolded x] good this] obtain e bs where e:
        "conn_istream c = header_bytes (env_header e) @ bs" "sendable xxh e"
        "under_way D ask sess slots crs cbs [Some (normalise_compression (env_header e))] (bs @ rest) M" by blast
      with Proceed Read_header run header_read [OF e(1) c(1) e(2)] law show ?thesis
        by (auto simp: session_header_def)
    qed
  next
    case (Wait_memory i h)
    with run u ok show ?thesis by (auto simp: session_wait_def split: option.splits)
  next
    case (Read_payload i h)
    show ?thesis
    proof (cases oc)
      case (Fail e)
      with Read_payload run exception_same [OF ok(2)] show ?thesis
        by (intro ends) (auto simp: session_payload_def)
    next
      case Proceed
      have x: "x = Some h" using Read_payload run by auto
      have "unat (hdr_size h) \<le> length (conn_istream c)" using ready Proceed Read_payload run by simp
      from payload_up [OF u [unfolded x] good this] obtain e bs where e:
        "conn_istream c = env_body e @ bs" "sendable xxh e" "h = normalise_compression (env_header e)"
        "under_way D ask sess slots crs cbs [None] (bs @ rest) (add_mset (Got (arrived (dp_addr D) e)) M)" by blast
      from Proceed Read_payload run payload_read [OF e(1,2) c(2,3)] law e(3)
      have "(let (s1, fs1) = dispatch_rpc F (hdr_size h) cid (c\<lparr>conn_istream := bs\<rparr>)
                (Some (arrived (dp_addr D) e)) (set_conn cid (c\<lparr>conn_istream := bs\<rparr>) s)
             in (s1, fs1 @ [Session cid])) = (s', fs)"
        by (auto simp: session_payload_def)
      then show ?thesis using e(4) under_way_drop [OF e(4)]
        by (auto simp: dispatch_rpc_def split: option.splits)
    qed
  qed (use run in auto)
qed

text \<open>The fibers that carry a request or its answer.\<close>

lemma server_moves:
  assumes ok: "server_ok D s" "heap s cid = Some c"
    and run: "exec_conn F oc f c s = Some (s', fs)" "fiber_conn f = cid" "sv_items cid f = [x]"
    and sendable: "\<And>e. x = Replied e \<Longrightarrow> sendable xxh e"
    and dn: "dn \<le> length (wire_bytes (conn_ostream c))"
    and u: "under_way D ask sess slots crs (cist @ drop dn (wire_bytes (conn_ostream c))) srs sbs (add_mset x M)"
  shows "\<exists>c'. heap s' cid = Some c' \<and> conn_istream c' = conn_istream c \<and> gather (sv_reader cid) fs = [] \<and>
    under_way D ask sess slots crs (cist @ drop dn (wire_bytes (conn_ostream c'))) srs sbs
      (M + mset (gather (sv_items cid) fs))"
proof -
  note gone = under_way_drop [OF u]
  have cfg: "routes s = dp_routes D" "in_filters s = dp_server_in D" "out_filters s = dp_server_out D"
    using ok(1) by (simp_all add: server_ok_def)
  have on: "under_way D ask sess slots crs (cist @ drop dn (wire_bytes (conn_ostream c))) srs sbs (add_mset y M)"
    if "\<And>e. stage D e x \<Longrightarrow> stage D e y" for y
    using under_way_move [OF u that subset_mset.order_refl] .
  show ?thesis
  proof (cases f)
    case (Dispatch i n q)
    with run on [of "Routed q h" for h] gone ok(2) cfg show ?thesis
      by (auto simp: do_dispatch_rpc_def split: if_splits option.splits)
  next
    case (Incoming i n q h)
    with run on [of "Decoded q' h" for q'] gone ok(2) cfg show ?thesis
      by (fastforce simp: dispatch_incoming_def split: if_splits sum.splits)
  next
    case (Handle i n q h)
    with run on [of "Answered r" for r] gone ok(2) cfg show ?thesis
      by (fastforce simp: dispatch_handle_def split: sum.splits)
  next
    case (Outgoing i n e)
    with run on [of "Replied r" for r] gone ok(2) cfg show ?thesis
      by (fastforce simp: dispatch_outgoing_def split: sum.splits)
  next
    case (Reply i n e)
    then have x: "x = Replied e" using run by auto
    have "under_way D ask sess slots crs ((cist @ drop dn (wire_bytes (conn_ostream c))) @ frame e) srs sbs M"
      by (rule under_way_write_down [OF u [unfolded x]])
    with Reply run gone ok(2) dn rpc_envelope_send_sendable [OF sendable [OF x]] show ?thesis
      by (auto simp: dispatch_reply_def frame_def Let_def split: if_splits outcome.splits)
  qed (use run in auto)
qed

text \<open>The other fibers of the connection, and those of other connections.\<close>

lemma server_idle:
  assumes "heap s cid = Some c" "end_ok (dp_addr D) c"
    and "exec_conn F oc f c s = Some (s', fs)" "fiber_conn f = cid" "sv_items cid f = []" "sv_reader cid f = []"
  shows "(\<exists>c'. heap s' cid = Some c' \<and> same_streams (dp_addr D) c c') \<and>
    gather (sv_reader cid) fs = [] \<and> gather (sv_items cid) fs = []"
  using assms cleanup_same [OF assms(1,2)]
  by (cases f) (auto simp: dispatch_flush_def same_streams_def split: if_splits outcome.splits)

lemma cleanup_other [simp]: "i \<noteq> cid \<Longrightarrow> heap (cleanup_dispatch_rpc i c s) cid = heap s cid"
  by (simp add: cleanup_dispatch_rpc_def)

lemma exception_other [simp]: "i \<noteq> cid \<Longrightarrow> heap (session_exception i c s) cid = heap s cid"
  by (simp add: session_exception_def Let_def)

lemma server_other:
  assumes "exec_conn F oc f c s = Some (s', fs)" "fiber_conn f \<noteq> cid"
  shows "heap s' cid = heap s cid \<and> gather (sv_reader cid) fs = [] \<and> gather (sv_items cid) fs = [] \<and>
    server_ok D s' = server_ok D s"
  using assms
  by (cases f) (auto simp: dispatch_rpc_def do_dispatch_rpc_def dispatch_incoming_def dispatch_handle_def
      dispatch_outgoing_def dispatch_reply_def dispatch_flush_def session_loop_def session_header_def
      session_wait_def session_payload_def Let_def
      split: if_splits option.splits sum.splits prod.splits outcome.splits)

text \<open>One continuation of the server, with the fibers around it.\<close>

lemma server_run:
  assumes law: "env_istream F = list_istream" "env_xxh F = xxh"
    and ok: "server_ok D s" "heap s cid = Some c" "end_ok (dp_addr D) c"
    and run: "exec F oc f s = Some (s', fs)"
    and ready: "srv_ready cid (conn_istream c) (Ev_run f oc)"
    and good: "calls_good xxh D ask sess slots" "good_services xxh D"
    and dn: "dn \<le> length (wire_bytes (conn_ostream c))"
    and u: "under_way D ask sess slots crs (cist @ drop dn (wire_bytes (conn_ostream c)))
      (A @ sv_reader cid f @ B) (conn_istream c @ rest) (M + mset (sv_items cid f))"
  shows "\<exists>c'. heap s' cid = Some c' \<and>
    under_way D ask sess slots crs (cist @ drop dn (wire_bytes (conn_ostream c')))
      (A @ gather (sv_reader cid) fs @ B) (conn_istream c' @ rest) (M + mset (gather (sv_items cid) fs))"
proof (cases "fiber_conn f = cid")
  case True
  with run ok(2) have x: "exec_conn F oc f c s = Some (s', fs)" by (auto simp: exec_def)
  consider (reads) y where "sv_reader cid f = [y]" "sv_items cid f = []"
    | (moves) y where "sv_items cid f = [y]" "sv_reader cid f = []"
    | (idle) "sv_items cid f = []" "sv_reader cid f = []"
    using True by (cases f) auto
  then show ?thesis
  proof cases
    case reads
    with u one_reader_up have AB: "A = []" "B = []" by fastforce+
    with u reads have "under_way D ask sess slots crs (cist @ drop dn (wire_bytes (conn_ostream c))) [y]
      (conn_istream c @ rest) M" by simp
    from server_reads [OF law ok(2,3) x True reads(1) ready good(1) this] AB reads show ?thesis by auto
  next
    case moves
    with u have m: "under_way D ask sess slots crs (cist @ drop dn (wire_bytes (conn_ostream c))) (A @ B)
      (conn_istream c @ rest) (add_mset y M)" by simp
    have "sendable xxh e" if "y = Replied e" for e
      using m that by (auto elim!: under_wayE intro: replied_sendable [OF _ good])
    from server_moves [OF ok(1,2) x True moves(1) this dn m] moves show ?thesis
      by (auto simp del: concat_eq_Nil_conv)
  next
    case idle
    from server_idle [OF ok(2,3) x True idle] idle u show ?thesis
      by (auto simp: same_streams_def simp del: concat_eq_Nil_conv)
  qed
next
  case False
  from run obtain c1 where x: "exec_conn F oc f c1 s = Some (s', fs)" by (auto simp: exec_def split: option.splits)
  have "sv_reader cid f = []" "sv_items cid f = []" using False by (cases f; simp)+
  with server_other [OF x False] ok u show ?thesis
    by (auto simp del: concat_eq_Nil_conv)
qed

end
