(* ===== verification/Rpc_System_Calls.thy ===== *)
theory Rpc_System_Calls
  imports Rpc_System
begin

text \<open>
  The invariant of a client and a server joined by a connection (Rpc_System), that every step
  of the client, the server and the network keeps it, and what follows for the calls: a call
  that resolves to a message resolves to what calling the service directly gives.
\<close>

section \<open>The invariant\<close>

definition open_end :: "bytes rpc_connection \<Rightarrow> bool" where
  "open_end c \<longleftrightarrow> conn_enabled c \<and> \<not> has_error c"

fun cfiber_ok :: "cfiber \<Rightarrow> bool" where
  "cfiber_ok (Reply_header k a) = (k = 0 \<and> a)"
| "cfiber_ok (Reply_payload k h a) = (k = 0 \<and> a)"
| "cfiber_ok Reconnecting = False"
| "cfiber_ok Connecting = False"
| "cfiber_ok (Tls_wrapping cr) = False"
| "cfiber_ok _ = True"

definition client_ok :: "deployment \<Rightarrow> (bytes, 'sem, 'gate) rpc_client \<Rightarrow> bool" where
  "client_ok D s \<longleftrightarrow> slot_inv s \<and> cli_conn s = Some 0 \<and> cli_out_filters s = dp_client_out D \<and>
     list_all cfiber_ok (cfibers s) \<and>
     (\<exists>c tls. connections s 0 = Some (c, tls) \<and> end_ok (0, 0) c \<and> (\<not> open_end c \<longrightarrow> rpc_slots s = []))"

definition ask_of :: "(bytes, 'sem, 'gate) rpc_client \<Rightarrow> (nat \<Rightarrow> rpc_envelope) \<Rightarrow> nat \<Rightarrow> rpc_envelope" where
  "ask_of cl ask w = mutate_session (work_session cl w) (ask w)"

text \<open>Every fulfilled promise holds the reply to the request of its call.\<close>

definition own_reply :: "deployment \<Rightarrow> rpc_envelope \<Rightarrow> rpc_recv_context \<Rightarrow> bool" where
  "own_reply D e ctx \<longleftrightarrow> (\<exists>r. stage D e (Replied r) \<and> ctx = arrived (0, 0) r)"

definition own_replies :: "deployment \<Rightarrow> (bytes, 'sem, 'gate) rpc_client \<Rightarrow> (nat \<Rightarrow> rpc_envelope) \<Rightarrow> bool" where
  "own_replies D cl ask \<longleftrightarrow>
     (\<forall>w ctx. promises cl w = Fulfilled (Some ctx) \<longrightarrow> own_reply D (ask_of cl ask w) ctx)"

definition sent_bytes :: "bytes rpc_connection \<Rightarrow> bytes" where
  "sent_bytes c = wire_bytes (conn_ostream c)"

definition traffic :: "deployment \<Rightarrow> u64 \<Rightarrow> ('sem, 'gate, 'sem2, 'gate2) rpc_pair \<Rightarrow> bool" where
  "traffic D cid s \<longleftrightarrow>
     under_way D (ask_of (sy_cl s) (sy_call s)) (work_session (sy_cl s)) (rpc_slots (sy_cl s))
       (gather cl_reader (cfibers (sy_cl s)))
       (conn_istream (client_end s) @ drop (sy_down s) (sent_bytes (server_end cid s)))
       (gather (sv_reader cid) (fibers (sy_srv s)))
       (conn_istream (server_end cid s) @ drop (sy_up s) (sent_bytes (client_end s)))
       (mset (gather cl_items (cfibers (sy_cl s))) + mset (gather (sv_items cid) (fibers (sy_srv s))))"

definition pair_inv :: "xxh64 \<Rightarrow> deployment \<Rightarrow> u64 \<Rightarrow> ('sem, 'gate, 'sem2, 'gate2) rpc_pair \<Rightarrow> bool" where
  "pair_inv xxh D cid s \<longleftrightarrow>
     client_ok D (sy_cl s) \<and> kept D cid (server_end cid s) (sy_srv s) \<and>
     sy_up s \<le> length (sent_bytes (client_end s)) \<and> sy_down s \<le> length (sent_bytes (server_end cid s)) \<and>
     (\<forall>w < next_work (sy_cl s). good_call xxh D (sy_call s w)) \<and>
     own_replies D (sy_cl s) (sy_call s) \<and>
     (open_end (client_end s) \<longrightarrow> traffic D cid s)"

lemma slot_call:
  assumes "slot_inv cl" "map_of (rpc_slots cl) sg = Some w"
  shows "w < next_work cl" "work_session cl w = sg"
  using assms map_of_SomeD [OF assms(2)] by (auto simp: slot_inv_def)

lemma calls_goodI:
  assumes "slot_inv cl" "\<forall>w < next_work cl. good_call xxh D (ask w)"
  shows "calls_good xxh D (ask_of cl ask) (work_session cl) (rpc_slots cl)"
  unfolding calls_good_def
proof (intro allI impI)
  fix v e
  assume v: "map_of (rpc_slots cl) (work_session cl v) = Some v"
    "rpc_filter_apply (dp_client_out D) (ask_of cl ask v) = Inr e"
  from slot_call(1) [OF assms(1) v(1)] assms(2) have "good_call xxh D (ask v)" by blast
  with v(2) show "sendable xxh e \<and> hdr_session (env_header e) = work_session cl v"
    unfolding good_call_def ask_of_def by blast
qed

section \<open>Steps keep the invariant: the server and the network\<close>

lemma pair_inv_server:
  assumes inv: "pair_inv xxh D cid s" and k: "kept D cid (server_end cid s) srv"
    and t: "traffic D cid s \<Longrightarrow> traffic D cid (s\<lparr>sy_srv := srv\<rparr>)"
  shows "pair_inv xxh D cid (s\<lparr>sy_srv := srv\<rparr>)"
proof -
  have ends: "client_end (s\<lparr>sy_srv := srv\<rparr>) = client_end s" "server_end cid (s\<lparr>sy_srv := srv\<rparr>) = the (heap srv cid)"
    by (simp_all add: client_end_def server_end_def)
  have "kept D cid (the (heap srv cid)) srv" "length (sent_bytes (server_end cid s)) \<le> length (sent_bytes (the (heap srv cid)))"
    using k by (auto simp: kept_def sent_bytes_def dest: prefix_length_le)
  with inv t show ?thesis unfolding pair_inv_def ends by auto
qed

lemma kept_end: "pair_inv xxh D cid s \<Longrightarrow>
    server_ok D (sy_srv s) \<and> heap (sy_srv s) cid = Some (server_end cid s) \<and> end_ok (dp_addr D) (server_end cid s)"
  by (auto simp: pair_inv_def kept_def server_end_def)

lemma pair_inv_calls_good:
  "pair_inv xxh D cid s \<Longrightarrow>
   calls_good xxh D (ask_of (sy_cl s) (sy_call s)) (work_session (sy_cl s)) (rpc_slots (sy_cl s))"
  by (rule calls_goodI) (simp_all add: pair_inv_def client_ok_def)

lemma pair_inv_server_run:
  assumes inv: "pair_inv xxh D cid s" and law: "env_istream F = list_istream" "env_xxh F = xxh"
    and good: "good_services xxh D"
    and fs: "fibers (sy_srv s) = xs @ f # ys" and run: "exec F oc f (sy_srv s) = Some (s', fs)"
    and ready: "srv_ready cid (conn_istream (server_end cid s)) (Ev_run f oc)"
  shows "pair_inv xxh D cid (s\<lparr>sy_srv := s'\<lparr>fibers := xs @ fs @ ys\<rparr>\<rparr>)"
proof (rule pair_inv_server [OF inv])
  let ?c = "server_end cid s"
  from kept_end [OF inv] have c: "server_ok D (sy_srv s)" "heap (sy_srv s) cid = Some ?c" "end_ok (dp_addr D) ?c"
    by simp_all
  show "kept D cid ?c (s'\<lparr>fibers := xs @ fs @ ys\<rparr>)"
  proof (cases "fiber_conn f = cid")
    case True
    with run c(2) have "exec_conn F oc f ?c (sy_srv s) = Some (s', fs)" by (auto simp: exec_def)
    from server_kept [OF c this True] show ?thesis by (simp add: kept_def)
  next
    case False
    from run obtain c1 where "exec_conn F oc f c1 (sy_srv s) = Some (s', fs)"
      by (auto simp: exec_def split: option.splits)
    from server_other [OF this False] c show ?thesis by (simp add: kept_def)
  qed
  assume t: "traffic D cid s"
  have dn: "sy_down s \<le> length (wire_bytes (conn_ostream ?c))" using inv by (simp add: pair_inv_def sent_bytes_def)
  let ?M = "mset (gather cl_items (cfibers (sy_cl s))) + mset (gather (sv_items cid) xs) + mset (gather (sv_items cid) ys)"
  have "under_way D (ask_of (sy_cl s) (sy_call s)) (work_session (sy_cl s)) (rpc_slots (sy_cl s))
       (gather cl_reader (cfibers (sy_cl s)))
       (conn_istream (client_end s) @ drop (sy_down s) (wire_bytes (conn_ostream ?c)))
       (gather (sv_reader cid) xs @ sv_reader cid f @ gather (sv_reader cid) ys)
       (conn_istream ?c @ drop (sy_up s) (sent_bytes (client_end s))) (?M + mset (sv_items cid f))"
    using t fs by (simp add: traffic_def sent_bytes_def ac_simps)
  from server_run [OF law c run ready pair_inv_calls_good [OF inv] good dn this]
  show "traffic D cid (s\<lparr>sy_srv := s'\<lparr>fibers := xs @ fs @ ys\<rparr>\<rparr>)"
    by (auto simp: traffic_def client_end_def server_end_def sent_bytes_def ac_simps)
qed

lemma pair_inv_server_same:
  assumes inv: "pair_inv xxh D cid s" and ok: "server_ok D srv"
    and h: "heap srv cid = Some c'" "same_streams (dp_addr D) (server_end cid s) c'"
    and fs: "gather (sv_reader cid) (fibers srv) = gather (sv_reader cid) (fibers (sy_srv s))"
      "gather (sv_items cid) (fibers srv) = gather (sv_items cid) (fibers (sy_srv s))"
  shows "pair_inv xxh D cid (s\<lparr>sy_srv := srv\<rparr>)"
proof (rule pair_inv_server [OF inv])
  show "kept D cid (server_end cid s) srv" using ok h by (auto simp: kept_def same_streams_def)
  have ends: "server_end cid (s\<lparr>sy_srv := srv\<rparr>) = c'" "client_end (s\<lparr>sy_srv := srv\<rparr>) = client_end s"
    by (simp_all add: client_end_def server_end_def h(1))
  assume "traffic D cid s"
  then show "traffic D cid (s\<lparr>sy_srv := srv\<rparr>)"
    using h(2) fs unfolding traffic_def ends by (simp add: same_streams_def sent_bytes_def)
qed

lemma pair_inv_server_step:
  assumes inv: "pair_inv xxh D cid s" and law: "env_istream F = list_istream" "env_xxh F = xxh"
    and good: "good_services xxh D"
    and step: "server_step F (sy_srv s) e srv" "srv_ready cid (conn_istream (server_end cid s)) e"
  shows "pair_inv xxh D cid (s\<lparr>sy_srv := srv\<rparr>)"
proof -
  from kept_end [OF inv] have c: "server_ok D (sy_srv s)" "heap (sy_srv s) cid = Some (server_end cid s)"
    "end_ok (dp_addr D) (server_end cid s)" by simp_all
  have same: "same_streams (dp_addr D) (server_end cid s) (server_end cid s)"
    "same_streams (dp_addr D) (server_end cid s) (socket_do cs (server_end cid s))" for cs
    using c(3) by (simp_all add: same_streams_def)
  from step(1) show ?thesis
  proof cases
    case st_start
    with c show ?thesis
      by (intro pair_inv_server_same [OF inv _ _ same(1)]) (auto simp: start_def server_ok_def Let_def)
  next
    case st_accept_exception
    with c show ?thesis
      by (intro pair_inv_server_same [OF inv _ _ same(1)]) (auto simp: accept_exception_def server_ok_def)
  next
    case st_stop
    with c show ?thesis
      by (intro pair_inv_server_same [OF inv _ _ same(1)]) (auto simp: stop_def server_ok_def)
  next
    case st_stopped
    show ?thesis
    proof (cases "cid \<in> open_connections (sy_srv s)")
      case True
      with st_stopped c show ?thesis
        by (intro pair_inv_server_same [OF inv _ _ same(2)]) (auto simp: stop_continuation_def server_ok_def)
    next
      case False
      with st_stopped c show ?thesis
        by (intro pair_inv_server_same [OF inv _ _ same(1)]) (auto simp: stop_continuation_def server_ok_def)
    qed
  next
    case (st_accept i a)
    then have "connection_idx (sy_srv s) + 1 \<noteq> cid" using c(2) by auto
    with st_accept c show ?thesis
      by (intro pair_inv_server_same [OF inv _ _ same(1)])
         (auto simp: accept_connection_def server_ok_def upd_stats_def Let_def)
  next
    case (st_destroy i c')
    with step(2) c show ?thesis
      by (intro pair_inv_server_same [OF inv _ _ same(1)])
         (auto simp: destroy_connection_def server_ok_def upd_stats_def)
  next
    case (st_run xs f ys oc s' fs)
    with pair_inv_server_run [OF inv law good st_run(3,4)] step(2) show ?thesis by simp
  qed
qed

lemma delivered: "bs = take n (drop k xs) \<Longrightarrow> bs @ drop (k + length bs) xs = drop k xs"
  by (simp add: min_def) (metis append_take_drop_id drop_drop add.commute append.right_neutral
      drop_all le_cases length_drop take_all)

lemma delivered_length: "bs = take n (drop k xs) \<Longrightarrow> k \<le> length xs \<Longrightarrow> k + length bs \<le> length xs"
  by (auto simp: min_def)

lemma pair_inv_up:
  assumes inv: "pair_inv xxh D cid s" and bs: "bs = take n (drop (sy_up s) (wire_bytes (conn_ostream (client_end s))))"
  shows "pair_inv xxh D cid
    (s\<lparr>sy_srv := set_conn cid (feed bs (server_end cid s)) (sy_srv s), sy_up := sy_up s + length bs\<rparr>)"
proof -
  let ?t = "s\<lparr>sy_srv := set_conn cid (feed bs (server_end cid s)) (sy_srv s), sy_up := sy_up s + length bs\<rparr>"
  have ends: "client_end ?t = client_end s" "server_end cid ?t = feed bs (server_end cid s)"
    by (simp_all add: client_end_def server_end_def)
  have "bs @ drop (sy_up s + length bs) (sent_bytes (client_end s)) = drop (sy_up s) (sent_bytes (client_end s))"
    using delivered [OF bs] by (simp add: sent_bytes_def)
  then have "traffic D cid ?t = traffic D cid s" unfolding traffic_def ends by (simp add: sent_bytes_def)
  moreover have "sy_up s + length bs \<le> length (sent_bytes (client_end s))"
    using inv delivered_length [OF bs] by (simp add: pair_inv_def sent_bytes_def)
  moreover have "kept D cid (feed bs (server_end cid s)) (sy_srv ?t)"
    using kept_end [OF inv] by (auto simp: kept_def)
  ultimately show ?thesis using inv unfolding pair_inv_def ends by (simp add: sent_bytes_def)
qed

lemma open_end_frame [simp]:
  "open_end (feed bs c) = open_end c" "open_end (c\<lparr>conn_ostream := os\<rparr>) = open_end c"
  "open_end (c\<lparr>conn_istream := i\<rparr>) = open_end c" "\<not> open_end (disable c)" "\<not> open_end (set_error m c)"
  "open_end (socket_do cs c) = open_end c"
  by (auto simp: open_end_def feed_def socket_do_def disable_def has_error_def set_error_def split: option.splits)

lemma slot_inv_upd_conn [simp]: "slot_inv (upd_conn k f s) = slot_inv s"
  by (simp add: slot_inv_def)

lemma pair_inv_down:
  assumes inv: "pair_inv xxh D cid s" and bs: "bs = take n (drop (sy_down s) (wire_bytes (conn_ostream (server_end cid s))))"
  shows "pair_inv xxh D cid (s\<lparr>sy_cl := upd_conn 0 (feed bs) (sy_cl s), sy_down := sy_down s + length bs\<rparr>)"
proof -
  let ?t = "s\<lparr>sy_cl := upd_conn 0 (feed bs) (sy_cl s), sy_down := sy_down s + length bs\<rparr>"
  from inv obtain c0 tls where c: "connections (sy_cl s) 0 = Some (c0, tls)"
    by (auto simp: pair_inv_def client_ok_def)
  have ends: "client_end ?t = feed bs (client_end s)" "server_end cid ?t = server_end cid s"
    by (simp_all add: client_end_def server_end_def upd_conn_def c)
  have ask: "ask_of (upd_conn 0 (feed bs) (sy_cl s)) = ask_of (sy_cl s)" by (simp add: ask_of_def fun_eq_iff)
  have "bs @ drop (sy_down s + length bs) (sent_bytes (server_end cid s)) = drop (sy_down s) (sent_bytes (server_end cid s))"
    using delivered [OF bs] by (simp add: sent_bytes_def)
  then have "traffic D cid ?t = traffic D cid s" unfolding traffic_def ends by (simp add: sent_bytes_def ask)
  moreover have "sy_down s + length bs \<le> length (sent_bytes (server_end cid s))"
    using inv delivered_length [OF bs] by (simp add: pair_inv_def sent_bytes_def)
  moreover have "client_ok D (sy_cl ?t)" using inv c by (auto simp: pair_inv_def client_ok_def upd_conn_def slot_inv_def)
  moreover have "own_replies D (sy_cl ?t) (sy_call s)"
    using inv by (simp add: pair_inv_def own_replies_def ask)
  ultimately show ?thesis using inv unfolding pair_inv_def ends by (simp add: sent_bytes_def)
qed

section \<open>Steps keep the invariant: the client\<close>

text \<open>
  What a continuation of the client leaves, with what is under way then as a predicate \<open>U\<close> of
  the readers, the input, the output, the slots and the messages in the new fibers.
\<close>

type_synonym way = "header option list \<Rightarrow> bytes \<Rightarrow> bytes \<Rightarrow> (u16 \<times> nat) list \<Rightarrow> item multiset \<Rightarrow> bool"

definition leaves ::
    "deployment \<Rightarrow> (nat \<Rightarrow> rpc_envelope) \<Rightarrow> (bytes, 'sem, 'gate) rpc_client \<Rightarrow> bytes rpc_connection \<Rightarrow> way \<Rightarrow>
     (bytes, 'sem, 'gate) rpc_client \<Rightarrow> cfiber list \<Rightarrow> bool" where
  "leaves D ask s c U t fs \<longleftrightarrow> cli_conn t = Some 0 \<and> cli_out_filters t = dp_client_out D \<and>
     list_all cfiber_ok fs \<and> work_session t = work_session s \<and> next_work t = next_work s \<and> own_replies D t ask \<and>
     (\<exists>c' tls. connections t 0 = Some (c', tls) \<and> end_ok (0, 0) c' \<and>
        prefix (sent_bytes c) (sent_bytes c') \<and> (\<not> open_end c' \<longrightarrow> rpc_slots t = []) \<and>
        (open_end c' \<longrightarrow> U (gather cl_reader fs) (conn_istream c') (sent_bytes c') (rpc_slots t)
           (mset (gather cl_items fs))))"

lemma leavesI:
  assumes "cli_conn t = Some 0" "cli_out_filters t = dp_client_out D" "list_all cfiber_ok fs"
    "work_session t = work_session s" "next_work t = next_work s" "own_replies D t ask"
    "connections t 0 = Some (c', tls)" "end_ok (0, 0) c'" "prefix (sent_bytes c) (sent_bytes c')"
    "\<not> open_end c' \<Longrightarrow> rpc_slots t = []"
    "open_end c' \<Longrightarrow> U (gather cl_reader fs) (conn_istream c') (sent_bytes c') (rpc_slots t)
       (mset (gather cl_items fs))"
  shows "leaves D ask s c U t fs"
  using assms by (auto simp: leaves_def)

lemma conn_valid_open:
  assumes "env_istream E = list_istream" "cli_conn s = Some 0" "connections s 0 = Some (c, tls)"
  shows "is_conn_valid E s = open_end c"
  using assms by (simp add: is_conn_valid_def is_valid_def open_end_def list_istream_def)

lemma connections_upd_conn [simp]:
  "connections (upd_conn k f s) j = (if j = k then map_option (\<lambda>(c, tls). (f c, tls)) (connections s k)
     else connections s j)"
  by (simp add: upd_conn_def)

lemma own_replies_mono:
  assumes "own_replies D s ask" "work_session t = work_session s"
    and "\<And>w ctx. promises t w = Fulfilled (Some ctx) \<Longrightarrow> promises s w = Fulfilled (Some ctx)"
  shows "own_replies D t ask"
  using assms by (simp add: own_replies_def ask_of_def)

text \<open>The connection has failed: the slots are empty and nothing more is fulfilled.\<close>

definition failed_to ::
    "deployment \<Rightarrow> (nat \<Rightarrow> rpc_envelope) \<Rightarrow> (bytes, 'sem, 'gate) rpc_client \<Rightarrow> bytes rpc_connection \<Rightarrow>
     (bytes, 'sem, 'gate) rpc_client \<Rightarrow> bool" where
  "failed_to D ask s c t \<longleftrightarrow> cli_conn t = Some 0 \<and> cli_out_filters t = dp_client_out D \<and>
     work_session t = work_session s \<and> next_work t = next_work s \<and> own_replies D t ask \<and> rpc_slots t = [] \<and>
     (\<exists>c' tls. connections t 0 = Some (c', tls) \<and> end_ok (0, 0) c' \<and> \<not> open_end c' \<and>
        prefix (sent_bytes c) (sent_bytes c'))"

lemma leaves_failed: "failed_to D ask s c t \<Longrightarrow> list_all cfiber_ok fs \<Longrightarrow> leaves D ask s c U t fs"
  by (auto simp: failed_to_def leaves_def)

lemma failed_fail:
  assumes E: "env_istream E = list_istream"
    and t: "cli_conn t = Some 0" "cli_out_filters t = dp_client_out D" "work_session t = work_session s"
      "next_work t = next_work s" "own_replies D t ask" "connections t 0 = Some (c', tls)"
      "end_ok (0, 0) c'" "prefix (sent_bytes c) (sent_bytes c')"
  shows "failed_to D ask s c (fail_outstanding_futures E t)"
proof -
  have o: "own_replies D (fail_outstanding_futures E t) ask"
    by (rule own_replies_mono [OF t(5)]) (auto simp: fail_slots_apply split: if_splits)
  have f: "cli_out_filters (fail_outstanding_futures E t) = cli_out_filters t"
    by (simp add: fail_outstanding_futures_def upd_conn_def Let_def)
  show ?thesis
  proof (cases "open_end c'")
    case True
    then have "connections (fail_outstanding_futures E t) 0 =
        Some (socket_do [Shutdown_input, Shutdown_output] (disable c'), tls)"
      using t(1,6) conn_valid_open [OF E t(1,6)] by (simp add: fail_outstanding_futures_def)
    with t o f show ?thesis by (auto simp: failed_to_def sent_bytes_def)
  next
    case False
    then have "connections (fail_outstanding_futures E t) 0 = Some (c', tls)"
      using t(6) conn_valid_open [OF E t(1,6)] by (simp add: fail_outstanding_futures_def)
    with False t o f show ?thesis by (auto simp: failed_to_def)
  qed
qed

lemma failed_leave_gate: "failed_to D ask s c t \<Longrightarrow> failed_to D ask s c (leave_gate E t)"
  by (auto simp: failed_to_def leave_gate_def own_replies_def ask_of_def)

text \<open>The premises shared by the continuations of the client.\<close>

definition at_work ::
    "(bytes, 'sem, 'gate) seastar_env \<Rightarrow> deployment \<Rightarrow> (nat \<Rightarrow> rpc_envelope) \<Rightarrow> (bytes, 'sem, 'gate) rpc_client \<Rightarrow>
     bytes rpc_connection \<Rightarrow> bool" where
  "at_work E D ask s c \<longleftrightarrow> env_istream E = list_istream \<and> cli_conn s = Some 0 \<and>
     cli_out_filters s = dp_client_out D \<and> own_replies D s ask \<and> end_ok (0, 0) c \<and>
     (\<exists>tls. connections s 0 = Some (c, tls)) \<and> (\<not> open_end c \<longrightarrow> rpc_slots s = [])"

lemma at_work_failed:
  assumes "at_work E D ask s c"
  shows "failed_to D ask s c (fail_outstanding_futures E s)"
    "failed_to D ask s c (leave_gate E (fail_outstanding_futures E s))"
    "(\<And>c. end_ok (0, 0) (f c) = end_ok (0, 0) c) \<Longrightarrow> (\<And>c. sent_bytes (f c) = sent_bytes c) \<Longrightarrow>
      failed_to D ask s c (fail_outstanding_futures E (upd_conn 0 f s))"
proof -
  from assms obtain tls where w: "env_istream E = list_istream" "cli_conn s = Some 0"
    "cli_out_filters s = dp_client_out D" "own_replies D s ask" "end_ok (0, 0) c" "connections s 0 = Some (c, tls)"
    by (auto simp: at_work_def)
  show f: "failed_to D ask s c (fail_outstanding_futures E s)"
    using failed_fail [OF w(1-3) refl refl w(4,6,5)] by simp
  show "failed_to D ask s c (leave_gate E (fail_outstanding_futures E s))" by (rule failed_leave_gate [OF f])
  have "own_replies D (upd_conn 0 f s) ask" by (rule own_replies_mono [OF w(4)]) simp_all
  then show "failed_to D ask s c (fail_outstanding_futures E (upd_conn 0 f s))"
    if "\<And>c. end_ok (0, 0) (f c) = end_ok (0, 0) c" "\<And>c. sent_bytes (f c) = sent_bytes c"
    using w that by (intro failed_fail [where c' = "f c" and tls = tls]) (auto simp: upd_conn_def)
qed

lemma leaves_same:
  assumes a: "at_work E D ask s c"
    and t: "cli_conn t = cli_conn s" "cli_out_filters t = cli_out_filters s" "work_session t = work_session s"
      "next_work t = next_work s" "promises t = promises s" "connections t = connections s" "rpc_slots t = rpc_slots s"
    and fs: "list_all cfiber_ok fs"
    and u: "open_end c \<Longrightarrow> U (gather cl_reader fs) (conn_istream c) (sent_bytes c) (rpc_slots s) (mset (gather cl_items fs))"
  shows "leaves D ask s c U t fs"
proof -
  have "own_replies D t ask" using a t by (auto simp: at_work_def intro: own_replies_mono)
  with a t fs u show ?thesis by (auto simp: at_work_def leaves_def)
qed

lemma reads_exception_leaves:
  "at_work E D ask s c \<Longrightarrow> reads_exception E True s = (t, fs) \<Longrightarrow> leaves D ask s c U t fs"
  using at_work_failed(2) [of E D ask s c] by (auto simp: reads_exception_def intro!: leaves_failed)

lemma reply_error_leaves:
  assumes "at_work E D ask s c" "reply_error E 0 True m s = (t, fs)"
  shows "leaves D ask s c U t fs"
  using at_work_failed(3) [OF assms(1), of "set_error m"] assms(2)
  by (auto simp: reply_error_def next_read_def sent_bytes_def intro!: leaves_failed)

text \<open>A changed connection, for the continuations that first read from it.\<close>

lemma at_work_upd:
  assumes "at_work E D ask s c" "end_ok (0, 0) c'" "open_end c' = open_end c"
  shows "at_work E D ask (upd_conn 0 (\<lambda>_. c') s) c'"
  using assms by (auto simp: at_work_def upd_conn_def own_replies_def ask_of_def)

lemma leaves_upd:
  assumes "leaves D ask (upd_conn 0 f s) c' U t fs" "sent_bytes c' = sent_bytes c"
  shows "leaves D ask s c U t fs"
  using assms by (simp add: leaves_def)

text \<open>The reading fibers of the client, once the connection has failed.\<close>

lemma failed_reader:
  assumes "at_work E D ask s c" "\<not> open_end c"
    and "reads_exception E True s = (t, fs) \<or> (\<exists>m. reply_error E 0 True m s = (t, fs)) \<or>
      (\<exists>h. (t, fs) = (s, [Reply_payload 0 h True]))"
  shows "leaves D ask s c U t fs"
  using assms(3)
proof (elim disjE exE)
  assume "reads_exception E True s = (t, fs)"
  then show ?thesis by (rule reads_exception_leaves [OF assms(1)])
next
  fix m assume "reply_error E 0 True m s = (t, fs)"
  then show ?thesis by (rule reply_error_leaves [OF assms(1)])
next
  fix h assume "(t, fs) = (s, [Reply_payload 0 h True])"
  then show ?thesis using assms(2) by (intro leaves_same [OF assms(1)]) simp_all
qed

lemma failed_header:
  assumes a: "at_work E D ask s c" "\<not> open_end c" and run: "reply_header E Proceed 0 True c s = (t, fs)"
  shows "leaves D ask s c U t fs"
proof -
  have ok: "end_ok (0, 0) c" using a by (simp add: at_work_def)
  obtain r c1 where p: "parse_header (env_dbg E) (env_istream E) c = (r, c1)" by fastforce
  note fr = parse_header_frame [OF p ok]
  have oe: "open_end c1 = open_end c"
    using p by (auto simp: parse_header_def open_end_def has_error_def Let_def split: prod.splits if_splits)
  have a1: "at_work E D ask (upd_conn 0 (\<lambda>_. c1) s) c1" by (rule at_work_upd [OF a(1) _ oe]) (use fr in simp)
  have "leaves D ask (upd_conn 0 (\<lambda>_. c1) s) c1 U t fs"
    by (rule failed_reader [OF a1])
       (use a(2) oe run p in \<open>auto simp: reply_header_def split: sum.splits option.splits\<close>)
  then show ?thesis by (rule leaves_upd) (use fr in \<open>simp add: sent_bytes_def\<close>)
qed

lemma failed_payload:
  assumes a: "at_work E D ask s c" "\<not> open_end c" and run: "reply_payload E Proceed 0 h True c s = (t, fs)"
  shows "leaves D ask s c U t fs"
proof -
  have ok: "end_ok (0, 0) c" and slots: "rpc_slots s = []" using a by (simp_all add: at_work_def)
  obtain r c1 where p: "parse_payload (env_dbg E) (env_istream E) (env_xxh E) c h = (r, c1)" by fastforce
  note fr = parse_payload_frame [OF p ok]
  have oe: "open_end c1 = open_end c"
    using p by (auto simp: parse_payload_def open_end_def has_error_def Let_def split: prod.splits)
  have a1: "at_work E D ask (upd_conn 0 (\<lambda>_. c1) s) c1" by (rule at_work_upd [OF a(1) _ oe]) (use fr in simp)
  have "leaves D ask (upd_conn 0 (\<lambda>_. c1) s) c1 U t fs"
    by (rule failed_reader [OF a1])
       (use a(2) oe run p slots in \<open>auto simp: reply_payload_def process_reply_def
          split: sum.splits option.splits if_splits\<close>)
  then show ?thesis by (rule leaves_upd) (use fr in \<open>simp add: sent_bytes_def\<close>)
qed

text \<open>The reading fibers of a client whose connection is in order.\<close>

lemma client_header:
  assumes a: "at_work E D ask s c" "open_end c" and E: "env_xxh E = xxh"
    and run: "reply_header E Proceed 0 True c s = (t, fs)" and ready: "kHeaderSize \<le> length (conn_istream c)"
    and good: "calls_good xxh D (ask_of s ask) (work_session s) (rpc_slots s)" "good_services xxh D"
    and u: "under_way D (ask_of s ask) (work_session s) (rpc_slots s) [None]
      (conn_istream c @ rest) srs (sist @ drop up (sent_bytes c)) M"
  shows "leaves D ask s c (\<lambda>rs ist sent slots N. under_way D (ask_of s ask) (work_session s) slots rs
      (ist @ rest) srs (sist @ drop up sent) (M + N)) t fs"
proof -
  have ok: "end_ok (0, 0) c" and ist: "env_istream E = list_istream" using a by (simp_all add: at_work_def)
  from header_down [OF u good ready] obtain e bs where e:
    "conn_istream c = header_bytes (env_header e) @ bs" "sendable xxh e"
    "under_way D (ask_of s ask) (work_session s) (rpc_slots s) [Some (normalise_compression (env_header e))]
      (bs @ rest) srs (sist @ drop up (sent_bytes c)) M" by blast
  have "conn_istream_active_parser c = 0" using ok by (simp add: end_ok_def)
  from run header_read [OF e(1) this e(2)] ist
  have t: "t = upd_conn 0 (\<lambda>_. c\<lparr>conn_istream := bs\<rparr>) s"
    "fs = [Reply_payload 0 (normalise_compression (env_header e)) True]"
    by (auto simp: reply_header_def)
  have a': "at_work E D ask t (c\<lparr>conn_istream := bs\<rparr>)"
    unfolding t(1) by (rule at_work_upd [OF a(1)]) (use ok in simp_all)
  have "leaves D ask t (c\<lparr>conn_istream := bs\<rparr>) (\<lambda>rs ist sent slots N. under_way D (ask_of s ask)
      (work_session s) slots rs (ist @ rest) srs (sist @ drop up sent) (M + N)) t fs"
    by (rule leaves_same [OF a' refl refl refl refl refl refl refl])
       (use e(3) in \<open>simp_all add: t sent_bytes_def\<close>)
  then show ?thesis unfolding t(1) by (rule leaves_upd) (simp add: sent_bytes_def)
qed

lemma client_payload:
  assumes a: "at_work E D ask s c" "open_end c" and E: "env_xxh E = xxh"
    and run: "reply_payload E Proceed 0 h True c s = (t, fs)" and ready: "unat (hdr_size h) \<le> length (conn_istream c)"
    and good: "calls_good xxh D (ask_of s ask) (work_session s) (rpc_slots s)" "good_services xxh D"
    and u: "under_way D (ask_of s ask) (work_session s) (rpc_slots s) [Some h]
      (conn_istream c @ rest) srs (sist @ drop up (sent_bytes c)) M"
  shows "leaves D ask s c (\<lambda>rs ist sent slots N. under_way D (ask_of s ask) (work_session s) slots rs
      (ist @ rest) srs (sist @ drop up sent) (M + N)) t fs"
proof -
  have ok: "end_ok (0, 0) c" and ist: "env_istream E = list_istream" using a by (simp_all add: at_work_def)
  from payload_down [OF u good ready] obtain r bs w where r:
    "conn_istream c = env_body r @ bs" "sendable xxh r" "h = normalise_compression (env_header r)"
    "stage D (ask_of s ask w) (Replied r)" "map_of (rpc_slots s) (work_session s w) = Some w"
    "hdr_session (env_header r) = work_session s w"
    "under_way D (ask_of s ask) (work_session s) (AList.delete (work_session s w) (rpc_slots s)) [None]
      (bs @ rest) srs (sist @ drop up (sent_bytes c)) M" by blast
  let ?c = "c\<lparr>conn_istream := bs\<rparr>" and ?s = "upd_conn 0 (\<lambda>_. c\<lparr>conn_istream := bs\<rparr>) s"
  have "conn_limits c = Some 0" "conn_remote_address c = (0, 0)" using ok by (simp_all add: end_ok_def)
  from run payload_read [OF r(1,2) this] ist E r(3)
  have p: "process_reply E 0 True (Some (arrived (0, 0) r)) ?s = (t, fs)" by (auto simp: reply_payload_def)
  have a': "at_work E D ask ?s ?c" by (rule at_work_upd [OF a(1)]) (use ok in simp_all)
  have "leaves D ask ?s ?c (\<lambda>rs ist sent slots N. under_way D (ask_of s ask)
      (work_session s) slots rs (ist @ rest) srs (sist @ drop up sent) (M + N)) t fs"
  proof (cases "env_dbg E \<and> read_counter s \<le> 0")
    case True
    with p have "reads_exception E True ?s = (t, fs)" by (simp add: process_reply_def)
    then show ?thesis by (rule reads_exception_leaves [OF a'])
  next
    case False
    with p r(5,6) have t: "t = ?s\<lparr>read_counter := read_counter s - 1,
        promises := (promises s)(w := Fulfilled (Some (arrived (0, 0) r))),
        rpc_slots := AList.delete (work_session s w) (rpc_slots s)\<rparr>" "fs = [Reads]"
      by (auto simp: process_reply_def next_read_def)
    have "own_replies D t ask"
      using a' r(4) by (auto simp: t own_replies_def at_work_def ask_of_def own_reply_def)
    with a' a(2) r(7) show ?thesis by (auto simp: at_work_def leaves_def t sent_bytes_def)
  qed
  then show ?thesis by (rule leaves_upd) (simp add: sent_bytes_def)
qed

text \<open>The write of a message.\<close>

lemma client_write:
  assumes a: "at_work E D ask s c"
    and good: "calls_good xxh D (ask_of s ask) (work_session s) (rpc_slots s)"
    and up: "up \<le> length (sent_bytes c)"
    and u: "open_end c \<Longrightarrow> under_way D (ask_of s ask) (work_session s) (rpc_slots s) crs (conn_istream c @ rest)
      srs (sist @ drop up (sent_bytes c)) (add_mset (Sent e) M)"
  shows "leaves D ask s c (\<lambda>rs ist sent slots N. under_way D (ask_of s ask) (work_session s) slots (crs @ rs)
      (ist @ rest) srs (sist @ drop up sent) (M + N)) (write_send E oc e n s) []"
proof -
  from a obtain tls where w: "cli_conn s = Some 0" "connections s 0 = Some (c, tls)" by (auto simp: at_work_def)
  have wrote: "leaves D ask s c U t [] \<Longrightarrow> leaves D ask s c U (write_done E n t) []" for U t
    by (auto simp: leaves_def write_done_def leave_gate_def own_replies_def ask_of_def)
  have unsent: "leaves D ask s c (\<lambda>rs ist sent slots N. under_way D (ask_of s ask) (work_session s) slots (crs @ rs)
      (ist @ rest) srs (sist @ drop up sent) (M + N)) s []"
    by (rule leaves_same [OF a]) (use under_way_drop [OF u] in simp_all)
  show ?thesis
  proof (cases "rpc_envelope_send (env_dbg E) (conn_ostream c) e")
    case (Inl ex)
    with w have "write_send E oc e n s = write_done E n s" by (simp add: write_send_def)
    then show ?thesis using wrote [OF unsent] by (simp only:)
  next
    case (Inr os)
    then have os: "wire_bytes os = sent_bytes c @ frame e"
      by (auto simp: rpc_envelope_send_def frame_def sent_bytes_def split: if_splits)
    show ?thesis
    proof (cases oc)
      case (Fail ex)
      with w Inr leaves_failed [OF at_work_failed(1) [OF a], of "[]"] show ?thesis
        by (auto simp: write_send_def intro: wrote)
    next
      case Proceed
      let ?t = "upd_conn 0 (\<lambda>c. c\<lparr>conn_ostream := os\<rparr>) s"
      have sent: "sent_bytes (c\<lparr>conn_ostream := os\<rparr>) = sent_bytes c @ frame e" by (simp add: sent_bytes_def [of "c\<lparr>conn_ostream := os\<rparr>"] os)
      have "own_replies D ?t ask" using a by (auto simp: at_work_def intro: own_replies_mono)
      moreover have "under_way D (ask_of s ask) (work_session s) (rpc_slots s) crs (conn_istream c @ rest)
          srs (sist @ drop up (sent_bytes c @ frame e)) M" if "open_end c"
        using under_way_write_up [OF u [OF that]] up by simp
      ultimately have "leaves D ask s c (\<lambda>rs ist sent slots N. under_way D (ask_of s ask) (work_session s) slots
          (crs @ rs) (ist @ rest) srs (sist @ drop up sent) (M + N)) ?t []"
        using a w by (intro leavesI [where c' = "c\<lparr>conn_ostream := os\<rparr>" and tls = tls])
          (auto simp: at_work_def upd_conn_def sent)
      then show ?thesis using w Inr Proceed by (auto simp: write_send_def intro: wrote)
    qed
  qed
qed

text \<open>The filters of a call that is sent.\<close>

lemma client_outgoing:
  assumes a: "at_work E D ask s c" and run: "call_outgoing E v m e s = (t, fs)"
    and u: "open_end c \<Longrightarrow> under_way D (ask_of s ask) (work_session s) (rpc_slots s) crs
      (conn_istream c @ rest) srs (sist @ drop up (sent_bytes c)) (add_mset (Asked e) M)"
  shows "leaves D ask s c (\<lambda>rs ist sent slots N. under_way D (ask_of s ask) (work_session s) slots (crs @ rs)
      (ist @ rest) srs (sist @ drop up sent) (M + N)) t fs"
proof -
  have w: "cli_out_filters s = dp_client_out D" using a by (simp add: at_work_def)
  from run w consider (filter) ex where "t = finish_call E v m (Inl ex) s" "fs = []"
    | (gated) "t = s" "fs = [Await v m]"
    | (wrt) e' g where "rpc_filter_apply (dp_client_out D) e = Inr e'" "t = s\<lparr>dispatch_gate := g\<rparr>"
        "fs = [Write_wait e', Await v m]"
    by (auto simp: call_outgoing_def dispatch_write_def split: sum.splits option.splits)
  then show ?thesis
  proof cases
    case filter
    show ?thesis unfolding filter
      by (rule leaves_same [OF a]) (use under_way_drop [OF u] in \<open>simp_all add: finish_call_def leave_gate_def\<close>)
  next
    case gated
    show ?thesis unfolding gated by (rule leaves_same [OF a]) (use under_way_drop [OF u] in simp_all)
  next
    case wrt
    have "under_way D (ask_of s ask) (work_session s) (rpc_slots s) crs (conn_istream c @ rest) srs
        (sist @ drop up (sent_bytes c)) (add_mset (Sent e') M)" if "open_end c"
      by (rule under_way_move [OF u [OF that], of "Sent e'"]) (use wrt(1) in auto)
    then show ?thesis unfolding wrt(2,3) by (intro leaves_same [OF a]) simp_all
  qed
qed

text \<open>One continuation of the client, with the fibers around it.\<close>

lemma client_run:
  assumes a: "at_work E D ask s c" and E: "env_xxh E = xxh" and f: "cfiber_ok f"
    and run: "exec_cfiber E oc i f s = Some (t, fs)" and ready: "cli_ready (conn_istream c) (Ev_cli_run f oc i)"
    and good: "calls_good xxh D (ask_of s ask) (work_session s) (rpc_slots s)" "good_services xxh D"
    and up: "up \<le> length (sent_bytes c)"
    and u: "open_end c \<Longrightarrow> under_way D (ask_of s ask) (work_session s) (rpc_slots s) (A @ cl_reader f @ B)
      (conn_istream c @ rest) srs (sist @ drop up (sent_bytes c)) (M + mset (cl_items f))"
  shows "leaves D ask s c (\<lambda>rs ist sent slots N. under_way D (ask_of s ask) (work_session s) slots (A @ rs @ B)
      (ist @ rest) srs (sist @ drop up sent) (M + N)) t fs"
proof -
  from a obtain tls where w: "cli_conn s = Some 0" "connections s 0 = Some (c, tls)"
    "env_istream E = list_istream" by (auto simp: at_work_def)
  have single: "A = [] \<and> B = []" if "open_end c" "cl_reader f = [x]" for x
    using one_reader_down [of D "ask_of s ask" "work_session s" "rpc_slots s" A x B] u [OF that(1)] that(2) by simp
  show ?thesis
  proof (cases f)
    case (Out_filters v m e)
    have "leaves D ask s c (\<lambda>rs ist sent slots N. under_way D (ask_of s ask) (work_session s) slots ((A @ B) @ rs)
      (ist @ rest) srs (sist @ drop up sent) (M + N)) t fs"
      by (rule client_outgoing [OF a]) (use Out_filters run u in auto)
    moreover have "gather cl_reader fs = []"
      using Out_filters run by (auto simp: call_outgoing_def dispatch_write_def split: sum.splits option.splits)
    ultimately show ?thesis by (simp add: leaves_def del: concat_eq_Nil_conv)
  next
    case (Write_turn e n)
    with run have t: "t = write_send E oc e n s" "fs = []" by simp_all
    have "open_end c \<Longrightarrow> under_way D (ask_of s ask) (work_session s) (rpc_slots s) (A @ B) (conn_istream c @ rest) srs
        (sist @ drop up (sent_bytes c)) (add_mset (Sent e) M)" using u Write_turn by simp
    from client_write [OF a good(1) up this] show ?thesis by (simp add: t leaves_def)
  next
    case (Reply_header k b)
    with run f w have r: "reply_header E oc 0 True c s = (t, fs)" by auto
    consider ex where "oc = Fail ex" | "oc = Proceed" "open_end c" | "oc = Proceed" "\<not> open_end c"
      by (cases oc) auto
    then show ?thesis
    proof cases
      case 1
      with r show ?thesis by (intro reads_exception_leaves [OF a]) (simp add: reply_header_def)
    next
      case 2
      with single Reply_header have "A = []" "B = []" by simp_all
      with client_header [OF a 2(2) E r [unfolded 2(1)] _ good, of rest srs sist up M] u [OF 2(2)] ready
        Reply_header 2 show ?thesis by simp
    next
      case 3
      with r failed_header [OF a 3(2)] show ?thesis by simp
    qed
  next
    case (Reply_payload k h b)
    with run f w have r: "reply_payload E oc 0 h True c s = (t, fs)" by auto
    consider ex where "oc = Fail ex" | "oc = Proceed" "open_end c" | "oc = Proceed" "\<not> open_end c"
      by (cases oc) auto
    then show ?thesis
    proof cases
      case 1
      with r show ?thesis by (intro reads_exception_leaves [OF a]) (simp add: reply_payload_def)
    next
      case 2
      with single Reply_payload have "A = []" "B = []" by simp_all
      with client_payload [OF a 2(2) E r [unfolded 2(1)] _ good, of rest srs sist up M] u [OF 2(2)] ready
        Reply_payload 2 show ?thesis by simp
    next
      case 3
      with r failed_payload [OF a 3(2)] show ?thesis by simp
    qed
  qed (use f run u conn_valid_open [OF w(3,1,2)] w(1) a in
    \<open>auto simp: call_await_def call_incoming_def write_memory_def reads_loop_def Let_def finish_call_def leave_gate_def
       intro!: leaves_same split: promise.splits option.splits sum.splits if_splits\<close>)
qed

text \<open>The steps of the client.\<close>

lemma pair_inv_client:
  assumes inv: "pair_inv xxh D cid s" and ok: "client_ok D cl" "connections cl 0 = Some (c, tls)"
    and good: "\<forall>w < next_work cl. good_call xxh D (ask w)" and own: "own_replies D cl ask"
    and more: "prefix (sent_bytes (client_end s)) (sent_bytes c)"
    and t: "open_end c \<Longrightarrow> traffic D cid (s\<lparr>sy_cl := cl, sy_call := ask\<rparr>)"
  shows "pair_inv xxh D cid (s\<lparr>sy_cl := cl, sy_call := ask\<rparr>)"
proof -
  have ends: "client_end (s\<lparr>sy_cl := cl, sy_call := ask\<rparr>) = c"
    "server_end cid (s\<lparr>sy_cl := cl, sy_call := ask\<rparr>) = server_end cid s"
    by (simp_all add: client_end_def server_end_def ok(2))
  from more have "length (sent_bytes (client_end s)) \<le> length (sent_bytes c)" by (rule prefix_length_le)
  with inv ok good own t show ?thesis unfolding pair_inv_def ends by auto
qed

lemma pair_inv_at_work:
  assumes "pair_inv xxh D cid s" "env_istream E = list_istream"
  shows "at_work E D (sy_call s) (sy_cl s) (client_end s)" "slot_inv (sy_cl s)"
    "\<exists>tls. connections (sy_cl s) 0 = Some (client_end s, tls)"
  using assms by (auto simp: pair_inv_def client_ok_def at_work_def client_end_def)

lemma slot_inv_step: "client_step E s e t \<Longrightarrow> slot_inv s \<Longrightarrow> slot_inv t"
  using slot_step_step unfolding slot_step_def by blast

lemma leaves_client_ok:
  assumes "leaves D ask s c U t fs" "slot_inv t" "list_all cfiber_ok xs" "list_all cfiber_ok ys"
  shows "client_ok D (t\<lparr>cfibers := xs @ fs @ ys\<rparr>)"
  using assms by (auto simp: leaves_def client_ok_def slot_inv_def)

lemma pair_inv_client_run:
  assumes inv: "pair_inv xxh D cid s" and law: "env_istream E = list_istream" "env_xxh E = xxh"
    and good: "good_services xxh D"
    and fs: "cfibers (sy_cl s) = xs @ f # ys" and run: "exec_cfiber E oc i f (sy_cl s) = Some (t, fs)"
    and ready: "cli_ready (conn_istream (client_end s)) (Ev_cli_run f oc i)"
  shows "pair_inv xxh D cid (s\<lparr>sy_cl := t\<lparr>cfibers := xs @ fs @ ys\<rparr>, sy_call := sy_call s\<rparr>)"
proof -
  let ?cl = "t\<lparr>cfibers := xs @ fs @ ys\<rparr>"
  note work = pair_inv_at_work [OF inv law(1)]
  have ok: "list_all cfiber_ok xs" "cfiber_ok f" "list_all cfiber_ok ys"
    using inv fs by (auto simp: pair_inv_def client_ok_def)
  have up: "sy_up s \<le> length (sent_bytes (client_end s))" using inv by (simp add: pair_inv_def)
  let ?M = "mset (gather cl_items xs) + mset (gather cl_items ys) + mset (gather (sv_items cid) (fibers (sy_srv s)))"
  have u: "under_way D (ask_of (sy_cl s) (sy_call s)) (work_session (sy_cl s)) (rpc_slots (sy_cl s))
       (gather cl_reader xs @ cl_reader f @ gather cl_reader ys)
       (conn_istream (client_end s) @ drop (sy_down s) (sent_bytes (server_end cid s)))
       (gather (sv_reader cid) (fibers (sy_srv s)))
       (conn_istream (server_end cid s) @ drop (sy_up s) (sent_bytes (client_end s))) (?M + mset (cl_items f))"
    if "open_end (client_end s)"
    using inv that fs by (simp add: pair_inv_def traffic_def ac_simps)
  note l = client_run [OF work(1) law(2) ok(2) run ready pair_inv_calls_good [OF inv] good up u]
  from slot_inv_step [OF cl_run [OF fs run] work(2)] have "slot_inv t" by (simp add: slot_inv_def)
  from leaves_client_ok [OF l this ok(1,3)] have cok: "client_ok D ?cl" .
  from l obtain c' tls where c': "connections t 0 = Some (c', tls)" "prefix (sent_bytes (client_end s)) (sent_bytes c')"
    "work_session t = work_session (sy_cl s)" "next_work t = next_work (sy_cl s)" "own_replies D t (sy_call s)"
    "open_end c' \<Longrightarrow> under_way D (ask_of (sy_cl s) (sy_call s)) (work_session (sy_cl s)) (rpc_slots t)
       (gather cl_reader xs @ gather cl_reader fs @ gather cl_reader ys)
       (conn_istream c' @ drop (sy_down s) (sent_bytes (server_end cid s)))
       (gather (sv_reader cid) (fibers (sy_srv s)))
       (conn_istream (server_end cid s) @ drop (sy_up s) (sent_bytes c')) (?M + mset (gather cl_items fs))"
    by (auto simp: leaves_def)
  have ask: "ask_of ?cl (sy_call s) = ask_of (sy_cl s) (sy_call s)" by (simp add: ask_of_def c'(3) fun_eq_iff)
  show ?thesis
  proof (rule pair_inv_client [OF inv cok])
    show "own_replies D ?cl (sy_call s)" using c'(5) by (simp add: own_replies_def ask_of_def)
    show "traffic D cid (s\<lparr>sy_cl := ?cl, sy_call := sy_call s\<rparr>)" if "open_end c'"
      using c'(6) [OF that] c'(1,3) ask by (simp add: traffic_def client_end_def server_end_def ac_simps)
  qed (use c' inv in \<open>simp_all add: pair_inv_def\<close>)
qed

lemma pair_inv_client_stop:
  assumes inv: "pair_inv xxh D cid s" and law: "env_istream E = list_istream"
  shows "pair_inv xxh D cid (s\<lparr>sy_cl := cli_stop E (sy_cl s), sy_call := sy_call s\<rparr>)"
proof -
  let ?cl = "cli_stop E (sy_cl s)"
  note work = pair_inv_at_work [OF inv law]
  from at_work_failed(1) [OF work(1)] obtain c' tls where
    f: "failed_to D (sy_call s) (sy_cl s) (client_end s) (fail_outstanding_futures E (sy_cl s))"
      "connections (fail_outstanding_futures E (sy_cl s)) 0 = Some (c', tls)"
      "\<not> open_end c'" "prefix (sent_bytes (client_end s)) (sent_bytes c')"
    by (auto simp: failed_to_def)
  have "list_all cfiber_ok (cfibers (sy_cl s))" using inv by (simp add: pair_inv_def client_ok_def)
  with f slot_inv_step [OF cl_stop work(2)] have ok: "client_ok D ?cl"
    by (auto simp: client_ok_def failed_to_def cli_stop_def Let_def)
  show ?thesis
  proof (rule pair_inv_client [OF inv ok])
    show "own_replies D ?cl (sy_call s)"
      using f(1) by (simp add: failed_to_def own_replies_def ask_of_def cli_stop_def Let_def)
    show "\<forall>w < next_work ?cl. good_call xxh D (sy_call s w)"
      using inv f(1) by (simp add: pair_inv_def failed_to_def cli_stop_def Let_def)
  qed (use f in \<open>auto simp: cli_stop_def Let_def\<close>)
qed

text \<open>A call: refused, or given a session that no call in the slots has.\<close>

lemma send_cases:
  assumes "env_dbg E"
  obtains (refused) g rs si rc where
      "send E e s = s\<lparr>dispatch_gate := g, results := rs, session_idx := si, read_counter := rc, next_work := Suc (next_work s)\<rparr>"
    | (taken) g si rc where "is_conn_valid E s" "map_of (rpc_slots s) si = None"
      "send E e s = s\<lparr>dispatch_gate := g, session_idx := si, read_counter := rc, next_work := Suc (next_work s),
         work_session := (work_session s)(next_work s := si), rpc_slots := (si, next_work s) # rpc_slots s,
         cfibers := cfibers s @ [Out_filters (next_work s) (hist s) (mutate_session si e)]\<rparr>"
proof (cases "gate_enter E (dispatch_gate s)")
  case None
  then show ?thesis
    by (intro refused [where g = "dispatch_gate s" and si = "session_idx s" and rc = "read_counter s"]) (simp add: send_def)
next
  case (Some g)
  let ?si = "session_idx s + 1"
  have v: "is_conn_valid E (s\<lparr>dispatch_gate := g\<rparr>) = is_conn_valid E s"
    by (simp add: is_conn_valid_def split: option.split)
  consider "\<not> is_conn_valid E s" | "is_conn_valid E s" "map_of (rpc_slots s) ?si \<noteq> None"
    | "is_conn_valid E s" "map_of (rpc_slots s) ?si = None" by blast
  then show ?thesis
  proof cases
    case 1
    with Some v show ?thesis
      by (intro refused [where g = "gate_leave E g" and si = "session_idx s" and rc = "read_counter s"
          and rs = "(results s)(next_work s \<mapsto> Inl Invalid_connection_state)"])
         (simp add: send_def raw_send_def finish_call_def leave_gate_def Let_def)
  next
    case 2
    with Some v assms show ?thesis
      by (intro refused [where g = "gate_leave E g" and si = ?si and rc = "read_counter s + 1"
          and rs = "(results s)(next_work s \<mapsto> Inl (Runtime_error ''RPC slot already allocated''))"])
         (auto simp: send_def raw_send_def finish_call_def leave_gate_def Let_def)
  next
    case 3
    with Some v show ?thesis
      by (intro taken [where si = ?si and g = g and rc = "read_counter s + 1"]) (simp_all add: send_def raw_send_def Let_def)
  qed
qed

lemma own_replies_send:
  assumes own: "own_replies D s ask" and inv: "slot_inv s"
    and t: "promises t = promises s" "\<And>w. w < next_work s \<Longrightarrow> work_session t w = work_session s w"
  shows "own_replies D t (ask(next_work s := e))"
  unfolding own_replies_def
proof (intro allI impI)
  fix w ctx assume p: "promises t w = Fulfilled (Some ctx)"
  with inv t(1) have "w < next_work s" by (metis linorder_not_less promise.distinct(1) slot_inv_def)
  with own p t show "own_reply D (ask_of t (ask(next_work s := e)) w) ctx"
    by (auto simp: own_replies_def ask_of_def)
qed

lemma under_way_send:
  assumes "under_way D ask sess slots crs cbs srs sbs M" "map_of slots sg = None"
    and "\<And>v. map_of slots (sess v) = Some v \<Longrightarrow> v < w"
  shows "under_way D (ask(w := e)) (sess(w := sg)) ((sg, w) # slots) crs cbs srs sbs (add_mset (Asked e) M)"
  using assms(1)
proof (rule under_wayE)
  fix ups downs
  assume u: "stream srs sbs ups" "stream crs cbs downs" "tracked D ask sess slots (M + on_lines ups downs)"
  from tracked_send [OF u(3) assms(2,3), where e = e] show ?thesis by (intro under_wayI [OF u(1,2)]) simp
qed

lemma under_way_cong:
  assumes "under_way D ask sess slots crs cbs srs sbs M"
    and "\<And>v. map_of slots (sess v) = Some v \<Longrightarrow> ask' v = ask v"
  shows "under_way D ask' sess slots crs cbs srs sbs M"
  using assms(1)
proof (rule under_wayE)
  fix ups downs
  assume u: "stream srs sbs ups" "stream crs cbs downs" "tracked D ask sess slots (M + on_lines ups downs)"
  show ?thesis by (rule under_wayI [OF u(1,2) tracked_cong [OF u(3)]]) (use assms(2) in blast)
qed

lemma pair_inv_client_send:
  assumes inv: "pair_inv xxh D cid s" and law: "env_istream E = list_istream" "env_dbg E"
    and e: "good_call xxh D e"
  shows "pair_inv xxh D cid
    (s\<lparr>sy_cl := send E e (sy_cl s), sy_call := (sy_call s)(next_work (sy_cl s) := e)\<rparr>)"
proof -
  let ?cl = "sy_cl s" and ?ask = "(sy_call s)(next_work (sy_cl s) := e)" and ?t = "send E e (sy_cl s)"
  note work = pair_inv_at_work [OF inv law(1)]
  from work(3) obtain tls where c: "connections ?cl 0 = Some (client_end s, tls)" ..
  from inv have ok: "client_ok D ?cl" "own_replies D ?cl (sy_call s)"
    "\<forall>w < next_work ?cl. good_call xxh D (sy_call s w)" "open_end (client_end s) \<Longrightarrow> traffic D cid s"
    by (simp_all add: pair_inv_def)
  have old: "v < next_work ?cl" if "map_of (rpc_slots ?cl) (work_session ?cl v) = Some v" for v
    using slot_call(1) [OF work(2) that] .
  have si: "slot_inv ?t" by (rule slot_inv_step [OF cl_send work(2)])
  from law(2) show ?thesis
  proof (cases rule: send_cases [where e = e and s = ?cl])
    case (refused g rs si rc)
    show ?thesis
    proof (rule pair_inv_client [OF inv])
      show "client_ok D ?t" using ok(1) si by (simp add: refused client_ok_def)
      show "own_replies D ?t ?ask" by (rule own_replies_send [OF ok(2) work(2)]) (simp_all add: refused)
      have "ask_of ?t ?ask v = ask_of ?cl (sy_call s) v"
        if "map_of (rpc_slots ?cl) (work_session ?cl v) = Some v" for v
        using old [OF that] by (simp add: ask_of_def refused)
      then show "traffic D cid (s\<lparr>sy_cl := ?t, sy_call := ?ask\<rparr>)" if "open_end (client_end s)"
        using under_way_cong [OF ok(4) [OF that, unfolded traffic_def], of "ask_of ?t ?ask"]
        by (simp add: traffic_def refused client_end_def server_end_def)
    qed (use c e ok(3) in \<open>auto simp: refused less_Suc_eq\<close>)
  next
    case (taken g si' rc)
    have ask: "ask_of ?t ?ask = (ask_of ?cl (sy_call s))(next_work ?cl := mutate_session si' e)"
      by (simp add: taken ask_of_def fun_eq_iff)
    have open': "open_end (client_end s)" using conn_valid_open [OF law(1) _ c] taken(1) ok(1) by (simp add: client_ok_def)
    show ?thesis
    proof (rule pair_inv_client [OF inv])
      show "client_ok D ?t" using ok(1) si open' c by (simp add: taken client_ok_def)
      show "own_replies D ?t ?ask" by (rule own_replies_send [OF ok(2) work(2)]) (simp_all add: taken)
      show "traffic D cid (s\<lparr>sy_cl := ?t, sy_call := ?ask\<rparr>)"
        using under_way_send [OF ok(4) [OF open', unfolded traffic_def] taken(2) old, where e = "mutate_session si' e"]
        unfolding traffic_def by (simp add: ask) (simp add: taken client_end_def server_end_def)
    qed (use c e ok(3) in \<open>auto simp: taken less_Suc_eq\<close>)
  qed
qed

lemma pair_inv_client_step:
  assumes inv: "pair_inv xxh D cid s" and law: "env_istream E = list_istream" "env_xxh E = xxh" "env_dbg E"
    and good: "good_services xxh D" "good_event xxh D (At_client e)"
    and step: "client_step E (sy_cl s) e cl" "cli_ready (conn_istream (client_end s)) e"
  shows "pair_inv xxh D cid (s\<lparr>sy_cl := cl, sy_call := record_call e (next_work (sy_cl s)) (sy_call s)\<rparr>)"
  using step(1)
proof cases
  case (cl_send e)
  with pair_inv_client_send [OF inv law(1,3)] good(2) show ?thesis by simp
next
  case cl_stop
  with pair_inv_client_stop [OF inv law(1)] show ?thesis by simp
next
  case (cl_run xs f ys oc i t fs)
  with pair_inv_client_run [OF inv law(1,2) good(1) cl_run(3,4)] step(2) show ?thesis by simp
qed (use step(2) in simp_all)

section \<open>From the promise to the caller\<close>

text \<open>
  The future of a call resolves to what the client's incoming filters make of the message its
  promise holds, if that is not compressed any more.
\<close>

definition accepted ::
    "(rpc_recv_context \<Rightarrow> rpc_recv_context res) list \<Rightarrow> rpc_recv_context \<Rightarrow> rpc_recv_context \<Rightarrow> bool" where
  "accepted ins ctx ctx' \<longleftrightarrow>
     rpc_filter_apply ins ctx = Inr ctx' \<and> hdr_compression (ctx_header ctx') = compression_flags_none"

definition futures_ok ::
    "(rpc_recv_context \<Rightarrow> rpc_recv_context res) list \<Rightarrow> ('is, 'sem, 'gate) rpc_client \<Rightarrow> bool" where
  "futures_ok ins s \<longleftrightarrow> cli_in_filters s = ins \<and>
     (\<forall>w m ctx. In_filters w m ctx \<in> set (cfibers s) \<longrightarrow> promises s w = Fulfilled (Some ctx)) \<and>
     (\<forall>w ctx'. results s w = Some (Inr (Some ctx')) \<longrightarrow>
        (\<exists>ctx. promises s w = Fulfilled (Some ctx) \<and> accepted ins ctx ctx'))"

lemma in_filters_frame [simp]:
  "cli_in_filters (upd_conn k f s) = cli_in_filters s"
  "cli_in_filters (fail_outstanding_futures E s) = cli_in_filters s"
  "cli_in_filters (leave_gate E s) = cli_in_filters s"
  by (simp_all add: upd_conn_def fail_outstanding_futures_def leave_gate_def Let_def)

text \<open>What a continuation adds to the fibers and the results.\<close>

definition answers_from ::
    "('is, 'sem, 'gate) rpc_client \<Rightarrow> cfiber \<Rightarrow> ('is, 'sem, 'gate) rpc_client \<Rightarrow> cfiber list \<Rightarrow> bool" where
  "answers_from s f t fs \<longleftrightarrow> cli_in_filters t = cli_in_filters s \<and>
     (\<forall>w m ctx. In_filters w m ctx \<in> set fs \<longrightarrow> promises s w = Fulfilled (Some ctx)) \<and>
     (\<forall>w ctx'. results t w = Some (Inr (Some ctx')) \<longrightarrow> results s w = Some (Inr (Some ctx')) \<or>
        (\<exists>m ctx. f = In_filters w m ctx \<and> accepted (cli_in_filters s) ctx ctx'))"

lemma process_reply_answers:
  "process_reply E k a opt s = (t, fs) \<Longrightarrow> answers_from s f t fs"
  by (auto simp: answers_from_def process_reply_def reply_error_def reads_exception_def next_read_def
      split: option.splits if_splits)

lemma answers_from_upd: "answers_from (upd_conn k g s) f t fs \<Longrightarrow> answers_from s f t fs"
  by (simp add: answers_from_def)

lemma reads_exception_answers:
  "reads_exception E a s = (t, fs) \<Longrightarrow> answers_from s f t fs"
  by (auto simp: answers_from_def reads_exception_def split: if_splits)

lemma reply_error_answers:
  "reply_error E k a m s = (t, fs) \<Longrightarrow> answers_from s f t fs"
  by (auto simp: answers_from_def reply_error_def next_read_def split: if_splits)

lemma answers_exec:
  assumes "slot_inv s" "exec_cfiber E oc i f s = Some (t, fs)"
  shows "answers_from s f t fs"
proof (cases f)
  case (Reply_payload k h a)
  with assms(2) obtain c where "reply_payload E oc k h a c s = (t, fs)" by auto
  then show ?thesis
    by (cases oc) (auto simp: reply_payload_def split: prod.splits sum.splits
        dest!: process_reply_answers [where f = f] reads_exception_answers [where f = f] answers_from_upd)
next
  case (Reply_header k a)
  with assms(2) obtain c where r: "reply_header E oc k a c s = (t, fs)" by auto
  have "answers_from s f (upd_conn k g s) [Reply_payload k h a]" for g h
    by (simp add: answers_from_def)
  with r show ?thesis
    by (cases oc) (auto simp: reply_header_def split: prod.splits sum.splits option.splits
        dest!: reply_error_answers [where f = f] reads_exception_answers [where f = f] answers_from_upd)
next
  case (Write_turn e n)
  with assms(2) show ?thesis
    by (auto simp: answers_from_def write_send_def write_done_def split: option.splits sum.splits outcome.splits)
next
  case (Await w m)
  with assms show ?thesis
    by (auto simp: answers_from_def call_await_def finish_call_def slot_inv_def
        split: promise.splits option.splits if_splits)
qed (use assms(2) in \<open>auto simp: answers_from_def call_outgoing_def dispatch_write_def call_incoming_def finish_call_def accepted_def
    write_memory_def reads_loop_def reconnect_continuation_def connect_failed_def socket_connected_def tls_wrapped_def
    connected_def next_read_def Let_def
    split: sum.splits option.splits if_splits outcome.splits\<close>)

lemma futures_ok_more:
  assumes a: "futures_ok ins s" and st: "slot_step s t" "slot_inv s" and f: "cli_in_filters t = cli_in_filters s"
    and fs: "\<And>w m ctx. In_filters w m ctx \<in> set (cfibers t) \<Longrightarrow> promises s w = Fulfilled (Some ctx)"
    and rs: "\<And>w ctx'. results t w = Some (Inr (Some ctx')) \<Longrightarrow>
      \<exists>ctx. promises s w = Fulfilled (Some ctx) \<and> accepted ins ctx ctx'"
  shows "futures_ok ins t"
proof -
  have "promises t w = Fulfilled (Some ctx)" if "promises s w = Fulfilled (Some ctx)" for w ctx
    using st that unfolding slot_step_def by (metis promise.distinct(1))
  with a f fs rs show ?thesis unfolding futures_ok_def by metis
qed

lemma futures_ok_step:
  assumes a: "futures_ok ins s" and inv: "slot_inv s" and step: "client_step E s e t"
  shows "futures_ok ins t"
proof (rule futures_ok_more [OF a slot_step_step [OF step] inv])
  have old: "\<exists>ctx. promises s w = Fulfilled (Some ctx) \<and> accepted ins ctx ctx'"
    if "results s w = Some (Inr (Some ctx'))" for w ctx' using a that by (auto simp: futures_ok_def)
  have run: "answers_from s f s' fs" if "exec_cfiber E oc i f s = Some (s', fs)" for oc i f s' fs
    by (rule answers_exec [OF inv that])
  show "cli_in_filters t = cli_in_filters s"
    using step by cases (auto simp: send_def raw_send_def finish_call_def connect_def reconnect_def cli_stop_def
        reads_timeout_def reads_exception_def Let_def dest!: run simp: answers_from_def split: option.splits)
  show "promises s w = Fulfilled (Some ctx)" if "In_filters w m ctx \<in> set (cfibers t)" for w m ctx
    using step that a by cases (auto simp: futures_ok_def send_def raw_send_def finish_call_def connect_def reconnect_def
        cli_stop_def reads_timeout_def reads_exception_def Let_def leave_gate_def answers_from_def
        dest!: run elim!: detach.elims split: option.splits if_splits)
  show "\<exists>ctx. promises s w = Fulfilled (Some ctx) \<and> accepted ins ctx ctx'"
    if t: "results t w = Some (Inr (Some ctx'))" for w ctx'
    using step
  proof cases
    case (cl_run xs f ys oc i s' fs)
    with t run [OF cl_run(4)] have "results s w = Some (Inr (Some ctx')) \<or>
        (\<exists>m ctx. f = In_filters w m ctx \<and> accepted (cli_in_filters s) ctx ctx')"
      by (simp add: answers_from_def)
    with a cl_run(3) old show ?thesis by (auto simp: futures_ok_def)
  qed (use t old in \<open>auto simp: send_def raw_send_def finish_call_def connect_def reconnect_def
        cli_stop_def reads_timeout_def reads_exception_def Let_def leave_gate_def
        split: option.splits if_splits\<close>)
qed

section \<open>The system keeps the invariant\<close>

text \<open>
  What is relied on: bytes are read as they were delivered, both sides hash alike, the client's
  assertions are on, so that a session in use is not given out again, and the services answer
  well formed envelopes.
\<close>

definition pair_law ::
    "xxh64 \<Rightarrow> (bytes, 'sem, 'gate) seastar_env \<Rightarrow> (bytes, 'sem2, 'gate2) seastar_env \<Rightarrow> deployment \<Rightarrow> bool" where
  "pair_law xxh E F D \<longleftrightarrow> env_istream E = list_istream \<and> env_istream F = list_istream \<and>
     env_xxh E = xxh \<and> env_xxh F = xxh \<and> env_dbg E \<and> good_services xxh D"

definition system_inv where
  "system_inv xxh E F ins D s \<longleftrightarrow> pair_law xxh E F D \<and> pair_inv xxh D 1 s \<and> futures_ok ins (sy_cl s)"

lemma linked_server_simps:
  "heap (linked_server F as D) 1 =
     Some (rpc_server_connection_new [] (dp_addr D) (rpc_server_connection_options_new True True))"
  "server_ok D (linked_server F as D)" "fibers (linked_server F as D) = [Session 1]"
  by (simp_all add: linked_server_def accept_connection_def start_def configured_server_def rpc_server_new_def
      server_ok_def upd_stats_def Let_def)

lemma linked_client_simps:
  "connections (linked_client E opts ins D) 0 = Some (rpc_connection_new [] (0, 0) (Some 0), None)"
  "cli_conn (linked_client E opts ins D) = Some 0" "rpc_slots (linked_client E opts ins D) = []"
  "cli_out_filters (linked_client E opts ins D) = dp_client_out D" "next_work (linked_client E opts ins D) = 0"
  "promises (linked_client E opts ins D) w = Pending" "cli_in_filters (linked_client E opts ins D) = ins"
  "results (linked_client E opts ins D) w = None"
  "cfibers (linked_client E opts ins D) \<in> {[], [Reads]}"
  by (auto simp: linked_client_def connected_def configured_client_def rpc_client_new_def Let_def
      split: option.splits prod.splits)

lemma new_connections:
  "wire_bytes (conn_ostream (rpc_connection_new bs a l)) = []" "conn_istream (rpc_connection_new bs a l) = bs"
  "open_end (rpc_connection_new bs a l)" "end_ok a (rpc_connection_new bs a (Some 0))"
  "wire_bytes (conn_ostream (rpc_server_connection_new bs a o')) = []"
  "conn_istream (rpc_server_connection_new bs a o') = bs" "end_ok a (rpc_server_connection_new bs a o')"
  by (auto simp: rpc_connection_new_def rpc_server_connection_new_def end_ok_def open_end_def has_error_def
      socket_do_def Let_def split: prod.splits)

lemma linked_traffic: "traffic D 1 (linked_pair E F opts ins as D)"
proof -
  have "stream (gather cl_reader (cfibers (linked_client E opts ins D))) [] []"
    using linked_client_simps(9) [of E opts ins D] by auto
  moreover have "gather cl_items (cfibers (linked_client E opts ins D)) = []"
    using linked_client_simps(9) [of E opts ins D] by auto
  ultimately show ?thesis
    unfolding traffic_def by (intro under_wayI [of _ _ "[]" _ _ "[]"])
      (simp_all add: linked_pair_def client_end_def server_end_def linked_client_simps linked_server_simps
        new_connections sent_bytes_def on_lines_def del: concat_eq_Nil_conv)
qed

lemma linked_pair_inv: "pair_inv xxh D 1 (linked_pair E F opts ins as D)"
  using linked_traffic [of D E F opts ins as] linked_client_simps(9) [of E opts ins D]
  unfolding pair_inv_def
  by (auto simp: linked_pair_def client_end_def server_end_def linked_client_simps linked_server_simps
      new_connections client_ok_def slot_inv_def kept_def own_replies_def)

interpretation linked: invariant_system "pair_step E F 1"
  "\<lambda>s. pair_law xxh E F D \<and> (\<exists>opts as. s = linked_pair E F opts ins as D)" "good_event xxh D"
  "system_inv xxh E F ins D"
  for E :: "(bytes, 'sem, 'gate) seastar_env" and F :: "(bytes, 'sem2, 'gate2) seastar_env" and xxh D ins
proof unfold_locales
  fix s :: "('sem, 'gate, 'sem2, 'gate2) rpc_pair"
  assume "pair_law xxh E F D \<and> (\<exists>opts as. s = linked_pair E F opts ins as D)"
  moreover have "futures_ok ins (linked_client E opts ins D)" for opts
    using linked_client_simps(9) [of E opts ins D] by (auto simp: futures_ok_def linked_client_simps)
  ultimately show "system_inv xxh E F ins D s"
    by (auto simp: system_inv_def linked_pair_inv) (simp add: linked_pair_def)
next
  fix s e and t :: "('sem, 'gate, 'sem2, 'gate2) rpc_pair"
  assume inv: "system_inv xxh E F ins D s" and step: "pair_step E F 1 s e t" and good: "good_event xxh D e"
  from inv have law: "env_istream E = list_istream" "env_istream F = list_istream" "env_xxh E = xxh"
    "env_xxh F = xxh" "env_dbg E" "good_services xxh D" and p: "pair_inv xxh D 1 s" "futures_ok ins (sy_cl s)"
    by (simp_all add: system_inv_def pair_law_def)
  have "slot_inv (sy_cl s)" by (rule pair_inv_at_work(2) [OF p(1) law(1)])
  note f = futures_ok_step [OF p(2) this]
  from step have "pair_inv xxh D 1 t \<and> futures_ok ins (sy_cl t)"
  proof cases
    case (at_client e' cl)
    with pair_inv_client_step [OF p(1) law(1,3,5,6)] f good show ?thesis by simp
  next
    case (at_server e' srv)
    with pair_inv_server_step [OF p(1) law(2,4,6)] p(2) show ?thesis by simp
  next
    case (up bs n)
    with pair_inv_up [OF p(1) up(3)] p(2) show ?thesis by simp
  next
    case (down bs n)
    with pair_inv_down [OF p(1) down(3)] p(2) show ?thesis by (simp add: futures_ok_def upd_conn_def)
  qed
  with inv show "system_inv xxh E F ins D t" by (simp add: system_inv_def)
qed

section \<open>Calling the service directly\<close>

text \<open>
  The specification of a call: the filters of the client, the route, the filters of the server,
  the handler and the filters back, one after the other, with no connection in between. What
  the incoming filters leave compressed is refused.
\<close>

fun right :: "'a res \<Rightarrow> 'a option" where
  "right (Inl ex) = None"
| "right (Inr x) = Some x"

definition uncompressed :: "rpc_recv_context \<Rightarrow> rpc_recv_context option" where
  "uncompressed q = (if hdr_compression (ctx_header q) = compression_flags_none then Some q else None)"

definition direct_call ::
    "deployment \<Rightarrow> (rpc_recv_context \<Rightarrow> rpc_recv_context res) list \<Rightarrow> rpc_envelope \<Rightarrow> rpc_recv_context option" where
  "direct_call D ins e =
     Option.bind (right (rpc_filter_apply (dp_client_out D) e)) (\<lambda>e1.
     let q = arrived (dp_addr D) e1 in
     Option.bind (get_handle_for_request (dp_routes D) (ctx_request_id q)) (\<lambda>h.
     Option.bind (Option.bind (right (rpc_filter_apply (dp_server_in D) q)) uncompressed) (\<lambda>q'.
     Option.bind (right (h q')) (\<lambda>r.
     Option.bind (right (rpc_filter_apply (dp_server_out D) r)) (\<lambda>r'.
     Option.bind (right (rpc_filter_apply ins (arrived (0, 0) r'))) uncompressed)))))"

lemma own_reply_direct:
  assumes "own_reply D e ctx" "accepted ins ctx ctx'"
  shows "direct_call D ins e = Some ctx'"
  using assms by (auto simp: own_reply_def direct_call_def uncompressed_def accepted_def Let_def)


section \<open>Services that keep the contract\<close>

text \<open>
  The services smfc generates answer under the session of the request; with methods that
  return well formed envelopes, and no filters on the server, the services are good.
\<close>

lemma generated_handle_of_route:
  assumes "get_handle_for_request (map (\<lambda>(s, raws). generated_service s raws) gs) idx = Some h"
  shows "\<exists>s raws i. (s, raws) \<in> set gs \<and> h = generated_handle (raws i)"
proof -
  from assms have "(idx, h) \<in> set (concat (map (\<lambda>(s, raws). generated_table s raws) gs))"
    using router_table [OF generated_services_tables] by (metis map_of_SomeD)
  then obtain s raws where g: "(s, raws) \<in> set gs" "(idx, h) \<in> set (generated_table s raws)" by auto
  then have "h \<in> set (generated_handles s raws)" by (auto simp: generated_table_def dest: set_zip_rightD)
  with g(1) show ?thesis by (auto simp: generated_handles_def)
qed

lemma session_set [simp]:
  "sendable xxh (mutate_session sess e) = sendable xxh e" "hdr_session (env_header (mutate_session sess e)) = sess"
  by (simp_all add: sendable_def consistent_letter_def valid_header_def header_ops)

lemma generated_services_good:
  assumes "dp_routes D = map (\<lambda>(s, raws). generated_service s raws) gs" "dp_server_in D = []" "dp_server_out D = []"
    and "\<And>s raws i q r. (s, raws) \<in> set gs \<Longrightarrow> raws i q = Inr r \<Longrightarrow> sendable xxh r"
  shows "good_services xxh D"
  unfolding good_services_def
proof (intro allI impI)
  fix q h q' r r'
  assume "get_handle_for_request (dp_routes D) (ctx_request_id q) = Some h"
    "rpc_filter_apply (dp_server_in D) q = Inr q'" and h: "h q' = Inr r" and "rpc_filter_apply (dp_server_out D) r = Inr r'"
  with assms(1-3) have q: "q' = q" "r' = r" by simp_all
  with generated_handle_of_route obtain s raws i where g: "(s, raws) \<in> set gs" "h = generated_handle (raws i)"
    using assms(1) \<open>get_handle_for_request _ _ = _\<close> by metis
  with h q obtain e where "raws i q = Inr e" "r = mutate_session (ctx_session q) e"
    by (auto simp: generated_handle_def Let_def rbind_Inr_iff)
  with g assms(4) q show "sendable xxh r' \<and> hdr_session (env_header r') = ctx_session q"
    by auto
qed

section \<open>The system by evaluation\<close>

datatype pair_action =
    Act_client "bytes cli_action"
  | Act_server "bytes action"
  | Act_up nat
  | Act_down nat

fun pair_act ::
    "(bytes, 'sem, 'gate) seastar_env \<Rightarrow> (bytes, 'sem2, 'gate2) seastar_env \<Rightarrow> u64 \<Rightarrow> pair_action \<Rightarrow>
     ('sem, 'gate, 'sem2, 'gate2) rpc_pair \<Rightarrow> (pair_event \<times> ('sem, 'gate, 'sem2, 'gate2) rpc_pair) option" where
  "pair_act E F cid (Act_client a) s =
     (case cli_act E a (sy_cl s) of
        None \<Rightarrow> None
      | Some (e, cl) \<Rightarrow>
          if cli_ready (conn_istream (client_end s)) e
          then Some (At_client e,
            s\<lparr>sy_cl := cl, sy_call := record_call e (next_work (sy_cl s)) (sy_call s)\<rparr>)
          else None)"
| "pair_act E F cid (Act_server a) s =
     (case act F a (sy_srv s) of
        None \<Rightarrow> None
      | Some (e, srv) \<Rightarrow>
          if srv_ready cid (conn_istream (server_end cid s)) e
          then Some (At_server e, s\<lparr>sy_srv := srv\<rparr>) else None)"
| "pair_act E F cid (Act_up n) s =
     (let bs = take n (drop (sy_up s) (wire_bytes (conn_ostream (client_end s))))
      in Some (Up n, s\<lparr>sy_srv := set_conn cid (feed bs (server_end cid s)) (sy_srv s),
                      sy_up := sy_up s + length bs\<rparr>))"
| "pair_act E F cid (Act_down n) s =
     (let bs = take n (drop (sy_down s) (wire_bytes (conn_ostream (server_end cid s))))
      in Some (Down n, s\<lparr>sy_cl := upd_conn 0 (feed bs) (sy_cl s), sy_down := sy_down s + length bs\<rparr>))"

fun pair_play ::
    "(bytes, 'sem, 'gate) seastar_env \<Rightarrow> (bytes, 'sem2, 'gate2) seastar_env \<Rightarrow> u64 \<Rightarrow> pair_action list \<Rightarrow>
     ('sem, 'gate, 'sem2, 'gate2) rpc_pair \<Rightarrow> ('sem, 'gate, 'sem2, 'gate2) rpc_pair option" where
  "pair_play E F cid [] s = Some s"
| "pair_play E F cid (a # as) s =
     (case pair_act E F cid a s of None \<Rightarrow> None | Some (e, t) \<Rightarrow> pair_play E F cid as t)"

fun good_action :: "xxh64 \<Rightarrow> deployment \<Rightarrow> pair_action \<Rightarrow> bool" where
  "good_action xxh D (Act_client (Dc_send e)) = good_call xxh D e"
| "good_action xxh D _ = True"

lemma cli_act_send: "cli_act E a s = Some (Ev_send e, t) \<Longrightarrow> a = Dc_send e"
  by (cases "(E, a, s)" rule: cli_act.cases) (auto split: if_splits option.splits)

lemma good_event_client: "good_event xxh D (At_client e) = (\<forall>e'. e = Ev_send e' \<longrightarrow> good_call xxh D e')"
  by (cases e) simp_all

lemma pair_act_step:
  assumes "pair_act E F cid a s = Some (e, t)" "good_action xxh D a"
  shows "pair_step E F cid s e t \<and> good_event xxh D e"
proof (cases a)
  case (Act_client b)
  with assms(1) obtain e' cl where "cli_act E b (sy_cl s) = Some (e', cl)" "e = At_client e'"
    "cli_ready (conn_istream (client_end s)) e'"
    "t = s\<lparr>sy_cl := cl, sy_call := record_call e' (next_work (sy_cl s)) (sy_call s)\<rparr>"
    by (auto split: option.splits if_splits)
  with Act_client assms(2) show ?thesis
    by (auto simp: good_event_client intro!: pair_step.at_client cli_act_step dest!: cli_act_send)
qed (use assms in \<open>auto simp: Let_def intro!: pair_step.intros act_step
    simp del: length_take length_drop split: option.splits if_splits\<close>)

lemma pair_play_run:
  assumes "pair_play E F cid as s = Some t" "list_all (good_action xxh D) as"
  shows "\<exists>evs. run (pair_step E F cid) s evs t \<and> list_all (good_event xxh D) evs"
  using assms
proof (induction as arbitrary: s)
  case Nil
  then show ?case by (intro exI [of _ "[]"]) (simp add: run_Nil_iff)
next
  case (Cons a as)
  then obtain e u where "pair_act E F cid a s = Some (e, u)" "pair_play E F cid as u = Some t"
    by (auto split: option.splits)
  with Cons obtain evs where "run (pair_step E F cid) u evs t" "list_all (good_event xxh D) evs"
      "pair_step E F cid s e u" "good_event xxh D e"
    using pair_act_step by (metis list.pred_inject(2))
  then show ?case by (intro exI [of _ "e # evs"]) (auto intro: run_cons)
qed

text \<open>
  Two calls with different requests to a service that echoes: the requests arrive in pieces,
  the second is answered first, and the replies arrive in pieces.
\<close>

definition example_debug_env :: "(bytes, u64, nat \<times> bool) seastar_env" where
  "example_debug_env = example_env\<lparr>env_dbg := True\<rparr>"

definition example_header :: "u16 \<Rightarrow> bytes \<Rightarrow> header" where
  "example_header sess bs = \<lparr>hdr_compression = 1, hdr_bitflags = 0, hdr_session = sess,
     hdr_size = word_of_nat (length bs), hdr_checksum = 7, hdr_meta = 16\<rparr>"

definition example_message :: "u16 \<Rightarrow> bytes \<Rightarrow> rpc_envelope" where
  "example_message sess bs = \<lparr>env_letter = \<lparr>ltr_header = example_header sess bs,
     ltr_dynamic_headers = Map.empty, ltr_body = bs\<rparr>\<rparr>"

text \<open>The service answers with the first nine bytes of the request, or with one zero.\<close>

definition example_echo :: handle where
  "example_echo q = Inr (example_message 0 (if ctx_payload q = [] then [0] else take 9 (ctx_payload q)))"

definition example_deployment :: deployment where
  "example_deployment = \<lparr>dp_client_out = [],
     dp_routes = map (\<lambda>(s, raws). generated_service s raws) [(example_service, \<lambda>i. example_echo)],
     dp_server_in = [], dp_server_out = [], dp_addr = (1, 2)\<rparr>"

definition example_server_args :: rpc_server_args where
  "example_server_args = rpc_server_args_default\<lparr>arg_memory_avail_per_core := 1000\<rparr>"

definition example_schedule :: "pair_action list" where
  "example_schedule =
     [Act_client (Dc_send (example_message 0 [1, 2])), Act_client (Dc_send (example_message 0 [3]))] @
     map (\<lambda>n. Act_client (Dc_fiber n Proceed [])) [1, 1, 1, 2, 2, 2] @ [Act_up 20, Act_up 30] @
     map (\<lambda>n. Act_server (Do_fiber n Proceed)) [0, 0, 0, 0, 1, 1, 1, 1, 1, 1, 1, 1, 1, 0, 0, 0, 0, 0] @
     [Act_down 10, Act_down 30] @
     map (\<lambda>n. Act_client (Dc_fiber n Proceed [])) [0, 0, 0, 0, 0, 0, 0, 1, 1, 1, 1]"

lemma example_message_simps:
  "env_header (example_message s bs) = example_header s bs" "env_body (example_message s bs) = bs"
  "mutate_session s (example_message s' bs) = example_message s bs"
  "envelope_size (example_message s bs) = 16 + length bs"
  "hdr_size (example_header s bs) = word_of_nat (length bs)" "hdr_session (example_header s bs) = s"
  "hdr_meta (example_header s bs) = 16"
  "hdr_compression (normalise_compression (example_header s bs)) = compression_flags_none"
  by (simp_all add: example_message_def header_ops example_header_def envelope_size_def letter_size_def
      kHeaderSize_def normalise_compression_def compression_flags_defs)

lemma example_message_sendable:
  "bs \<noteq> [] \<Longrightarrow> length bs < 10 \<Longrightarrow> sendable example_xxh (example_message s bs)"
  by (auto simp: sendable_def consistent_letter_def valid_header_def rpc_checksum_payload_def example_xxh_def
      example_message_def example_header_def word_of_nat_eq_0_iff dvd_imp_le
      dest!: dvd_imp_le)

lemma example_headers:
  "header_bytes (example_header 1 [1, 2]) = [1, 0, 1, 0, 2, 0, 0, 0, 7, 0, 0, 0, 16, 0, 0, 0]"
  "header_bytes (example_header 2 [3]) = [1, 0, 2, 0, 1, 0, 0, 0, 7, 0, 0, 0, 16, 0, 0, 0]"
  "parse_header_bytes [1, 0, 1, 0, 2, 0, 0, 0, 7, 0, 0, 0, 16, 0, 0, 0] =
     Some (normalise_compression (example_header 1 [1, 2]))"
  "parse_header_bytes [1, 0, 2, 0, 1, 0, 0, 0, 7, 0, 0, 0, 16, 0, 0, 0] =
     Some (normalise_compression (example_header 2 [3]))"
  by code_simp+

lemma example_sent:
  "rpc_envelope_send dbg out (example_message 1 [1, 2]) =
     Inr (out @ [Write (header_bytes (example_header 1 [1, 2])), Write [1, 2], Flush])"
  "rpc_envelope_send dbg out (example_message 2 [3]) =
     Inr (out @ [Write (header_bytes (example_header 2 [3])), Write [3], Flush])"
  using rpc_envelope_send_sendable [OF example_message_sendable] by (simp_all add: example_message_simps)

lemma example_payloads:
  "parse_payload_bytes dbg example_xxh lim a (normalise_compression (example_header 1 [1, 2])) [1, 2] =
     Inr (Some \<lparr>ctx_limits = lim, ctx_remote_address = a,
       ctx_header = normalise_compression (example_header 1 [1, 2]), ctx_payload = [1, 2]\<rparr>)"
  "parse_payload_bytes dbg example_xxh lim a (normalise_compression (example_header 2 [3])) [3] =
     Inr (Some \<lparr>ctx_limits = lim, ctx_remote_address = a,
       ctx_header = normalise_compression (example_header 2 [3]), ctx_payload = [3]\<rparr>)"
  by (simp_all add: parse_payload_bytes_def example_header_def normalise_compression_def compression_flags_defs
      max_flatbuffers_size_def rpc_checksum_payload_def example_xxh_def rpc_recv_context_new_def)

lemma example_deployment_simps:
  "dp_client_out example_deployment = []" "dp_server_in example_deployment = []"
  "dp_server_out example_deployment = []" "dp_addr example_deployment = (1, 2)"
  by (simp_all add: example_deployment_def)

lemma example_route: "get_handle_for_request (dp_routes example_deployment) 16 = Some (generated_handle example_echo)"
proof -
  have "length (s_methods example_service) = 2" using arg_cong [OF example_service_ids, of length] by simp
  then have "generated_table example_service (\<lambda>i. example_echo) =
      [(19, generated_handle example_echo), (16, generated_handle example_echo)]"
    by (simp add: generated_table_def generated_handles_def example_service_ids upt_rec)
  then show ?thesis by (simp add: example_deployment_def generated_service_def generated.lookup_table)
qed

lemma example_handled:
  "generated_handle example_echo q =
     Inr (example_message (ctx_session q) (if ctx_payload q = [] then [0] else take 9 (ctx_payload q)))"
  by (simp add: generated_handle_def example_echo_def example_message_simps)

lemma example_good:
  "pair_law example_xxh example_debug_env example_env example_deployment"
  "list_all (good_action example_xxh example_deployment) example_schedule"
proof -
  have "good_services example_xxh example_deployment"
    by (rule generated_services_good [of _ "[(example_service, \<lambda>i. example_echo)]"])
       (auto simp: example_deployment_def example_echo_def intro!: example_message_sendable split: if_splits)
  then show "pair_law example_xxh example_debug_env example_env example_deployment"
    by (simp add: pair_law_def example_debug_env_def example_env_def)
  show "list_all (good_action example_xxh example_deployment) example_schedule"
    by (auto simp: example_schedule_def good_call_def example_deployment_def example_message_simps
        intro!: example_message_sendable split: if_splits)
qed

lemma example_played:
  "\<exists>t. pair_play example_debug_env example_env 1 example_schedule
      (linked_pair example_debug_env example_env example_opts [] example_server_args example_deployment) = Some t \<and>
    results (sy_cl t) 0 = Some (Inr (Some (arrived (0, 0) (example_message 1 [1, 2])))) \<and>
    results (sy_cl t) 1 = Some (Inr (Some (arrived (0, 0) (example_message 2 [3])))) \<and>
    work_session (sy_cl t) 1 = 2 \<and> sy_call t 1 = example_message 0 [3]"
  by (simp add: example_schedule_def client_eval server_eval linked_pair_def linked_client_def linked_server_def
      client_end_def server_end_def feed_def example_sent example_headers example_payloads example_message_simps
      example_deployment_simps example_route example_handled example_server_args_def parse_payload_def Let_def
      ctx_session_def ctx_request_id_def kHeaderSize_def example_debug_env_def example_opts_def arrived_def)


end
