(* ===== verification/Rpc_System_Live.thy ===== *)
theory Rpc_System_Live
  imports Rpc_System_Calls Rpc_Server_Dispatch
begin

text \<open>
  The other direction of Rpc_System_Calls: what calling a service directly gives, the client and
  the server joined by a connection can give as well. From a state in which no call is under
  way, a call can be driven to its answer and back to such a state; so any list of calls can be
  made one after the other over one connection.
\<close>

section \<open>Steps of one side as steps of the system\<close>

fun internal :: "bytes cli_event \<Rightarrow> bool" where
  "internal (Ev_cli_run (Reply_header k a) oc i) = False"
| "internal (Ev_cli_run (Reply_payload k h a) oc i) = False"
| "internal (Ev_cli_run f oc i) = True"
| "internal _ = False"

lemma internal_ready:
  assumes "internal e"
  shows "cli_ready bs e" "record_call e w ask = ask" "good_event xxh D (At_client e)"
  using assms by (cases e rule: internal.cases; simp)+

lemma client_run_pair:
  assumes "run (client_step E) cl es cl'" "list_all internal es" "sy_cl s = cl"
  shows "run (pair_step E F cid) s (map At_client es) (s\<lparr>sy_cl := cl'\<rparr>) \<and>
    list_all (good_event xxh D) (map At_client es)"
  using assms
proof (induction es arbitrary: cl s)
  case Nil
  then show ?case by (simp add: run_Nil_iff)
next
  case (Cons e es)
  then obtain u where u: "client_step E cl e u" "run (client_step E) u es cl'" by (auto simp: run_Cons_iff)
  from Cons.prems(2) have e: "internal e" by simp
  have "pair_step E F cid s (At_client e) (s\<lparr>sy_cl := u\<rparr>)"
    using pair_step.at_client [of E s e u F cid] u(1) Cons.prems(3) internal_ready(1,2) [OF e] by simp
  with Cons.IH [OF u(2), of "s\<lparr>sy_cl := u\<rparr>"] Cons.prems(2) internal_ready(3) [OF e] show ?case
    by (auto simp: run_Cons_iff)
qed

lemma server_run_pair:
  assumes "run (server_step F) srv es srv'" "list_all reads_nothing es" "sy_srv s = srv"
  shows "run (pair_step E F cid) s (map At_server es) (s\<lparr>sy_srv := srv'\<rparr>) \<and>
    list_all (good_event xxh D) (map At_server es)"
  using assms
proof (induction es arbitrary: srv s)
  case Nil
  then show ?case by (simp add: run_Nil_iff)
next
  case (Cons e es)
  then obtain u where u: "server_step F srv e u" "run (server_step F) u es srv'" by (auto simp: run_Cons_iff)
  from Cons.prems(2) have "srv_ready cid bs e" for bs by (cases "(cid, bs, e)" rule: srv_ready.cases) simp_all
  then have "pair_step E F cid s (At_server e) (s\<lparr>sy_srv := u\<rparr>)"
    using u(1) Cons.prems(3) by (intro pair_step.at_server) simp_all
  with Cons.IH [OF u(2), of "s\<lparr>sy_srv := u\<rparr>"] Cons.prems(2) show ?case by (auto simp: run_Cons_iff)
qed

section \<open>A call, one side at a time\<close>

text \<open>The client: from the call to the message on the wire.\<close>

lemma client_sends:
  assumes laws: "semaphore_law E units" "gate_law E is_open" "env_istream E = list_istream"
    and cl: "cfibers cl = [Reads]" "rpc_slots cl = []" "cli_conn cl = Some 0" "connections cl 0 = Some (c, tls)"
      "open_end c" "is_open (dispatch_gate cl)"
    and e: "rpc_filter_apply (cli_out_filters cl) (mutate_session (session_idx cl + 1) e) = Inr e'" "sendable xxh e'"
    and mem: "0 \<le> sint (units (resources_available (cli_limits cl)))"
      "word_of_nat (envelope_size e') \<le> units (resources_available (cli_limits cl))"
  shows "\<exists>es cl' m. run (client_step E) (send E e cl) es cl' \<and> list_all internal es \<and>
    cfibers cl' = [Reads, Await (next_work cl) m] \<and> rpc_slots cl' = [(session_idx cl + 1, next_work cl)] \<and>
    connections cl' 0 = Some (c\<lparr>conn_ostream := conn_ostream c @
      [Write (header_bytes (env_header e')), Write (env_body e'), Flush]\<rparr>, tls) \<and>
    cli_conn cl' = Some 0 \<and> is_open (dispatch_gate cl') \<and> read_counter cl' = read_counter cl + 1 \<and>
    next_work cl' = Suc (next_work cl) \<and> session_idx cl' = session_idx cl + 1 \<and> results cl' = results cl \<and>
    units (resources_available (cli_limits cl')) = units (resources_available (cli_limits cl)) \<and>
    cli_in_filters cl' = cli_in_filters cl \<and> cli_out_filters cl' = cli_out_filters cl"
proof -
  let ?w = "next_work cl" and ?si = "session_idx cl + 1" and ?n = "word_of_nat (envelope_size e') :: u64"
  from laws(2) cl(6) obtain g1 where g1: "gate_enter E (dispatch_gate cl) = Some g1" "is_open g1"
    by (auto simp: gate_law_def split: option.splits)
  from laws(2) g1(2) obtain g2 where g2: "gate_enter E g1 = Some g2" "is_open g2"
    by (auto simp: gate_law_def split: option.splits)
  from laws(1) mem obtain sem where sem: "sem_wait E (resources_available (cli_limits cl)) ?n = Some sem"
    "units sem = units (resources_available (cli_limits cl)) - ?n"
    unfolding semaphore_law_def by blast
  have v: "is_conn_valid E (cl\<lparr>dispatch_gate := g1\<rparr>)"
    using conn_valid_open [OF laws(3), of "cl\<lparr>dispatch_gate := g1\<rparr>" c tls] cl by simp
  define s1 where "s1 = send E e cl"
  have s1: "s1 = cl\<lparr>dispatch_gate := g1, session_idx := ?si, read_counter := read_counter cl + 1, next_work := Suc ?w,
      work_session := (work_session cl)(?w := ?si), rpc_slots := [(?si, ?w)],
      cfibers := [Reads, Out_filters ?w (hist cl) (mutate_session ?si e)]\<rparr>"
    using cl v g1 by (simp add: s1_def send_def raw_send_def Let_def)
  define s2 where "s2 = s1\<lparr>dispatch_gate := g2, cfibers := [Reads, Write_wait e', Await ?w (hist cl)]\<rparr>"
  define s3 where "s3 = s2\<lparr>cli_limits := (cli_limits cl)\<lparr>resources_available := sem\<rparr>,
    cfibers := [Reads, Write_turn e' ?n, Await ?w (hist cl)]\<rparr>"
  define s4 where "s4 = (write_send E Proceed e' ?n s3)\<lparr>cfibers := [Reads, Await ?w (hist cl)]\<rparr>"
  have "client_step E s1 (Ev_cli_run (Out_filters ?w (hist cl) (mutate_session ?si e)) Proceed []) s2"
    using cl_run [of s1 "[Reads]" "Out_filters ?w (hist cl) (mutate_session ?si e)" "[]" E Proceed "[]"
        "s1\<lparr>dispatch_gate := g2\<rparr>" "[Write_wait e', Await ?w (hist cl)]"] e(1) g2
    by (simp add: s1 s2_def call_outgoing_def dispatch_write_def)
  moreover have "client_step E s2 (Ev_cli_run (Write_wait e') Proceed []) s3"
    using cl_run [of s2 "[Reads]" "Write_wait e'" "[Await ?w (hist cl)]" E Proceed "[]"
        "s2\<lparr>cli_limits := (cli_limits cl)\<lparr>resources_available := sem\<rparr>\<rparr>" "[Write_turn e' ?n]"] sem(1)
    by (simp add: s1 s2_def s3_def write_memory_def Let_def)
  moreover have "client_step E s3 (Ev_cli_run (Write_turn e' ?n) Proceed []) s4"
    using cl_run [of s3 "[Reads]" "Write_turn e' ?n" "[Await ?w (hist cl)]" E Proceed "[]"
        "write_send E Proceed e' ?n s3" "[]"]
    by (simp add: s3_def s4_def)
  ultimately have "run (client_step E) (send E e cl) [Ev_cli_run (Out_filters ?w (hist cl) (mutate_session ?si e)) Proceed [],
      Ev_cli_run (Write_wait e') Proceed [], Ev_cli_run (Write_turn e' ?n) Proceed []] s4" (is "run _ _ ?es _")
    by (auto simp: run_Cons_iff run_Nil_iff s1_def)
  moreover have "units (sem_signal E sem ?n) = units (resources_available (cli_limits cl))"
    using laws(1) sem(2) by (simp add: semaphore_law_def)
  moreover have "is_open (gate_leave E g2)" using laws(2) g2(2) by (simp add: gate_law_def)
  moreover note cl(2-4) rpc_envelope_send_sendable [OF e(2)]
  ultimately show ?thesis
    by (intro exI [of _ ?es] exI [of _ s4] exI [of _ "hist cl"])
       (simp add: s4_def s3_def s2_def s1 write_send_def write_done_def leave_gate_def upd_conn_def)
qed

text \<open>The server: from the message on the stream to the reply on the wire.\<close>

lemma server_step_pair:
  assumes "exec F Proceed f (sy_srv s) = Some (srv, fs)" "fibers (sy_srv s) = [f]"
    and "srv_ready cid (conn_istream (server_end cid s)) (Ev_run f Proceed)"
  shows "pair_step E F cid s (At_server (Ev_run f Proceed)) (s\<lparr>sy_srv := srv\<lparr>fibers := fs\<rparr>\<rparr>)"
  using pair_step.at_server [OF st_run [of "sy_srv s" "[]" f "[]" F Proceed srv fs], of cid E] assms by simp

lemma server_receives:
  assumes laws: "env_istream F = list_istream" "env_xxh F = xxh"
    and srv: "sy_srv s = srv" "fibers srv = [Session cid]" "heap srv cid = Some c" "open_end c" "end_ok addr c"
      "conn_istream c = frame q"
    and q: "sendable xxh q"
    and mem: "sem_wait F (resources_available (limits srv)) (ucast (hdr_size (env_header q))) = Some sem"
      "gate_enter F (reply_gate srv) = Some g"
  shows "\<exists>evs. run (pair_step E F cid) s evs (s\<lparr>sy_srv := srv\<lparr>limits := (limits srv)\<lparr>resources_available := sem\<rparr>,
      heap := (heap srv)(cid \<mapsto> c\<lparr>conn_istream := []\<rparr>), reply_gate := g,
      fibers := [Dispatch cid (hdr_size (env_header q)) (arrived addr q), Session cid]\<rparr>\<rparr>) \<and>
    list_all (good_event xxh D) evs"
proof -
  let ?h = "normalise_compression (env_header q)" and ?n = "hdr_size (env_header q)"
  let ?c1 = "c\<lparr>conn_istream := env_body q\<rparr>" and ?c2 = "c\<lparr>conn_istream := []\<rparr>"
  have p1: "parse_header (env_dbg F) (env_istream F) c = (Inr (Some ?h), ?c1)"
    using header_read [OF _ _ q, of c "env_body q" "env_dbg F"] srv(5,6) laws(1) by (simp add: frame_def end_ok_def)
  have p2: "parse_payload (env_dbg F) (env_istream F) (env_xxh F) ?c1 ?h = (Inr (Some (arrived addr q)), ?c2)"
    using payload_read [OF _ q, of ?c1 "[]" addr "env_dbg F"] srv(5) laws by (simp add: end_ok_def)
  have sz: "unat (hdr_size ?h) \<le> length (env_body q)"
    using q by (simp add: sendable_def consistent_letter_def unat_of_nat)
  have len: "kHeaderSize \<le> length (frame q)" by (simp add: frame_def hdr.enc_length)
  define s1 where "s1 = s\<lparr>sy_srv := srv\<lparr>fibers := [Read_header cid]\<rparr>\<rparr>"
  define s2 where "s2 = s\<lparr>sy_srv := srv\<lparr>heap := (heap srv)(cid \<mapsto> ?c1), fibers := [Wait_memory cid ?h]\<rparr>\<rparr>"
  define s3 where "s3 = s\<lparr>sy_srv := srv\<lparr>heap := (heap srv)(cid \<mapsto> ?c1),
    limits := (limits srv)\<lparr>resources_available := sem\<rparr>, fibers := [Read_payload cid ?h]\<rparr>\<rparr>"
  define s4 where "s4 = s\<lparr>sy_srv := srv\<lparr>limits := (limits srv)\<lparr>resources_available := sem\<rparr>,
      heap := (heap srv)(cid \<mapsto> ?c2), reply_gate := g,
      fibers := [Dispatch cid ?n (arrived addr q), Session cid]\<rparr>\<rparr>"
  have v: "is_valid (env_istream F) c"
    using srv(4) laws(1) by (simp add: is_valid_def open_end_def list_istream_def)
  have "pair_step E F cid s (At_server (Ev_run (Session cid) Proceed)) s1"
    using server_step_pair [of F "Session cid" s srv "[Read_header cid]" cid E] srv v
    by (simp add: s1_def exec_def session_loop_def)
  moreover have "pair_step E F cid s1 (At_server (Ev_run (Read_header cid) Proceed)) s2"
    using server_step_pair [of F "Read_header cid" s1 "set_conn cid ?c1 (sy_srv s1)" "[Wait_memory cid ?h]" cid E]
      srv p1 len
    by (simp add: s1_def s2_def exec_def session_header_def set_conn_def server_end_def)
  moreover have "pair_step E F cid s2 (At_server (Ev_run (Wait_memory cid ?h) Proceed)) s3"
    using server_step_pair [of F "Wait_memory cid ?h" s2
        "(sy_srv s2)\<lparr>limits := (limits srv)\<lparr>resources_available := sem\<rparr>\<rparr>" "[Read_payload cid ?h]" cid E] mem(1)
    by (simp add: s2_def s3_def exec_def session_wait_def)
  moreover have "pair_step E F cid s3 (At_server (Ev_run (Read_payload cid ?h) Proceed)) s4"
    using server_step_pair [of F "Read_payload cid ?h" s3 "(set_conn cid ?c2 (sy_srv s3))\<lparr>reply_gate := g\<rparr>"
        "[Dispatch cid ?n (arrived addr q), Session cid]" cid E] mem(2) p2 sz
    by (simp add: s3_def s4_def exec_def session_payload_def dispatch_rpc_def set_conn_def server_end_def)
  ultimately have "run (pair_step E F cid) s [At_server (Ev_run (Session cid) Proceed),
      At_server (Ev_run (Read_header cid) Proceed), At_server (Ev_run (Wait_memory cid ?h) Proceed),
      At_server (Ev_run (Read_payload cid ?h) Proceed)] s4"
    unfolding run_Cons_iff run_Nil_iff by blast
  then show ?thesis unfolding s4_def by (intro exI conjI) (assumption, simp)
qed

lemma server_answers:
  assumes laws: "env_istream F = list_istream" "env_xxh F = xxh" "semaphore_law F units" "gate_law F is_open"
    and srv: "sy_srv s = srv" "fibers srv = [Session cid]" "heap srv cid = Some c" "open_end c"
      "end_ok (dp_addr D) c" "conn_istream c = frame q" "server_ok D srv" "is_open (reply_gate srv)"
    and q: "sendable xxh q" "get_handle_for_request (dp_routes D) (ctx_request_id (arrived (dp_addr D) q)) = Some h"
      "rpc_filter_apply (dp_server_in D) (arrived (dp_addr D) q) = Inr q'"
      "hdr_compression (ctx_header q') = compression_flags_none" "h q' = Inr r"
      "rpc_filter_apply (dp_server_out D) r = Inr r'" "sendable xxh r'"
    and mem: "0 \<le> sint (units (resources_available (limits srv)))"
      "ucast (hdr_size (env_header q)) \<le> units (resources_available (limits srv))"
  shows "\<exists>evs srv'. run (pair_step E F cid) s evs (s\<lparr>sy_srv := srv'\<rparr>) \<and> list_all (good_event xxh D) evs \<and>
    heap srv' cid = Some (c\<lparr>conn_istream := [], conn_ostream := conn_ostream c @
      [Write (header_bytes (env_header r')), Write (env_body r'), Flush, Flush]\<rparr>) \<and>
    fibers srv' = [Session cid] \<and> is_open (reply_gate srv') \<and>
    units (resources_available (limits srv')) = units (resources_available (limits srv))"
proof -
  let ?n = "hdr_size (env_header q)" and ?ctx = "arrived (dp_addr D) q"
  from laws(3) mem obtain sem where sem: "sem_wait F (resources_available (limits srv)) (ucast ?n) = Some sem"
      "units sem = units (resources_available (limits srv)) - ucast ?n"
    unfolding semaphore_law_def by blast
  from laws(4) srv(8) obtain g where g: "gate_enter F (reply_gate srv) = Some g" "is_open g"
    by (auto simp: gate_law_def split: option.splits)
  let ?c = "c\<lparr>conn_istream := []\<rparr>"
  let ?srv = "srv\<lparr>limits := (limits srv)\<lparr>resources_available := sem\<rparr>, heap := (heap srv)(cid \<mapsto> ?c),
    reply_gate := g, fibers := [Dispatch cid ?n ?ctx, Session cid]\<rparr>"
  obtain evs1 where r1: "run (pair_step E F cid) s evs1 (s\<lparr>sy_srv := ?srv\<rparr>)" "list_all (good_event xxh D) evs1"
    using server_receives [OF laws(1,2) srv(1-6) q(1) sem(1) g(1)] by blast
  have meta: "ctx_request_id ?ctx \<noteq> 0"
    using q(1) by (simp add: ctx_request_id_def arrived_def sendable_def valid_header_def)
  have "\<not> is_eof (env_istream F) i" for i using laws(1) by (simp add: list_istream_def)
  moreover have "is_valid (env_istream F) ?c"
    using srv(4) laws(1) by (simp add: is_valid_def open_end_def has_error_def list_istream_def)
  ultimately obtain es t where t: "run (server_step F) ?srv es t" "list_all reads_nothing es"
    "answered F cid ?n ?ctx r' ?c ?srv t" "fibers t = [Session cid]"
    using request_dispatched [of F ?srv cid ?c ?ctx h q' r r' xxh "[]" ?n "[Session cid]"] meta q srv(7)
    by (auto simp: server_ok_def)
  have "run (pair_step E F cid) (s\<lparr>sy_srv := ?srv\<rparr>) (map At_server es) (s\<lparr>sy_srv := t\<rparr>) \<and>
      list_all (good_event xxh D) (map At_server es)"
    using server_run_pair [OF t(1,2), of "s\<lparr>sy_srv := ?srv\<rparr>"] by simp
  with r1 have "run (pair_step E F cid) s (evs1 @ map At_server es) (s\<lparr>sy_srv := t\<rparr>)"
    "list_all (good_event xxh D) (evs1 @ map At_server es)" using run_append by auto
  moreover have "(scast ?n :: u64) = ucast ?n"
  proof -
    have "length (env_body q) < 2 ^ 31" "?n = word_of_nat (length (env_body q))"
      using q(1) by (simp_all add: sendable_def consistent_letter_def)
    then have "unat ?n < 2 ^ 31" by simp
    then show ?thesis by (simp add: word_unat_eq_iff scast_small)
  qed
  then have "units (resources_available (limits t)) = units (resources_available (limits srv))"
    using laws(3) sem(2) t(3) by (simp add: answered_def semaphore_law_def)
  moreover have "is_open (reply_gate t)" using t(3) g(2) laws(4) by (simp add: answered_def gate_law_def)
  ultimately show ?thesis using t(3,4) by (intro exI conjI) (assumption, assumption, simp_all add: answered_def)
qed

text \<open>The client: from the reply on the stream to the resolved future.\<close>

lemma client_step_pair:
  assumes "exec_cfiber E Proceed [] f (sy_cl s) = Some (cl, fs)" "cfibers (sy_cl s) = xs @ f # ys"
    and "cli_ready (conn_istream (client_end s)) (Ev_cli_run f Proceed [])"
  shows "pair_step E F cid s (At_client (Ev_cli_run f Proceed [])) (s\<lparr>sy_cl := cl\<lparr>cfibers := xs @ fs @ ys\<rparr>\<rparr>)"
  using pair_step.at_client [OF cl_run [OF assms(2,1)] assms(3), of F cid] by simp

lemma client_receives:
  assumes laws: "env_istream E = list_istream" "env_xxh E = xxh" "gate_law E is_open"
    and cl: "sy_cl s = cl" "cfibers cl = [Reads, Await w m]" "rpc_slots cl = [(sess, w)]" "cli_conn cl = Some 0"
      "connections cl 0 = Some (c, tls)" "open_end c" "end_ok (0, 0) c" "conn_istream c = frame r"
      "is_open (dispatch_gate cl)" "read_counter cl \<noteq> 0"
    and r: "sendable xxh r" "hdr_session (env_header r) = sess"
      "rpc_filter_apply (cli_in_filters cl) (arrived (0, 0) r) = Inr ctx"
      "hdr_compression (ctx_header ctx) = compression_flags_none"
  shows "\<exists>evs cl'. run (pair_step E F cid) s evs (s\<lparr>sy_cl := cl'\<rparr>) \<and> list_all (good_event xxh D) evs \<and>
    cfibers cl' = [Reads] \<and> rpc_slots cl' = [] \<and> connections cl' 0 = Some (c\<lparr>conn_istream := []\<rparr>, tls) \<and>
    is_open (dispatch_gate cl') \<and> read_counter cl' = read_counter cl - 1 \<and> next_work cl' = next_work cl \<and>
    session_idx cl' = session_idx cl \<and> results cl' = (results cl)(w \<mapsto> Inr (Some ctx)) \<and>
    cli_limits cl' = cli_limits cl"
proof -
  let ?h = "normalise_compression (env_header r)" and ?a = "Await w m" and ?ctx = "arrived (0, 0) r"
  let ?c1 = "c\<lparr>conn_istream := env_body r\<rparr>" and ?c2 = "c\<lparr>conn_istream := []\<rparr>"
  have p1: "parse_header (env_dbg E) (env_istream E) c = (Inr (Some ?h), ?c1)"
    using header_read [OF _ _ r(1), of c "env_body r" "env_dbg E"] cl(7,8) laws(1) by (simp add: frame_def end_ok_def)
  have p2: "parse_payload (env_dbg E) (env_istream E) (env_xxh E) ?c1 ?h = (Inr (Some ?ctx), ?c2)"
    using payload_read [OF _ r(1), of ?c1 "[]" "(0, 0)" "env_dbg E"] cl(7) laws by (simp add: end_ok_def)
  have sz: "unat (hdr_size ?h) \<le> length (env_body r)"
    using r(1) by (simp add: sendable_def consistent_letter_def unat_of_nat)
  have len: "kHeaderSize \<le> length (frame r)" by (simp add: frame_def hdr.enc_length)
  have v: "is_conn_valid E cl" using conn_valid_open [OF laws(1) cl(4,5)] cl(6) by simp
  let ?up = "\<lambda>c'. (connections cl)(0 \<mapsto> (c', tls))"
  define s1 where "s1 = s\<lparr>sy_cl := cl\<lparr>cfibers := [Reply_header 0 True, ?a]\<rparr>\<rparr>"
  define s2 where "s2 = s\<lparr>sy_cl := cl\<lparr>connections := ?up ?c1, cfibers := [Reply_payload 0 ?h True, ?a]\<rparr>\<rparr>"
  define cl3 where "cl3 = cl\<lparr>connections := ?up ?c2, read_counter := read_counter cl - 1,
    promises := (promises cl)(w := Fulfilled (Some ?ctx)), rpc_slots := [], cfibers := [Reads, ?a]\<rparr>"
  define cl4 where "cl4 = cl3\<lparr>cfibers := [Reads, In_filters w m ?ctx]\<rparr>"
  define cl5 where "cl5 = (finish_call E w m (Inr (Some ctx)) cl3)\<lparr>cfibers := [Reads]\<rparr>"
  have "pair_step E F cid s (At_client (Ev_cli_run Reads Proceed [])) s1"
    using client_step_pair [of E Reads s cl "[Reply_header 0 True]" "[]" "[?a]" F cid] cl(1-4) v
    by (simp add: s1_def reads_loop_def)
  moreover have "pair_step E F cid s1 (At_client (Ev_cli_run (Reply_header 0 True) Proceed [])) s2"
    using client_step_pair [of E "Reply_header 0 True" s1 "upd_conn 0 (\<lambda>_. ?c1) (sy_cl s1)"
        "[Reply_payload 0 ?h True]" "[]" "[?a]" F cid] cl p1 len
    by (simp add: s1_def s2_def reply_header_def upd_conn_def client_end_def)
  moreover have "pair_step E F cid s2 (At_client (Ev_cli_run (Reply_payload 0 ?h True) Proceed [])) (s\<lparr>sy_cl := cl3\<rparr>)"
    using client_step_pair [of E "Reply_payload 0 ?h True" s2 "cl3\<lparr>cfibers := [Reply_payload 0 ?h True, ?a]\<rparr>"
        "[Reads]" "[]" "[?a]" F cid] cl p2 sz r(2)
    by (simp add: s2_def cl3_def reply_payload_def process_reply_def next_read_def upd_conn_def client_end_def)
  moreover have "run (client_step E) cl3 [Ev_cli_run ?a Proceed [], Ev_cli_run (In_filters w m ?ctx) Proceed []] cl5"
  proof -
    have "client_step E cl3 (Ev_cli_run ?a Proceed []) cl4"
      using cl_run [of cl3 "[Reads]" ?a "[]" E Proceed "[]" cl3 "[In_filters w m ?ctx]"]
      by (simp add: cl3_def cl4_def call_await_def)
    moreover have "client_step E cl4 (Ev_cli_run (In_filters w m ?ctx) Proceed []) cl5"
      using cl_run [of cl4 "[Reads]" "In_filters w m ?ctx" "[]" E Proceed "[]" "finish_call E w m (Inr (Some ctx)) cl4" "[]"] r(3,4)
      by (cases m) (simp_all add: cl3_def cl4_def cl5_def call_incoming_def finish_call_def leave_gate_def)
    ultimately show ?thesis by (auto simp: run_Cons_iff run_Nil_iff)
  qed
  from client_run_pair [OF this, of "s\<lparr>sy_cl := cl3\<rparr>" F cid xxh D]
  have "run (pair_step E F cid) (s\<lparr>sy_cl := cl3\<rparr>) (map At_client [Ev_cli_run ?a Proceed [],
    Ev_cli_run (In_filters w m ?ctx) Proceed []]) (s\<lparr>sy_cl := cl5\<rparr>)" by simp
  ultimately have "run (pair_step E F cid) s ([At_client (Ev_cli_run Reads Proceed []),
      At_client (Ev_cli_run (Reply_header 0 True) Proceed []), At_client (Ev_cli_run (Reply_payload 0 ?h True) Proceed [])] @
      map At_client [Ev_cli_run ?a Proceed [], Ev_cli_run (In_filters w m ?ctx) Proceed []]) (s\<lparr>sy_cl := cl5\<rparr>)"
    (is "run _ _ ?evs _") by (auto simp: run_Cons_iff)
  moreover have "is_open (gate_leave E (dispatch_gate cl))" using laws(3) cl(9) by (simp add: gate_law_def)
  ultimately show ?thesis
    by (intro exI [of _ ?evs] exI [of _ cl5]) (simp add: cl5_def cl3_def finish_call_def leave_gate_def)
qed

section \<open>A call\<close>

text \<open>
  Both sides are connected, with nothing on the way but the bytes \<open>bs\<close> that the server has not
  read yet, and the calls \<open>ws\<close>, by session, that wait for their answers. The free memory of
  the sides is \<open>B\<close> and \<open>C\<close>. No call is under way: \<open>quiet\<close>.
\<close>

definition at_rest ::
    "('sem \<Rightarrow> u64) \<Rightarrow> ('gate \<Rightarrow> bool) \<Rightarrow> ('sem2 \<Rightarrow> u64) \<Rightarrow> ('gate2 \<Rightarrow> bool) \<Rightarrow> u64 \<Rightarrow> u64 \<Rightarrow>
     bytes \<Rightarrow> (u16 \<times> nat) list \<Rightarrow> ('sem, 'gate, 'sem2, 'gate2) rpc_pair \<Rightarrow> bool" where
  "at_rest units is_open units' is_open' B C bs ws s \<longleftrightarrow>
     (\<exists>m. cfibers (sy_cl s) = Reads # map (\<lambda>(sess, w). Await w m) ws) \<and>
     rpc_slots (sy_cl s) = ws \<and> read_counter (sy_cl s) = of_nat (length ws) \<and>
     open_end (client_end s) \<and> conn_istream (client_end s) = [] \<and> sy_up s = length (sent_bytes (client_end s)) \<and>
     is_open (dispatch_gate (sy_cl s)) \<and> units (resources_available (cli_limits (sy_cl s))) = B \<and>
     fibers (sy_srv s) = [Session 1] \<and> open_end (server_end 1 s) \<and> conn_istream (server_end 1 s) = bs \<and>
     sy_down s = length (sent_bytes (server_end 1 s)) \<and>
     is_open' (reply_gate (sy_srv s)) \<and> units' (resources_available (limits (sy_srv s))) = C"

definition quiet ::
    "('sem \<Rightarrow> u64) \<Rightarrow> ('gate \<Rightarrow> bool) \<Rightarrow> ('sem2 \<Rightarrow> u64) \<Rightarrow> ('gate2 \<Rightarrow> bool) \<Rightarrow> u64 \<Rightarrow> u64 \<Rightarrow>
     ('sem, 'gate, 'sem2, 'gate2) rpc_pair \<Rightarrow> bool" where
  "quiet units is_open units' is_open' B C s \<longleftrightarrow> at_rest units is_open units' is_open' B C [] [] s"

text \<open>The message a call sends fits into the memory of both sides.\<close>

definition fits :: "deployment \<Rightarrow> u64 \<Rightarrow> u64 \<Rightarrow> rpc_envelope \<Rightarrow> bool" where
  "fits D B C e \<longleftrightarrow> (\<forall>sess e'. rpc_filter_apply (dp_client_out D) (mutate_session sess e) = Inr e' \<longrightarrow>
     word_of_nat (envelope_size e') \<le> B \<and> ucast (hdr_size (env_header e')) \<le> C)"

lemma direct_callE:
  assumes "direct_call D ins e = Some ctx"
  obtains e1 h q' r r' where "rpc_filter_apply (dp_client_out D) e = Inr e1"
    "get_handle_for_request (dp_routes D) (ctx_request_id (arrived (dp_addr D) e1)) = Some h"
    "rpc_filter_apply (dp_server_in D) (arrived (dp_addr D) e1) = Inr q'"
    "hdr_compression (ctx_header q') = compression_flags_none" "h q' = Inr r"
    "rpc_filter_apply (dp_server_out D) r = Inr r'" "rpc_filter_apply ins (arrived (0, 0) r') = Inr ctx"
    "hdr_compression (ctx_header ctx) = compression_flags_none"
proof -
  have right: "right x = Some y \<longleftrightarrow> x = Inr y" for x :: "'x res" and y by (cases x) simp_all
  from assms that show thesis
    by (auto simp: direct_call_def uncompressed_def Let_def right bind_eq_Some_conv split: if_splits)
qed

text \<open>The connection delivers everything that is on the way.\<close>

lemma delivers_up:
  assumes "drop (sy_up s) (sent_bytes (client_end s)) = bs" "heap (sy_srv s) cid = Some d"
  shows "pair_step E F cid s (Up (length bs))
    (s\<lparr>sy_srv := (sy_srv s)\<lparr>heap := (heap (sy_srv s))(cid \<mapsto> feed bs d)\<rparr>, sy_up := sy_up s + length bs\<rparr>)"
  using pair_step.up [where bs = bs and n = "length bs" and s = s and E = E and F = F and cid = cid] assms by (simp add: sent_bytes_def server_end_def set_conn_def)

lemma delivers_down:
  assumes "drop (sy_down s) (sent_bytes (server_end cid s)) = bs" "connections (sy_cl s) 0 = Some (c, tls)"
  shows "pair_step E F cid s (Down (length bs))
    (s\<lparr>sy_cl := (sy_cl s)\<lparr>connections := (connections (sy_cl s))(0 \<mapsto> (feed bs c, tls))\<rparr>,
       sy_down := sy_down s + length bs\<rparr>)"
  using pair_step.down [where bs = bs and n = "length bs" and s = s and E = E and F = F and cid = cid] assms by (simp add: sent_bytes_def upd_conn_def)

lemma system_parts:
  fixes s :: "('sem, 'gate, 'sem2, 'gate2) rpc_pair" and E :: "(bytes, 'sem, 'gate) seastar_env"
    and F :: "(bytes, 'sem2, 'gate2) seastar_env"
  assumes "system_inv xxh E F ins D s"
  obtains tls where "connections (sy_cl s) 0 = Some (client_end s, tls)" "cli_conn (sy_cl s) = Some 0"
    "cli_out_filters (sy_cl s) = dp_client_out D" "end_ok (0, 0) (client_end s)" "cli_in_filters (sy_cl s) = ins"
    "server_ok D (sy_srv s)" "heap (sy_srv s) 1 = Some (server_end 1 s)" "end_ok (dp_addr D) (server_end 1 s)"
proof -
  from assms have law: "env_istream E = list_istream" and inv: "pair_inv xxh D 1 s"
    and ins: "cli_in_filters (sy_cl s) = ins"
    by (simp_all add: system_inv_def pair_law_def futures_ok_def)
  obtain tls where c: "connections (sy_cl s) 0 = Some (client_end s, tls)"
    using pair_inv_at_work(3) [OF inv law] by blast
  moreover have "cli_conn (sy_cl s) = Some 0" "cli_out_filters (sy_cl s) = dp_client_out D" "end_ok (0, 0) (client_end s)"
    using inv c by (auto simp: pair_inv_def client_ok_def)
  ultimately show thesis using that ins kept_end [OF inv] by blast
qed

text \<open>The request of a call reaches the server.\<close>

lemma quiet_asks:
  fixes s :: "('sem, 'gate, 'sem2, 'gate2) rpc_pair"
  assumes laws: "semaphore_law E units" "gate_law E is_open"
    and s: "system_inv xxh E F ins D s" "quiet units is_open units' is_open' B C s"
    and e: "good_call xxh D e" "rpc_filter_apply (dp_client_out D) (mutate_session (session_idx (sy_cl s) + 1) e) = Inr e1"
    and mem: "0 \<le> sint B" "word_of_nat (envelope_size e1) \<le> B"
  shows "\<exists>evs t. run (pair_step E F 1) s evs t \<and> list_all (good_event xxh D) evs \<and>
    at_rest units is_open units' is_open' B C (frame e1) [(session_idx (sy_cl s) + 1, next_work (sy_cl s))] t \<and>
    results (sy_cl t) = results (sy_cl s) \<and> next_work (sy_cl t) = Suc (next_work (sy_cl s)) \<and>
    session_idx (sy_cl t) = session_idx (sy_cl s) + 1 \<and> sy_call t = (sy_call s)(next_work (sy_cl s) := e)"
proof -
  let ?cl = "sy_cl s" and ?srv = "sy_srv s" and ?c = "client_end s" and ?d = "server_end 1 s"
  let ?w = "next_work ?cl" and ?sess = "session_idx ?cl + 1"
  from s(1) have law: "env_istream E = list_istream" by (simp add: system_inv_def pair_law_def)
  obtain tls where parts: "connections ?cl 0 = Some (?c, tls)" "cli_conn ?cl = Some 0"
    "cli_out_filters ?cl = dp_client_out D" "heap ?srv 1 = Some ?d" using system_parts [OF s(1)] by blast
  from s(2) have q: "cfibers ?cl = [Reads]" "rpc_slots ?cl = []" "read_counter ?cl = 0" "open_end ?c"
    "conn_istream ?c = []" "sy_up s = length (sent_bytes ?c)" "is_open (dispatch_gate ?cl)"
    "units (resources_available (cli_limits ?cl)) = B" "fibers ?srv = [Session 1]" "open_end ?d"
    "conn_istream ?d = []" "sy_down s = length (sent_bytes ?d)" "is_open' (reply_gate ?srv)"
    "units' (resources_available (limits ?srv)) = C" by (simp_all add: quiet_def at_rest_def)
  let ?c2 = "?c\<lparr>conn_ostream := conn_ostream ?c @ [Write (header_bytes (env_header e1)), Write (env_body e1), Flush]\<rparr>"
  obtain es cl2 m where cl2: "run (client_step E) (send E e ?cl) es cl2" "list_all internal es"
    "cfibers cl2 = [Reads, Await ?w m]" "rpc_slots cl2 = [(?sess, ?w)]" "connections cl2 0 = Some (?c2, tls)"
    "is_open (dispatch_gate cl2)" "read_counter cl2 = 1" "next_work cl2 = Suc ?w"
    "session_idx cl2 = ?sess" "results cl2 = results ?cl" "units (resources_available (cli_limits cl2)) = B"
    using client_sends [OF laws law q(1,2) parts(2,1) q(4,7), of e e1 xxh] e parts(3) q(3,8) mem
    by (auto simp: good_call_def)
  define s1 where "s1 = s\<lparr>sy_cl := send E e ?cl, sy_call := (sy_call s)(?w := e)\<rparr>"
  define s2 where "s2 = s1\<lparr>sy_cl := cl2\<rparr>"
  define s3 where "s3 = s2\<lparr>sy_srv := ?srv\<lparr>heap := (heap ?srv)(1 \<mapsto> feed (frame e1) ?d)\<rparr>,
    sy_up := sy_up s + length (frame e1)\<rparr>"
  let ?evs = "At_client (Ev_send e) # map At_client es @ [Up (length (frame e1))]"
  have "pair_step E F 1 s (At_client (Ev_send e)) s1"
    using pair_step.at_client [where E = E and s = s and F = F and cid = 1, OF cl_send [of E _ e]] by (simp add: s1_def)
  moreover have "run (pair_step E F 1) s1 (map At_client es) s2 \<and> list_all (good_event xxh D) (map At_client es)"
    using client_run_pair [OF cl2(1,2), of s1 F 1 xxh D] by (simp add: s1_def s2_def)
  moreover have "pair_step E F 1 s2 (Up (length (frame e1))) s3"
    using delivers_up [of s2 "frame e1" 1 ?d E F] parts(4) q(6) cl2(5)
    by (simp add: s1_def s2_def s3_def sent_bytes_def client_end_def frame_def)
  ultimately have run: "run (pair_step E F 1) s ?evs s3" "list_all (good_event xxh D) ?evs"
    using e(1) by (auto simp: run_Cons_iff run_Nil_iff intro!: run_append)
  have ends: "client_end s3 = ?c2" "server_end 1 s3 = feed (frame e1) ?d"
    by (simp_all add: s3_def s2_def client_end_def server_end_def cl2(5))
  have "at_rest units is_open units' is_open' B C (frame e1) [(?sess, ?w)] s3"
    unfolding at_rest_def ends using q cl2
    by (simp add: s1_def s2_def s3_def open_end_def has_error_def sent_bytes_def frame_def feed_def)
  with run cl2(8-10) show ?thesis by (intro exI [of _ ?evs] exI [of _ s3]) (simp add: s1_def s2_def s3_def)
qed

text \<open>The server answers it, and the answer resolves the future.\<close>

lemma asked_answered:
  fixes s :: "('sem, 'gate, 'sem2, 'gate2) rpc_pair"
  assumes laws: "gate_law E is_open" "semaphore_law F units'" "gate_law F is_open'"
    and s: "system_inv xxh E F ins D s" "at_rest units is_open units' is_open' B C (frame q) [(sess, w)] s"
    and q: "sendable xxh q" "get_handle_for_request (dp_routes D) (ctx_request_id (arrived (dp_addr D) q)) = Some h"
      "rpc_filter_apply (dp_server_in D) (arrived (dp_addr D) q) = Inr q'"
      "hdr_compression (ctx_header q') = compression_flags_none" "h q' = Inr r"
      "rpc_filter_apply (dp_server_out D) r = Inr r'"
    and r: "sendable xxh r'" "hdr_session (env_header r') = sess" "rpc_filter_apply ins (arrived (0, 0) r') = Inr ctx"
      "hdr_compression (ctx_header ctx) = compression_flags_none"
    and mem: "0 \<le> sint C" "ucast (hdr_size (env_header q)) \<le> C"
  shows "\<exists>evs t. run (pair_step E F 1) s evs t \<and> list_all (good_event xxh D) evs \<and>
    quiet units is_open units' is_open' B C t \<and> results (sy_cl t) = (results (sy_cl s))(w \<mapsto> Inr (Some ctx)) \<and>
    next_work (sy_cl t) = next_work (sy_cl s) \<and> session_idx (sy_cl t) = session_idx (sy_cl s) \<and> sy_call t = sy_call s"
proof -
  let ?cl = "sy_cl s" and ?srv = "sy_srv s" and ?c = "client_end s" and ?d = "server_end 1 s"
  from s(1) have law: "env_istream E = list_istream" "env_istream F = list_istream" "env_xxh E = xxh" "env_xxh F = xxh"
    by (simp_all add: system_inv_def pair_law_def)
  obtain tls where parts: "connections ?cl 0 = Some (?c, tls)" "cli_conn ?cl = Some 0" "end_ok (0, 0) ?c"
    "cli_in_filters ?cl = ins" "server_ok D ?srv" "heap ?srv 1 = Some ?d" "end_ok (dp_addr D) ?d"
    using system_parts [OF s(1)] by blast
  from s(2) obtain m where at: "cfibers ?cl = [Reads, Await w m]" "rpc_slots ?cl = [(sess, w)]" "read_counter ?cl = 1"
    "open_end ?c" "conn_istream ?c = []" "is_open (dispatch_gate ?cl)" "units (resources_available (cli_limits ?cl)) = B"
    "fibers ?srv = [Session 1]" "open_end ?d" "conn_istream ?d = frame q" "is_open' (reply_gate ?srv)"
    "units' (resources_available (limits ?srv)) = C" "sy_up s = length (sent_bytes ?c)" "sy_down s = length (sent_bytes ?d)"
    by (auto simp: at_rest_def)
  let ?d4 = "?d\<lparr>conn_istream := [], conn_ostream := conn_ostream ?d @
      [Write (header_bytes (env_header r')), Write (env_body r'), Flush, Flush]\<rparr>"
  obtain es4 srv4 where srv4: "run (pair_step E F 1) s es4 (s\<lparr>sy_srv := srv4\<rparr>)" "list_all (good_event xxh D) es4"
    "heap srv4 1 = Some ?d4" "fibers srv4 = [Session 1]" "is_open' (reply_gate srv4)"
    "units' (resources_available (limits srv4)) = C"
    using server_answers [OF law(2,4) laws(2,3) refl at(8) parts(6) at(9) parts(7) at(10) parts(5) at(11) q r(1)]
      at(12) mem by blast
  define s4 where "s4 = s\<lparr>sy_srv := srv4\<rparr>"
  define cl5 where "cl5 = ?cl\<lparr>connections := (connections ?cl)(0 \<mapsto> (feed (frame r') ?c, tls))\<rparr>"
  define s5 where "s5 = s4\<lparr>sy_cl := cl5, sy_down := sy_down s + length (frame r')\<rparr>"
  have s45: "pair_step E F 1 s4 (Down (length (frame r'))) s5"
    using delivers_down [of s4 1 "frame r'" ?c tls E F] srv4(3) at(14) parts(1)
    by (simp add: s4_def s5_def cl5_def sent_bytes_def server_end_def frame_def)
  obtain es6 cl6 where cl6: "run (pair_step E F 1) s5 es6 (s5\<lparr>sy_cl := cl6\<rparr>)" "list_all (good_event xxh D) es6"
    "cfibers cl6 = [Reads]" "rpc_slots cl6 = []" "connections cl6 0 = Some (?c\<lparr>conn_istream := []\<rparr>, tls)"
    "is_open (dispatch_gate cl6)" "read_counter cl6 = 0" "next_work cl6 = next_work ?cl" "session_idx cl6 = session_idx ?cl"
    "results cl6 = (results ?cl)(w \<mapsto> Inr (Some ctx))" "cli_limits cl6 = cli_limits ?cl"
    using client_receives [OF law(1,3) laws(1), where s = s5 and cl = cl5 and c = "feed (frame r') ?c" and r = r' and F = F
        and cid = 1 and D = D and w = w and m = m and sess = sess and tls = tls and ctx = ctx] parts at r
    by (simp add: s5_def cl5_def open_end_def has_error_def feed_def end_ok_def) blast
  define t where "t = s5\<lparr>sy_cl := cl6\<rparr>"
  let ?evs = "es4 @ Down (length (frame r')) # es6"
  have run: "run (pair_step E F 1) s ?evs t" "list_all (good_event xxh D) ?evs"
    using srv4(1,2) s45 cl6(1,2) by (auto simp: s4_def [symmetric] t_def intro!: run_append run_cons)
  have ends: "client_end t = ?c\<lparr>conn_istream := []\<rparr>" "server_end 1 t = ?d4"
    by (simp_all add: t_def s5_def s4_def client_end_def server_end_def cl6(5) srv4(3))
  have "quiet units is_open units' is_open' B C t"
    unfolding quiet_def at_rest_def ends using at cl6 srv4
    by (simp add: t_def s5_def s4_def open_end_def has_error_def sent_bytes_def frame_def)
  with run cl6(8-10) show ?thesis by (intro exI [of _ ?evs] exI [of _ t]) (simp add: t_def s5_def s4_def)
qed

lemma quiet_call:
  fixes s :: "('sem, 'gate, 'sem2, 'gate2) rpc_pair"
  assumes laws: "semaphore_law E units" "gate_law E is_open" "semaphore_law F units'" "gate_law F is_open'"
    and s: "system_inv xxh E F ins D s" "quiet units is_open units' is_open' B C s" "0 \<le> sint B" "0 \<le> sint C"
    and e: "good_call xxh D e" "fits D B C e"
      "direct_call D ins (mutate_session (session_idx (sy_cl s) + 1) e) = Some ctx"
  shows "\<exists>evs t. run (pair_step E F 1) s evs t \<and> list_all (good_event xxh D) evs \<and>
    quiet units is_open units' is_open' B C t \<and>
    results (sy_cl t) = (results (sy_cl s))(next_work (sy_cl s) \<mapsto> Inr (Some ctx)) \<and>
    next_work (sy_cl t) = Suc (next_work (sy_cl s)) \<and> session_idx (sy_cl t) = session_idx (sy_cl s) + 1 \<and>
    sy_call t = (sy_call s)(next_work (sy_cl s) := e)"
proof -
  let ?sess = "session_idx (sy_cl s) + 1" and ?w = "next_work (sy_cl s)"
  from e(3) obtain e1 h q' r r' where call: "rpc_filter_apply (dp_client_out D) (mutate_session ?sess e) = Inr e1"
    "get_handle_for_request (dp_routes D) (ctx_request_id (arrived (dp_addr D) e1)) = Some h"
    "rpc_filter_apply (dp_server_in D) (arrived (dp_addr D) e1) = Inr q'"
    "hdr_compression (ctx_header q') = compression_flags_none" "h q' = Inr r"
    "rpc_filter_apply (dp_server_out D) r = Inr r'" "rpc_filter_apply ins (arrived (0, 0) r') = Inr ctx"
    "hdr_compression (ctx_header ctx) = compression_flags_none" by (rule direct_callE)
  from e(1) call(1) have e1: "sendable xxh e1" "hdr_session (env_header e1) = ?sess" by (auto simp: good_call_def)
  from s(1) have "good_services xxh D" by (simp add: system_inv_def pair_law_def)
  with call have r': "sendable xxh r'" "hdr_session (env_header r') = ?sess"
    unfolding good_services_def using e1(2) by (metis arrived_simps)+
  from e(2) call(1) have mem: "word_of_nat (envelope_size e1) \<le> B" "ucast (hdr_size (env_header e1)) \<le> C"
    by (auto simp: fits_def)
  obtain es1 t1 where t1: "run (pair_step E F 1) s es1 t1" "list_all (good_event xxh D) es1"
      "at_rest units is_open units' is_open' B C (frame e1) [(?sess, ?w)] t1" "results (sy_cl t1) = results (sy_cl s)"
      "next_work (sy_cl t1) = Suc ?w" "session_idx (sy_cl t1) = ?sess" "sy_call t1 = (sy_call s)(?w := e)"
    using quiet_asks [OF laws(1,2) s(1,2) e(1) call(1) s(3) mem(1)] by blast
  have inv: "system_inv xxh E F ins D t1" by (rule linked.inv_run_from [OF t1(1) s(1) t1(2)])
  obtain es2 t2 where t2: "run (pair_step E F 1) t1 es2 t2" "list_all (good_event xxh D) es2"
      "quiet units is_open units' is_open' B C t2" "results (sy_cl t2) = (results (sy_cl t1))(?w \<mapsto> Inr (Some ctx))"
      "next_work (sy_cl t2) = next_work (sy_cl t1)" "session_idx (sy_cl t2) = session_idx (sy_cl t1)"
      "sy_call t2 = sy_call t1"
    using asked_answered [OF laws(2-4) inv t1(3) e1(1) call(2-6) r' call(7,8) s(4) mem(2)] by blast
  from t1 t2 show ?thesis by (intro exI [of _ "es1 @ es2"] exI [of _ t2]) (auto intro: run_append)
qed

section \<open>Any list of calls\<close>

text \<open>The call number \<open>w\<close> of a client carries the session \<open>w + 1\<close>, at the width of a session.\<close>

definition nth_direct_call ::
    "deployment \<Rightarrow> (rpc_recv_context \<Rightarrow> rpc_recv_context res) list \<Rightarrow> nat \<Rightarrow> rpc_envelope \<Rightarrow> rpc_recv_context option" where
  "nth_direct_call D ins w e = direct_call D ins (mutate_session (word_of_nat (Suc w)) e)"

lemma quiet_calls:
  fixes s :: "('sem, 'gate, 'sem2, 'gate2) rpc_pair"
  assumes laws: "semaphore_law E units" "gate_law E is_open" "semaphore_law F units'" "gate_law F is_open'"
    and B: "0 \<le> sint B" "0 \<le> sint C"
    and s: "system_inv xxh E F ins D s" "quiet units is_open units' is_open' B C s"
      "session_idx (sy_cl s) = word_of_nat (next_work (sy_cl s))"
    and es: "\<forall>e \<in> set es. good_call xxh D e \<and> fits D B C e"
      "\<forall>i < length es. nth_direct_call D ins (next_work (sy_cl s) + i) (es ! i) \<noteq> None"
  shows "\<exists>evs t. run (pair_step E F 1) s evs t \<and> list_all (good_event xxh D) evs \<and>
    next_work (sy_cl t) = next_work (sy_cl s) + length es \<and>
    (\<forall>w < next_work (sy_cl s). results (sy_cl t) w = results (sy_cl s) w \<and> sy_call t w = sy_call s w) \<and>
    (\<forall>i < length es. sy_call t (next_work (sy_cl s) + i) = es ! i \<and>
       results (sy_cl t) (next_work (sy_cl s) + i) = Some (Inr (nth_direct_call D ins (next_work (sy_cl s) + i) (es ! i))))"
  using s es
proof (induction es arbitrary: s)
  case Nil
  then show ?case by (intro exI [of _ "[]"] exI [of _ s]) (simp add: run_Nil_iff)
next
  case (Cons e es)
  let ?w = "next_work (sy_cl s)"
  from Cons.prems(5) obtain ctx where ctx: "nth_direct_call D ins ?w e = Some ctx" by force
  then have "direct_call D ins (mutate_session (session_idx (sy_cl s) + 1) e) = Some ctx"
    by (simp add: nth_direct_call_def Cons.prems(3) add.commute)
  with Cons.prems obtain es1 t1 where t1: "run (pair_step E F 1) s es1 t1" "list_all (good_event xxh D) es1"
      "quiet units is_open units' is_open' B C t1" "results (sy_cl t1) = (results (sy_cl s))(?w \<mapsto> Inr (Some ctx))"
      "next_work (sy_cl t1) = Suc ?w" "session_idx (sy_cl t1) = session_idx (sy_cl s) + 1" "sy_call t1 = (sy_call s)(?w := e)"
    using quiet_call [OF laws Cons.prems(1,2) B, of e ctx] by auto
  have "system_inv xxh E F ins D t1" by (rule linked.inv_run_from [OF t1(1) Cons.prems(1) t1(2)])
  moreover have "nth_direct_call D ins (next_work (sy_cl t1) + i) (es ! i) \<noteq> None" if "i < length es" for i
    using Cons.prems(5) [rule_format, of "Suc i"] that t1(5) by simp
  ultimately obtain es2 t2 where t2: "run (pair_step E F 1) t1 es2 t2" "list_all (good_event xxh D) es2"
      "next_work (sy_cl t2) = Suc ?w + length es"
      "\<And>w. w < Suc ?w \<Longrightarrow> results (sy_cl t2) w = results (sy_cl t1) w \<and> sy_call t2 w = sy_call t1 w"
      "\<And>i. i < length es \<Longrightarrow> sy_call t2 (Suc ?w + i) = es ! i \<and>
        results (sy_cl t2) (Suc ?w + i) = Some (Inr (nth_direct_call D ins (Suc ?w + i) (es ! i)))"
    using Cons.IH [of t1] Cons.prems(3,4) t1(3,5,6) by (auto simp: add.commute)
  have "sy_call t2 (?w + i) = (e # es) ! i \<and> results (sy_cl t2) (?w + i) =
      Some (Inr (nth_direct_call D ins (?w + i) ((e # es) ! i)))" if "i < length (e # es)" for i
    using that t2(4) [of ?w] t2(5) [of "i - 1"] t1(4,7) ctx by (cases i) simp_all
  with t1 t2 show ?case by (intro exI [of _ "es1 @ es2"] exI [of _ t2]) (auto intro: run_append)
qed

lemma linked_pair_quiet:
  assumes "semaphore_law E units" "gate_law E is_open" "semaphore_law F units'" "gate_law F is_open'"
  shows "quiet units is_open units' is_open' (copt_memory_avail_for_client opts) (arg_memory_avail_per_core as)
    (linked_pair E F opts ins as D)"
proof -
  from assms(2) obtain g where g: "gate_enter E (gate_init E) = Some g" "is_open g" "is_open (gate_init E)"
    by (auto simp: gate_law_def split: option.splits)
  have "is_open' (gate_init F)" "units (sem_init E n) = n" "units' (sem_init F n) = n" for n
    using assms by (simp_all add: gate_law_def semaphore_law_def)
  moreover have "cfibers (linked_client E opts ins D) = [Reads]" "read_counter (linked_client E opts ins D) = 0"
    "dispatch_gate (linked_client E opts ins D) = g"
    "resources_available (cli_limits (linked_client E opts ins D)) = sem_init E (copt_memory_avail_for_client opts)"
    using g(1) by (simp_all add: linked_client_def connected_def configured_client_def rpc_client_new_def
        rpc_connection_limits_new_def Let_def)
  moreover have "reply_gate (linked_server F as D) = gate_init F"
    "resources_available (limits (linked_server F as D)) = sem_init F (arg_memory_avail_per_core as)"
    by (simp_all add: linked_server_def accept_connection_def start_def configured_server_def rpc_server_new_def
        rpc_connection_limits_new_def upd_stats_def Let_def)
  moreover have accepted: "open_end (rpc_server_connection_new [] a os)" for a os
    by (simp add: rpc_server_connection_new_def rpc_connection_new_def open_end_def has_error_def socket_do_def
        Let_def split: prod.splits)
  ultimately show ?thesis using g(2)
    by (simp add: quiet_def at_rest_def linked_pair_def client_end_def server_end_def linked_client_simps
        linked_server_simps new_connections sent_bytes_def accepted)
qed


section \<open>Three calls\<close>

definition example_calls :: "rpc_envelope list" where
  "example_calls = [example_message 0 [1, 2], example_message 0 [3], example_message 0 [4, 5, 6]]"

lemma example_direct:
  assumes "bs \<noteq> []" "length bs < 10"
  shows "nth_direct_call example_deployment [] w (example_message 0 bs) =
    Some (arrived (0, 0) (example_message (word_of_nat (Suc w)) bs))"
  using assms example_route
  by (simp add: nth_direct_call_def direct_call_def uncompressed_def example_deployment_simps example_message_simps
      example_handled ctx_request_id_def ctx_session_def arrived_def Let_def)

lemma example_debug_laws:
  "semaphore_law example_debug_env (\<lambda>u. u)" "gate_law example_debug_env (\<lambda>g. \<not> snd g)"
  "semaphore_law example_env (\<lambda>u. u)" "gate_law example_env (\<lambda>g. \<not> snd g)"
  using example_laws by (simp_all add: laws_def semaphore_law_def gate_law_def example_debug_env_def)

lemma example_calls_fit:
  "\<forall>e \<in> set example_calls. good_call example_xxh example_deployment e \<and>
     fits example_deployment (copt_memory_avail_for_client example_opts) (arg_memory_avail_per_core example_server_args) e"
  by (auto simp: example_calls_def good_call_def fits_def example_deployment_simps example_message_simps
      example_opts_def rpc_client_opts_default_def example_server_args_def intro!: example_message_sendable)


end
