(* ===== verification/Smf_Logging.thy ===== *)
theory Smf_Logging
  imports Smf_Utilities
begin

text \<open>
  The logging macros (log.h), each one as a function of the place it is used at, the condition
  and the arguments it is given, and the state of the program and of the logger. The condition
  and the arguments are expressions, which may change the state of the program: a macro that
  does not mention them in its expansion does not evaluate them. \<open>ndebug\<close> is the macro NDEBUG. The
  logger and the formatting functions are parameters.
\<close>

section \<open>Loggers\<close>

datatype log_level =
    Level_error
  | Level_warn
  | Level_info
  | Level_debug
  | Level_trace

text \<open>
  \<open>buffer_c_str m\<close> is the C string at the address of a buffer that holds \<open>m\<close>. \<open>args_first\<close>: the
  compiler evaluates the last argument of a call first.
\<close>

record 'l log_ops =
  lg_is_enabled :: "log_level \<Rightarrow> 'l \<Rightarrow> bool"
  lg_log :: "log_level \<Rightarrow> string \<Rightarrow> fmt_arg list \<Rightarrow> 'l \<Rightarrow> 'l"
  lg_set_level :: "log_level \<Rightarrow> 'l \<Rightarrow> 'l"
  reg_set_logger_level :: "string \<Rightarrow> log_level \<Rightarrow> 'l \<Rightarrow> 'l"
  fmt_format_to :: "string \<Rightarrow> fmt_arg list \<Rightarrow> string res"
  fmt_sprintf :: "string \<Rightarrow> fmt_arg list \<Rightarrow> string"
  buffer_c_str :: "string \<Rightarrow> string"
  args_first :: bool

record ('w, 'l) log_state =
  prog :: 'w
  logger :: 'l

record log_site =
  site_file :: string
  site_line :: int
  site_cond :: string
  site_format :: string

type_synonym 'w cond_expr = "'w \<Rightarrow> bool \<times> 'w"
type_synonym 'w args_expr = "'w \<Rightarrow> fmt_arg list \<times> 'w"

definition app_run_log_level :: "'l log_ops \<Rightarrow> log_level \<Rightarrow> ('w, 'l) log_state \<Rightarrow> ('w, 'l) log_state" where
  "app_run_log_level O' l s =
     s\<lparr>logger := reg_set_logger_level O' ''smf'' l (lg_set_level O' l (logger s))\<rparr>"

text \<open>A call of a function of the logger: the arguments, then the line.\<close>

definition site_args :: "log_site \<Rightarrow> fmt_arg list \<Rightarrow> fmt_arg list" where
  "site_args site xs = Arg_str (filename_macro (site_file site)) # Arg_int (site_line site) # xs"

definition log_line ::
    "'l log_ops \<Rightarrow> log_level \<Rightarrow> string \<Rightarrow> log_site \<Rightarrow> 'w args_expr \<Rightarrow> ('w, 'l) log_state \<Rightarrow>
     ('w, 'l) log_state" where
  "log_line O' l fmt site args s =
     (let (xs, w) = args (prog s)
      in s\<lparr>prog := w, logger := lg_log O' l fmt (site_args site xs) (logger s)\<rparr>)"

section \<open>The macros that always log\<close>

definition LOG_INFO ::
    "'l log_ops \<Rightarrow> log_site \<Rightarrow> 'w args_expr \<Rightarrow> ('w, 'l) log_state \<Rightarrow> ('w, 'l) log_state" where
  "LOG_INFO O' site args s = log_line O' Level_info (''{}:{}] '' @ site_format site) site args s"

definition LOG_ERROR ::
    "'l log_ops \<Rightarrow> log_site \<Rightarrow> 'w args_expr \<Rightarrow> ('w, 'l) log_state \<Rightarrow> ('w, 'l) log_state" where
  "LOG_ERROR O' site args s = log_line O' Level_error (''{}:{}] '' @ site_format site) site args s"

definition LOG_WARN ::
    "'l log_ops \<Rightarrow> log_site \<Rightarrow> 'w args_expr \<Rightarrow> ('w, 'l) log_state \<Rightarrow> ('w, 'l) log_state" where
  "LOG_WARN O' site args s = log_line O' Level_warn (''{}:{}] '' @ site_format site) site args s"

definition LOG_DEBUG ::
    "'l log_ops \<Rightarrow> log_site \<Rightarrow> 'w args_expr \<Rightarrow> ('w, 'l) log_state \<Rightarrow> ('w, 'l) log_state" where
  "LOG_DEBUG O' site args s = log_line O' Level_debug (''{}:{}] '' @ site_format site) site args s"

definition LOG_TRACE ::
    "'l log_ops \<Rightarrow> log_site \<Rightarrow> 'w args_expr \<Rightarrow> ('w, 'l) log_state \<Rightarrow> ('w, 'l) log_state" where
  "LOG_TRACE O' site args s =
     (if lg_is_enabled O' Level_trace (logger s)
      then log_line O' Level_trace (''{}:{}] '' @ site_format site) site args s
      else s)"

text \<open>
  The macros that throw format into a buffer, hand the C string at its address to the logger,
  as the format of a line without arguments, and throw it.
\<close>

definition throw_line ::
    "'l log_ops \<Rightarrow> string \<Rightarrow> log_site \<Rightarrow> 'w args_expr \<Rightarrow> ('w, 'l) log_state \<Rightarrow>
     unit res \<times> ('w, 'l) log_state" where
  "throw_line O' fmt site args s =
     (let (xs, w) = args (prog s); s1 = s\<lparr>prog := w\<rparr>
      in case fmt_format_to O' fmt (site_args site xs) of
           Inl ex \<Rightarrow> (Inl ex, s1)
         | Inr m \<Rightarrow> (Inl (Runtime_error (buffer_c_str O' m)),
                     s1\<lparr>logger := lg_log O' Level_error (buffer_c_str O' m) [] (logger s)\<rparr>))"

definition LOG_THROW ::
    "'l log_ops \<Rightarrow> log_site \<Rightarrow> 'w args_expr \<Rightarrow> ('w, 'l) log_state \<Rightarrow> unit res \<times> ('w, 'l) log_state" where
  "LOG_THROW O' site args s = throw_line O' (''{}:{}] '' @ site_format site) site args s"

text \<open>The null check formats with \<^verbatim>\<open>sprintf\<close>, which has no braces.\<close>

definition throw_if_null_logged ::
    "'l log_ops \<Rightarrow> string \<Rightarrow> int \<Rightarrow> string \<Rightarrow> 't option \<Rightarrow> ('w, 'l) log_state \<Rightarrow> 't res \<times> ('w, 'l) log_state" where
  "throw_if_null_logged O' file line names t s =
     (throw_if_null (fmt_sprintf O') file line names t,
      if t = None
      then s\<lparr>logger := lg_log O' Level_error
        (fmt_sprintf O' ''{}:{}] check_not_null({})'' [Arg_str file, Arg_int line, Arg_str names]) [] (logger s)\<rparr>
      else s)"

definition THROW_IFNULL ::
    "'l log_ops \<Rightarrow> log_site \<Rightarrow> 't option \<Rightarrow> ('w, 'l) log_state \<Rightarrow> 't res \<times> ('w, 'l) log_state" where
  "THROW_IFNULL O' site val s =
     throw_if_null_logged O' (site_file site) (site_line site)
       (CHR 0x27 # site_cond site @ CHR 0x27 # '' Must be non NULL'') val s"

section \<open>The macros with a condition\<close>

definition log_line_if ::
    "'l log_ops \<Rightarrow> log_level \<Rightarrow> string \<Rightarrow> log_site \<Rightarrow> 'w cond_expr \<Rightarrow> 'w args_expr \<Rightarrow>
     ('w, 'l) log_state \<Rightarrow> ('w, 'l) log_state" where
  "log_line_if O' l pre site condition args s =
     (let (b, w) = condition (prog s); s1 = s\<lparr>prog := w\<rparr>
      in if b then log_line O' l (pre @ ''{}:{}] ('' @ site_cond site @ '') '' @ site_format site) site args s1
         else s1)"

definition LOG_INFO_IF ::
    "'l log_ops \<Rightarrow> log_site \<Rightarrow> 'w cond_expr \<Rightarrow> 'w args_expr \<Rightarrow> ('w, 'l) log_state \<Rightarrow> ('w, 'l) log_state" where
  "LOG_INFO_IF O' site condition args s = log_line_if O' Level_info '''' site condition args s"

definition LOG_ERROR_IF ::
    "'l log_ops \<Rightarrow> log_site \<Rightarrow> 'w cond_expr \<Rightarrow> 'w args_expr \<Rightarrow> ('w, 'l) log_state \<Rightarrow> ('w, 'l) log_state" where
  "LOG_ERROR_IF O' site condition args s = log_line_if O' Level_error '''' site condition args s"

definition LOG_DEBUG_IF ::
    "'l log_ops \<Rightarrow> log_site \<Rightarrow> 'w cond_expr \<Rightarrow> 'w args_expr \<Rightarrow> ('w, 'l) log_state \<Rightarrow> ('w, 'l) log_state" where
  "LOG_DEBUG_IF O' site condition args s = log_line_if O' Level_debug '''' site condition args s"

definition LOG_WARN_IF ::
    "'l log_ops \<Rightarrow> log_site \<Rightarrow> 'w cond_expr \<Rightarrow> 'w args_expr \<Rightarrow> ('w, 'l) log_state \<Rightarrow> ('w, 'l) log_state" where
  "LOG_WARN_IF O' site condition args s = log_line_if O' Level_warn '''' site condition args s"

definition LOG_TRACE_IF ::
    "'l log_ops \<Rightarrow> log_site \<Rightarrow> 'w cond_expr \<Rightarrow> 'w args_expr \<Rightarrow> ('w, 'l) log_state \<Rightarrow> ('w, 'l) log_state" where
  "LOG_TRACE_IF O' site condition args s = log_line_if O' Level_trace '''' site condition args s"

definition throw_line_if ::
    "'l log_ops \<Rightarrow> string \<Rightarrow> log_site \<Rightarrow> 'w cond_expr \<Rightarrow> 'w args_expr \<Rightarrow> ('w, 'l) log_state \<Rightarrow>
     unit res \<times> ('w, 'l) log_state" where
  "throw_line_if O' pre site condition args s =
     (let (b, w) = condition (prog s); s1 = s\<lparr>prog := w\<rparr>
      in if b then throw_line O' (pre @ ''{}:{}] ('' @ site_cond site @ '') '' @ site_format site) site args s1
         else (Inr (), s1))"

definition LOG_THROW_IF ::
    "'l log_ops \<Rightarrow> log_site \<Rightarrow> 'w cond_expr \<Rightarrow> 'w args_expr \<Rightarrow> ('w, 'l) log_state \<Rightarrow>
     unit res \<times> ('w, 'l) log_state" where
  "LOG_THROW_IF O' site condition args s = throw_line_if O' '''' site condition args s"

section \<open>The macros of debug builds\<close>

definition DTHROW_IFNULL ::
    "bool \<Rightarrow> 'l log_ops \<Rightarrow> log_site \<Rightarrow> 't option \<Rightarrow> ('w, 'l) log_state \<Rightarrow> 't option res \<times> ('w, 'l) log_state" where
  "DTHROW_IFNULL ndebug O' site val s =
     (if ndebug then (Inr val, s)
      else let (r, s1) = throw_if_null_logged O' (site_file site) (site_line site)
             (''D '' @ CHR 0x27 # site_cond site @ CHR 0x27 # '' Must be non NULL'') val s
           in (rbind r (\<lambda>p. Inr (Some p)), s1))"

definition DLOG_THROW ::
    "bool \<Rightarrow> 'l log_ops \<Rightarrow> log_site \<Rightarrow> 'w args_expr \<Rightarrow> ('w, 'l) log_state \<Rightarrow>
     unit res \<times> ('w, 'l) log_state" where
  "DLOG_THROW ndebug O' site args s =
     (if ndebug then (Inr (), s) else throw_line O' (''D {}:{}] '' @ site_format site) site args s)"

definition DLOG_INFO ::
    "bool \<Rightarrow> 'l log_ops \<Rightarrow> log_site \<Rightarrow> 'w args_expr \<Rightarrow> ('w, 'l) log_state \<Rightarrow> ('w, 'l) log_state" where
  "DLOG_INFO ndebug O' site args s =
     (if ndebug then s else log_line O' Level_info (''D {}:{}] '' @ site_format site) site args s)"

definition DLOG_ERROR ::
    "bool \<Rightarrow> 'l log_ops \<Rightarrow> log_site \<Rightarrow> 'w args_expr \<Rightarrow> ('w, 'l) log_state \<Rightarrow> ('w, 'l) log_state" where
  "DLOG_ERROR ndebug O' site args s =
     (if ndebug then s else log_line O' Level_error (''D {}:{}] '' @ site_format site) site args s)"

definition DLOG_WARN ::
    "bool \<Rightarrow> 'l log_ops \<Rightarrow> log_site \<Rightarrow> 'w args_expr \<Rightarrow> ('w, 'l) log_state \<Rightarrow> ('w, 'l) log_state" where
  "DLOG_WARN ndebug O' site args s =
     (if ndebug then s else log_line O' Level_warn (''D {}:{}] '' @ site_format site) site args s)"

definition DLOG_DEBUG ::
    "bool \<Rightarrow> 'l log_ops \<Rightarrow> log_site \<Rightarrow> 'w args_expr \<Rightarrow> ('w, 'l) log_state \<Rightarrow> ('w, 'l) log_state" where
  "DLOG_DEBUG ndebug O' site args s =
     (if ndebug then s else log_line O' Level_debug (''D {}:{}] '' @ site_format site) site args s)"

definition DLOG_TRACE ::
    "bool \<Rightarrow> 'l log_ops \<Rightarrow> log_site \<Rightarrow> 'w args_expr \<Rightarrow> ('w, 'l) log_state \<Rightarrow> ('w, 'l) log_state" where
  "DLOG_TRACE ndebug O' site args s =
     (if ndebug then s
      else if lg_is_enabled O' Level_trace (logger s)
      then log_line O' Level_trace (''D {}:{}] '' @ site_format site) site args s
      else s)"

definition DLOG_INFO_IF ::
    "bool \<Rightarrow> 'l log_ops \<Rightarrow> log_site \<Rightarrow> 'w cond_expr \<Rightarrow> 'w args_expr \<Rightarrow> ('w, 'l) log_state \<Rightarrow>
     ('w, 'l) log_state" where
  "DLOG_INFO_IF ndebug O' site condition args s =
     (if ndebug then s else log_line_if O' Level_info ''D '' site condition args s)"

definition DLOG_ERROR_IF ::
    "bool \<Rightarrow> 'l log_ops \<Rightarrow> log_site \<Rightarrow> 'w cond_expr \<Rightarrow> 'w args_expr \<Rightarrow> ('w, 'l) log_state \<Rightarrow>
     ('w, 'l) log_state" where
  "DLOG_ERROR_IF ndebug O' site condition args s =
     (if ndebug then s else log_line_if O' Level_error ''D '' site condition args s)"

definition DLOG_WARN_IF ::
    "bool \<Rightarrow> 'l log_ops \<Rightarrow> log_site \<Rightarrow> 'w cond_expr \<Rightarrow> 'w args_expr \<Rightarrow> ('w, 'l) log_state \<Rightarrow>
     ('w, 'l) log_state" where
  "DLOG_WARN_IF ndebug O' site condition args s =
     (if ndebug then s else log_line_if O' Level_warn ''D '' site condition args s)"

definition DLOG_DEBUG_IF ::
    "bool \<Rightarrow> 'l log_ops \<Rightarrow> log_site \<Rightarrow> 'w cond_expr \<Rightarrow> 'w args_expr \<Rightarrow> ('w, 'l) log_state \<Rightarrow>
     ('w, 'l) log_state" where
  "DLOG_DEBUG_IF ndebug O' site condition args s =
     (if ndebug then s else log_line_if O' Level_debug ''D '' site condition args s)"

definition DLOG_TRACE_IF ::
    "bool \<Rightarrow> 'l log_ops \<Rightarrow> log_site \<Rightarrow> 'w cond_expr \<Rightarrow> 'w args_expr \<Rightarrow> ('w, 'l) log_state \<Rightarrow>
     ('w, 'l) log_state" where
  "DLOG_TRACE_IF ndebug O' site condition args s =
     (if ndebug then s else log_line_if O' Level_trace ''D '' site condition args s)"

text \<open>
  Without the debug checks the condition and the arguments are passed to a function that does
  nothing: they are evaluated, in the order the compiler chooses.
\<close>

definition noop :: "'l log_ops \<Rightarrow> 'w cond_expr \<Rightarrow> 'w args_expr \<Rightarrow> ('w, 'l) log_state \<Rightarrow> ('w, 'l) log_state" where
  "noop O' condition args s =
     s\<lparr>prog := (if args_first O' then snd (condition (snd (args (prog s))))
                else snd (args (snd (condition (prog s)))))\<rparr>"

definition DLOG_THROW_IF ::
    "bool \<Rightarrow> 'l log_ops \<Rightarrow> log_site \<Rightarrow> 'w cond_expr \<Rightarrow> 'w args_expr \<Rightarrow> ('w, 'l) log_state \<Rightarrow>
     unit res \<times> ('w, 'l) log_state" where
  "DLOG_THROW_IF ndebug O' site condition args s =
     (if ndebug then (Inr (), noop O' condition args s)
      else throw_line_if O' ''D '' site condition args s)"

section \<open>What a line says\<close>

text \<open>
  What is relied on of the formatting library: a pair of braces stands for the next argument,
  characters that are not braces stand for themselves.
\<close>

fun fmt_text :: "(int \<Rightarrow> string) \<Rightarrow> fmt_arg \<Rightarrow> string" where
  "fmt_text show_int (Arg_str x) = x"
| "fmt_text show_int (Arg_int n) = show_int n"

definition brace :: "char \<Rightarrow> bool" where
  "brace c \<longleftrightarrow> c = CHR ''{'' \<or> c = CHR ''}''"

definition fmt_law :: "'l log_ops \<Rightarrow> (int \<Rightarrow> string) \<Rightarrow> bool" where
  "fmt_law O' show_int \<longleftrightarrow>
     (\<forall>f x xs. fmt_format_to O' (''{}'' @ f) (x # xs) =
        rbind (fmt_format_to O' f xs) (\<lambda>m. Inr (fmt_text show_int x @ m))) \<and>
     (\<forall>c f xs. \<not> brace c \<longrightarrow> fmt_format_to O' (c # f) xs = rbind (fmt_format_to O' f xs) (\<lambda>m. Inr (c # m)))"

lemma fmt_plain:
  assumes "fmt_law O' show_int" "list_all (\<lambda>c. \<not> brace c) t"
  shows "fmt_format_to O' (t @ f) xs = rbind (fmt_format_to O' f xs) (\<lambda>m. Inr (t @ m))"
  using assms(2)
proof (induction t)
  case (Cons c t)
  with assms(1) show ?case by (simp add: fmt_law_def rbind_assoc)
qed simp

definition site_prefix :: "(int \<Rightarrow> string) \<Rightarrow> log_site \<Rightarrow> string" where
  "site_prefix show_int site = filename_macro (site_file site) @ '':'' @ show_int (site_line site) @ ''] ''"

lemma fmt_site:
  assumes "fmt_law O' show_int"
  shows "fmt_format_to O' (''{}:{}] '' @ f) (site_args site xs) =
    rbind (fmt_format_to O' f xs) (\<lambda>m. Inr (site_prefix show_int site @ m))"
proof -
  have "fmt_format_to O' (''{}'' @ '':'' @ ''{}'' @ ''] '' @ f) (site_args site xs) =
    rbind (fmt_format_to O' f xs) (\<lambda>m. Inr (site_prefix show_int site @ m))"
    using assms fmt_plain [OF assms, of "'':''"] fmt_plain [OF assms, of "''] ''"]
    by (simp add: fmt_law_def site_args_def site_prefix_def rbind_assoc brace_def del: append.simps)
  then show ?thesis by simp
qed

text \<open>
  \<^verbatim>\<open>LOG_THROW_IF\<close> throws, when its condition holds, an error that names the file, the line, the
  condition and the message, and hands the same text to the logger as a format; when the
  condition does not hold it evaluates nothing else. \<^verbatim>\<open>DLOG_THROW_IF\<close> does the same in a debug
  build, with a mark in front.
\<close>

lemma throw_line_if_text:
  assumes law: "fmt_law O' show_int" and c: "condition (prog s) = (b, w)" and a: "args w = (xs, w')"
    and f: "fmt_format_to O' (site_format site) xs = Inr m"
    and plain: "list_all (\<lambda>c. \<not> brace c) (site_cond site)" "list_all (\<lambda>c. \<not> brace c) pre"
  shows "throw_line_if O' pre site condition args s =
    (if b
     then let text = buffer_c_str O' (pre @ site_prefix show_int site @ ''('' @ site_cond site @ '') '' @ m)
          in (Inl (Runtime_error text), \<lparr>prog = w', logger = lg_log O' Level_error text [] (logger s)\<rparr>)
     else (Inr (), s\<lparr>prog := w\<rparr>))"
proof -
  have "fmt_format_to O' (''('' @ site_cond site @ '') '' @ site_format site) xs =
      Inr (''('' @ site_cond site @ '') '' @ m)"
    using f fmt_plain [OF law, of "''(''"] fmt_plain [OF law plain(1)] fmt_plain [OF law, of "'') ''"]
    by (simp add: brace_def del: append.simps)
  then have "fmt_format_to O' (pre @ ''{}:{}] '' @ ''('' @ site_cond site @ '') '' @ site_format site) (site_args site xs) =
      Inr (pre @ site_prefix show_int site @ ''('' @ site_cond site @ '') '' @ m)"
    using fmt_site [OF law] fmt_plain [OF law plain(2)] by (simp del: append.simps)
  with c a show ?thesis by (cases s) (simp add: throw_line_if_def throw_line_def Let_def)
qed

text \<open>An instance: a logger that is the list of its lines, and a formatter for plain braces.\<close>

fun fmt_braces :: "(int \<Rightarrow> string) \<Rightarrow> string \<Rightarrow> fmt_arg list \<Rightarrow> string res" where
  "fmt_braces show_int [] xs = Inr []"
| "fmt_braces show_int (c # f) xs =
     (if \<not> brace c then rbind (fmt_braces show_int f xs) (\<lambda>m. Inr (c # m))
      else case (f, xs) of
        (d # f', x # xs') \<Rightarrow>
          if c = CHR ''{'' \<and> d = CHR ''}''
          then rbind (fmt_braces show_int f' xs') (\<lambda>m. Inr (fmt_text show_int x @ m))
          else Inl (Runtime_error ''invalid format'')
      | _ \<Rightarrow> Inl (Runtime_error ''invalid format''))"

definition list_log_ops :: "(log_level \<times> string) list log_ops" where
  "list_log_ops = \<lparr>lg_is_enabled = (\<lambda>l ls. l \<noteq> Level_trace),
     lg_log = (\<lambda>l f xs ls. case fmt_braces (\<lambda>n. ''n'') f xs of Inl ex \<Rightarrow> ls | Inr m \<Rightarrow> ls @ [(l, m)]),
     lg_set_level = (\<lambda>l ls. ls), reg_set_logger_level = (\<lambda>n l ls. ls),
     fmt_format_to = fmt_braces (\<lambda>n. ''n''), fmt_sprintf = (\<lambda>f xs. f), buffer_c_str = (\<lambda>m. m), args_first = False\<rparr>"

lemma list_log_ops_law: "fmt_law list_log_ops (\<lambda>n. ''n'')"
  by (simp add: fmt_law_def list_log_ops_def brace_def)

text \<open>
  A text with braces is thrown as it is, but the logger takes it for a format: with such a
  logger the error is thrown and nothing is logged.
\<close>

lemma braces_not_logged:
  "LOG_THROW list_log_ops \<lparr>site_file = ''a/b.cc'', site_line = 7, site_cond = [], site_format = ''bad {}''\<rparr>
     (\<lambda>w. ([Arg_str ''{}''], w)) \<lparr>prog = w, logger = []\<rparr> =
   (Inl (Runtime_error ''b.cc:n] bad {}''), \<lparr>prog = w, logger = []\<rparr>)"
proof -
  have "filename_macro ''a/b.cc'' = ''b.cc''" using filename_macro_base [of "''b.cc''" "''a''"] by simp
  then show ?thesis
    by (simp add: LOG_THROW_def throw_line_def list_log_ops_def site_args_def brace_def)
qed

section \<open>Debug builds and release builds\<close>

datatype dlog_kind =
    D_INFO
  | D_ERROR
  | D_WARN
  | D_DEBUG
  | D_TRACE
  | D_THROW
  | D_INFO_IF
  | D_ERROR_IF
  | D_DEBUG_IF
  | D_WARN_IF
  | D_TRACE_IF
  | D_THROW_IF

fun dlog ::
    "dlog_kind \<Rightarrow> bool \<Rightarrow> 'l log_ops \<Rightarrow> log_site \<Rightarrow> 'w cond_expr \<Rightarrow> 'w args_expr \<Rightarrow> ('w, 'l) log_state \<Rightarrow>
     unit res \<times> ('w, 'l) log_state" where
  "dlog D_INFO nd O' site condition args s = (Inr (), DLOG_INFO nd O' site args s)"
| "dlog D_ERROR nd O' site condition args s = (Inr (), DLOG_ERROR nd O' site args s)"
| "dlog D_WARN nd O' site condition args s = (Inr (), DLOG_WARN nd O' site args s)"
| "dlog D_DEBUG nd O' site condition args s = (Inr (), DLOG_DEBUG nd O' site args s)"
| "dlog D_TRACE nd O' site condition args s = (Inr (), DLOG_TRACE nd O' site args s)"
| "dlog D_THROW nd O' site condition args s = DLOG_THROW nd O' site args s"
| "dlog D_INFO_IF nd O' site condition args s = (Inr (), DLOG_INFO_IF nd O' site condition args s)"
| "dlog D_ERROR_IF nd O' site condition args s = (Inr (), DLOG_ERROR_IF nd O' site condition args s)"
| "dlog D_DEBUG_IF nd O' site condition args s = (Inr (), DLOG_DEBUG_IF nd O' site condition args s)"
| "dlog D_WARN_IF nd O' site condition args s = (Inr (), DLOG_WARN_IF nd O' site condition args s)"
| "dlog D_TRACE_IF nd O' site condition args s = (Inr (), DLOG_TRACE_IF nd O' site condition args s)"
| "dlog D_THROW_IF nd O' site condition args s = DLOG_THROW_IF nd O' site condition args s"

lemmas dlog_defs = DLOG_INFO_def DLOG_ERROR_def DLOG_WARN_def DLOG_DEBUG_def DLOG_TRACE_def DLOG_THROW_def
  DLOG_INFO_IF_def DLOG_ERROR_IF_def DLOG_DEBUG_IF_def DLOG_WARN_IF_def DLOG_TRACE_IF_def DLOG_THROW_IF_def
  log_line_def log_line_if_def throw_line_def throw_line_if_def noop_def

text \<open>
  Whether a program is built with or without the debug macros makes no difference to its state
  as long as their conditions and arguments have no effect: a release build runs past each of
  them with nothing changed, and a debug build only adds to the log, or throws where the macro
  says so and its condition holds.
\<close>

lemma dlog_transparent:
  assumes "\<And>w. snd (condition w) = w" "\<And>w. snd (args w) = w"
  shows "prog (snd (dlog k nd O' site condition args s)) = prog s"
    "dlog k True O' site condition args s = (Inr (), s)"
    "fst (dlog k nd O' site condition args s) \<noteq> Inr () \<Longrightarrow>
      \<not> nd \<and> (k = D_THROW \<or> k = D_THROW_IF \<and> fst (condition (prog s)))"
proof -
  obtain b xs where e: "condition (prog s) = (b, prog s)" "args (prog s) = (xs, prog s)"
    using assms by (metis prod.collapse)
  show "prog (snd (dlog k nd O' site condition args s)) = prog s"
    by (cases k) (auto simp: dlog_defs e Let_def split: sum.splits)
  show "dlog k True O' site condition args s = (Inr (), s)"
    by (cases k) (auto simp: dlog_defs assms)
  show "\<not> nd \<and> (k = D_THROW \<or> k = D_THROW_IF \<and> fst (condition (prog s)))"
    if "fst (dlog k nd O' site condition args s) \<noteq> Inr ()"
    using that by (cases k) (auto simp: dlog_defs e Let_def split: sum.splits if_splits)
qed

text \<open>
  The macros differ when the condition has an effect: a release build does not evaluate it,
  except for \<^verbatim>\<open>DLOG_THROW_IF\<close>, which evaluates the condition and also the arguments, whether or
  not the condition holds.
\<close>

lemma release_evaluates_throw_if:
  assumes "\<not> args_first O'"
  shows "prog (snd (dlog k True O' site condition args s)) =
    (if k = D_THROW_IF then snd (args (snd (condition (prog s)))) else prog s)"
  using assms by (cases k) (auto simp: dlog_defs)

end
