(* ===== verification/Histogram_Objects.thy ===== *)
theory Histogram_Objects
  imports Histogram
begin

text \<open>
  The objects behind a histogram (histogram.h, histogram.cc): a \<^verbatim>\<open>histogram\<close> owns a \<^verbatim>\<open>hist_t\<close>
  on the heap, which owns a structure of the hdr_histogram library. Constructors, moves and
  destructors are operations on an explicit store, in which closing a structure twice and
  using a histogram that was moved from are errors. Then the scope guard as an object, and the
  printing of a histogram and its file (histogram_seastar_utils.cc).
\<close>

section \<open>The store\<close>

text \<open>
  \<open>st_hdrs\<close> has the structures of the library that are open, \<open>st_objs\<close> the \<^verbatim>\<open>hist_t\<close> objects and
  \<open>st_vars\<close> the histograms, each with its \<^verbatim>\<open>unique_ptr\<close>, None when it is null.
\<close>

record hist_obj =
  ho_hist :: "nat option"
  ho_sample_count :: u64
  ho_sample_sum :: u64

record 'h hist_store =
  st_hdrs :: "nat \<rightharpoonup> 'h"
  st_objs :: "nat \<rightharpoonup> hist_obj"
  st_vars :: "nat \<rightharpoonup> nat option"
  st_next :: nat

definition hist_store_empty :: "'h hist_store" where
  "hist_store_empty = \<lparr>st_hdrs = Map.empty, st_objs = Map.empty, st_vars = Map.empty, st_next = 0\<rparr>"

text \<open>The constructor of \<^verbatim>\<open>hist_t\<close>: the pointer stays null when the library has no memory.\<close>

definition hist_t_new :: "('h, 'it) hdr_lib \<Rightarrow> int \<Rightarrow> 'h hist_store \<Rightarrow> nat \<times> 'h hist_store" where
  "hist_t_new L max_value s =
     (let a = st_next s; k = Suc a;
          obj = \<lparr>ho_hist = (if hdr_init L max_value = None then None else Some a),
                 ho_sample_count = 0, ho_sample_sum = 0\<rparr>
      in (k, s\<lparr>st_hdrs := (st_hdrs s)(a := hdr_init L max_value), st_objs := (st_objs s)(k \<mapsto> obj),
               st_next := Suc k\<rparr>))"

text \<open>The move constructor of \<^verbatim>\<open>hist_t\<close>: moving a pointer copies it, and the counters start at 0.\<close>

definition hist_t_move :: "nat \<Rightarrow> 'h hist_store \<Rightarrow> (nat \<times> 'h hist_store) res" where
  "hist_t_move k s = (case st_objs s k of
       None \<Rightarrow> Inl (Undefined_behaviour ''hist_t that does not exist'')
     | Some obj \<Rightarrow>
         Inr (st_next s, s\<lparr>st_objs := (st_objs s)(st_next s \<mapsto>
                \<lparr>ho_hist = ho_hist obj, ho_sample_count = 0, ho_sample_sum = 0\<rparr>),
              st_next := Suc (st_next s)\<rparr>))"

definition close_hdr :: "nat option \<Rightarrow> 'h hist_store \<Rightarrow> 'h hist_store res" where
  "close_hdr p s = (case p of
       None \<Rightarrow> Inr s
     | Some a \<Rightarrow> if st_hdrs s a = None then Inl (Undefined_behaviour ''histogram closed twice'')
                 else Inr (s\<lparr>st_hdrs := (st_hdrs s)(a := None)\<rparr>))"

definition hist_t_delete :: "nat \<Rightarrow> 'h hist_store \<Rightarrow> 'h hist_store res" where
  "hist_t_delete k s = (case st_objs s k of
       None \<Rightarrow> Inl (Undefined_behaviour ''hist_t deleted twice'')
     | Some obj \<Rightarrow> rbind (close_hdr (ho_hist obj) s) (\<lambda>s1. Inr (s1\<lparr>st_objs := (st_objs s1)(k := None)\<rparr>)))"

section \<open>Histograms\<close>

definition histogram_new :: "('h, 'it) hdr_lib \<Rightarrow> int \<Rightarrow> 'h hist_store \<Rightarrow> nat \<times> 'h hist_store" where
  "histogram_new L max_value s =
     (let (k, s1) = hist_t_new L max_value s; v = st_next s1
      in (v, s1\<lparr>st_vars := (st_vars s1)(v \<mapsto> Some k), st_next := Suc v\<rparr>))"

text \<open>The dereference of \<^verbatim>\<open>hist_\<close>, and of the pointer in it.\<close>

definition deref_hist :: "nat \<Rightarrow> 'h hist_store \<Rightarrow> (nat \<times> hist_obj) res" where
  "deref_hist v s = (case st_vars s v of
       Some (Some k) \<Rightarrow> (case st_objs s k of
           None \<Rightarrow> Inl (Undefined_behaviour ''hist_t that was deleted'')
         | Some obj \<Rightarrow> Inr (k, obj))
     | _ \<Rightarrow> Inl (Undefined_behaviour ''histogram that was moved from''))"

definition deref_hdr :: "nat \<Rightarrow> 'h hist_store \<Rightarrow> (nat \<times> hist_obj \<times> nat \<times> 'h) res" where
  "deref_hdr v s = rbind (deref_hist v s) (\<lambda>(k, obj). case ho_hist obj of
       None \<Rightarrow> Inl (Undefined_behaviour ''histogram without memory'')
     | Some a \<Rightarrow> (case st_hdrs s a of
           None \<Rightarrow> Inl (Undefined_behaviour ''histogram that was closed'')
         | Some h \<Rightarrow> Inr (k, obj, a, h)))"

text \<open>\<^verbatim>\<open>make_unique\<close> and \<^verbatim>\<open>make_lw_shared\<close>.\<close>

definition make_histogram :: "('h, 'it) hdr_lib \<Rightarrow> int \<Rightarrow> 'h hist_store \<Rightarrow> (nat \<times> 'h hist_store) res" where
  "make_histogram L max_value s =
     (let (v, s1) = histogram_new L max_value s
      in rbind (deref_hist v s1) (\<lambda>(k, obj).
           if ho_hist obj = None then Inl Assertion_failed else Inr (v, s1)))"

definition histogram_move :: "nat \<Rightarrow> 'h hist_store \<Rightarrow> (nat \<times> 'h hist_store) res" where
  "histogram_move v s = (case st_vars s v of
       None \<Rightarrow> Inl (Undefined_behaviour ''histogram that does not exist'')
     | Some p \<Rightarrow> Inr (st_next s,
         s\<lparr>st_vars := (st_vars s)(v \<mapsto> None, st_next s \<mapsto> p), st_next := Suc (st_next s)\<rparr>))"

definition reset_ptr :: "nat option \<Rightarrow> 'h hist_store \<Rightarrow> 'h hist_store res" where
  "reset_ptr p s = (case p of None \<Rightarrow> Inr s | Some k \<Rightarrow> hist_t_delete k s)"

text \<open>The move assignment releases the pointer of the source first, then replaces the target's.\<close>

definition histogram_assign :: "nat \<Rightarrow> nat \<Rightarrow> 'h hist_store \<Rightarrow> 'h hist_store res" where
  "histogram_assign v o' s = (case (st_vars s v, st_vars s o') of
       (Some _, Some p) \<Rightarrow>
         (let s1 = s\<lparr>st_vars := (st_vars s)(o' \<mapsto> None)\<rparr>; old = the (st_vars s1 v)
          in reset_ptr old (s1\<lparr>st_vars := (st_vars s1)(v \<mapsto> p)\<rparr>))
     | _ \<Rightarrow> Inl (Undefined_behaviour ''histogram that does not exist''))"

definition histogram_delete :: "nat \<Rightarrow> 'h hist_store \<Rightarrow> 'h hist_store res" where
  "histogram_delete v s = (case st_vars s v of
       None \<Rightarrow> Inl (Undefined_behaviour ''histogram that does not exist'')
     | Some p \<Rightarrow> reset_ptr p (s\<lparr>st_vars := (st_vars s)(v := None)\<rparr>))"

text \<open>The operations on the values, with the functions of Histogram on the structure.\<close>

definition upd_hist ::
    "('h hist_t \<Rightarrow> 'h hist_t) \<Rightarrow> nat \<Rightarrow> 'h hist_store \<Rightarrow> 'h hist_store res" where
  "upd_hist f v s = rbind (deref_hdr v s) (\<lambda>(k, obj, a, h).
     let t = f \<lparr>ht_hist = h, ht_sample_count = ho_sample_count obj, ht_sample_sum = ho_sample_sum obj\<rparr>
     in Inr (s\<lparr>st_hdrs := (st_hdrs s)(a \<mapsto> ht_hist t),
               st_objs := (st_objs s)(k \<mapsto> obj\<lparr>ho_sample_count := ht_sample_count t,
                 ho_sample_sum := ht_sample_sum t\<rparr>)\<rparr>))"

definition histogram_plus :: "('h, 'it) hdr_lib \<Rightarrow> nat \<Rightarrow> nat \<Rightarrow> 'h hist_store \<Rightarrow> 'h hist_store res" where
  "histogram_plus L v o' s = rbind (deref_hdr o' s) (\<lambda>(k, obj, a, h).
     upd_hist (\<lambda>t. histogram_add L t \<lparr>ht_hist = h, ht_sample_count = 0, ht_sample_sum = 0\<rparr>) v s)"

definition value_at :: "('h \<Rightarrow> 'p \<Rightarrow> int) \<Rightarrow> 'p \<Rightarrow> nat \<Rightarrow> 'h hist_store \<Rightarrow> int res" where
  "value_at hdr_value_at_percentile percentile v s =
     rbind (deref_hdr v s) (\<lambda>(k, obj, a, h). Inr (hdr_value_at_percentile h percentile))"

definition hist_stddev :: "('h \<Rightarrow> 'd) \<Rightarrow> nat \<Rightarrow> 'h hist_store \<Rightarrow> 'd res" where
  "hist_stddev hdr_stddev v s = rbind (deref_hdr v s) (\<lambda>(k, obj, a, h). Inr (hdr_stddev h))"

definition hist_mean :: "('h \<Rightarrow> 'd) \<Rightarrow> nat \<Rightarrow> 'h hist_store \<Rightarrow> 'd res" where
  "hist_mean hdr_mean v s = rbind (deref_hdr v s) (\<lambda>(k, obj, a, h). Inr (hdr_mean h))"

definition memory_size :: "('h \<Rightarrow> nat) \<Rightarrow> nat \<Rightarrow> 'h hist_store \<Rightarrow> nat res" where
  "memory_size hdr_get_memory_size v s =
     rbind (deref_hdr v s) (\<lambda>(k, obj, a, h). Inr (hdr_get_memory_size h))"

text \<open>\<^verbatim>\<open>get\<close>: the pointer, after an assertion that the histogram was not moved from.\<close>

definition histogram_get :: "nat \<Rightarrow> 'h hist_store \<Rightarrow> nat option res" where
  "histogram_get v s = (case st_vars s v of
       Some (Some k) \<Rightarrow> rbind (deref_hist v s) (\<lambda>(k, obj). Inr (ho_hist obj))
     | _ \<Rightarrow> Inl Assertion_failed)"

section \<open>Ownership\<close>

datatype hist_event =
    H_make int
  | H_move nat
  | H_assign nat nat
  | H_delete nat
  | H_record nat u64
  | H_plus nat nat

inductive hist_step ::
    "('h, 'it) hdr_lib \<Rightarrow> 'h hist_store \<Rightarrow> hist_event \<Rightarrow> 'h hist_store \<Rightarrow> bool" for L where
  h_make: "make_histogram L m s = Inr (v, t) \<Longrightarrow> hist_step L s (H_make m) t"
| h_move: "histogram_move v s = Inr (w, t) \<Longrightarrow> hist_step L s (H_move v) t"
| h_assign: "histogram_assign v w s = Inr t \<Longrightarrow> hist_step L s (H_assign v w) t"
| h_delete: "histogram_delete v s = Inr t \<Longrightarrow> hist_step L s (H_delete v) t"
| h_record: "upd_hist (record_value L x) v s = Inr t \<Longrightarrow> hist_step L s (H_record v x) t"
| h_plus: "histogram_plus L v w s = Inr t \<Longrightarrow> hist_step L s (H_plus v w) t"

text \<open>
  \<open>heap_ok K s\<close>: the \<^verbatim>\<open>hist_t\<close> objects are those in \<open>K\<close>, and each open structure belongs to
  exactly one of them. \<open>vars_ok s\<close>: no two histograms share an object.
\<close>

definition hdr_of :: "'h hist_store \<Rightarrow> nat \<Rightarrow> nat" where
  "hdr_of s k = the (ho_hist (the (st_objs s k)))"

definition heap_ok :: "nat set \<Rightarrow> 'h hist_store \<Rightarrow> bool" where
  "heap_ok K s \<longleftrightarrow> dom (st_objs s) = K \<and> (\<forall>k\<in>K. ho_hist (the (st_objs s k)) \<noteq> None) \<and>
     inj_on (hdr_of s) K \<and> dom (st_hdrs s) = hdr_of s ` K \<and>
     (\<forall>x \<in> dom (st_hdrs s). x < st_next s) \<and> (\<forall>x \<in> K. x < st_next s)"

definition pointers :: "(nat \<rightharpoonup> nat option) \<Rightarrow> nat set" where
  "pointers vs = {k. \<exists>v. vs v = Some (Some k)}"

definition vars_ok :: "(nat \<rightharpoonup> nat option) \<Rightarrow> bool" where
  "vars_ok vs \<longleftrightarrow> (\<forall>v w k. vs v = Some (Some k) \<longrightarrow> vs w = Some (Some k) \<longrightarrow> v = w)"

definition store_ok :: "'h hist_store \<Rightarrow> bool" where
  "store_ok s \<longleftrightarrow> heap_ok (pointers (st_vars s)) s \<and> vars_ok (st_vars s) \<and> (\<forall>x \<in> dom (st_vars s). x < st_next s)"

lemma hdr_of_frame [simp]:
  "hdr_of (s\<lparr>st_vars := vs\<rparr>) = hdr_of s" "hdr_of (s\<lparr>st_next := n\<rparr>) = hdr_of s"
  "hdr_of (s\<lparr>st_hdrs := hs\<rparr>) = hdr_of s"
  by (simp_all add: hdr_of_def fun_eq_iff)

lemma heap_ok_frame [simp]:
  "heap_ok K (s\<lparr>st_vars := vs\<rparr>) = heap_ok K s"
  "heap_ok K (s\<lparr>st_vars := vs, st_next := n\<rparr>) = heap_ok K (s\<lparr>st_next := n\<rparr>)"
  by (simp_all add: heap_ok_def)

lemma heap_ok_next:
  assumes "heap_ok K s" "st_next s \<le> n"
  shows "heap_ok K (s\<lparr>st_next := n\<rparr>)"
proof -
  have "x < n" if "x \<in> dom (st_hdrs s) \<or> x \<in> K" for x
    using assms that unfolding heap_ok_def by (meson less_le_trans)
  with assms(1) show ?thesis unfolding heap_ok_def by simp
qed

lemma pointers_drop:
  assumes "vars_ok vs" "vs v = Some p" "x = None \<or> x = Some None"
  shows "pointers (vs(v := x)) = pointers vs - set_option p" "vars_ok (vs(v := x))"
proof -
  show "vars_ok (vs(v := x))" using assms by (auto simp: vars_ok_def)
  have "k \<in> pointers (vs(v := x)) \<longleftrightarrow> k \<in> pointers vs \<and> p \<noteq> Some k" for k
  proof -
    have "w \<noteq> v" if "vs w = Some (Some k)" "p \<noteq> Some k" for w using that assms(2) by auto
    moreover have "w = v" if "vs w = Some (Some k)" "p = Some k" for w
      using that assms(1,2) by (auto simp: vars_ok_def)
    ultimately show ?thesis using assms(3) unfolding pointers_def by (auto simp: fun_upd_apply)
  qed
  then show "pointers (vs(v := x)) = pointers vs - set_option p" by auto
qed

lemma pointers_put:
  assumes "vars_ok vs" "vs v = None \<or> vs v = Some None" "\<And>k. p = Some k \<Longrightarrow> k \<notin> pointers vs"
  shows "pointers (vs(v \<mapsto> p)) = pointers vs \<union> set_option p" "vars_ok (vs(v \<mapsto> p))"
proof -
  have "w \<noteq> v" if "vs w = Some (Some k)" for w k using that assms(2) by auto
  then show "pointers (vs(v \<mapsto> p)) = pointers vs \<union> set_option p" unfolding pointers_def by (auto simp: fun_upd_apply)
  show "vars_ok (vs(v \<mapsto> p))" using assms by (auto simp: vars_ok_def pointers_def)
qed

lemma hist_t_delete_ok:
  assumes "heap_ok K s" "k \<in> K"
  shows "\<exists>t. hist_t_delete k s = Inr t \<and> heap_ok (K - {k}) t \<and> st_vars t = st_vars s \<and> st_next t = st_next s"
proof -
  let ?a = "hdr_of s k"
  from assms(1) have ok: "dom (st_objs s) = K" "\<forall>k\<in>K. ho_hist (the (st_objs s k)) \<noteq> None"
    "inj_on (hdr_of s) K" "dom (st_hdrs s) = hdr_of s ` K" by (simp_all add: heap_ok_def)
  from ok(1) assms(2) obtain obj where obj: "st_objs s k = Some obj" by blast
  with ok(2) assms(2) have a: "ho_hist obj = Some ?a" by (force simp: hdr_of_def)
  from ok(4) assms(2) have h: "st_hdrs s ?a \<noteq> None" by blast
  let ?t = "s\<lparr>st_hdrs := (st_hdrs s)(?a := None), st_objs := (st_objs s)(k := None)\<rparr>"
  have same: "hdr_of ?t x = hdr_of s x" if "x \<in> K - {k}" for x using that by (simp add: hdr_of_def)
  have im: "hdr_of ?t ` (K - {k}) = hdr_of s ` (K - {k})" by (rule image_cong [OF refl same])
  have "inj_on (hdr_of ?t) (K - {k})" using ok(3) same by (simp add: inj_on_def)
  moreover have "dom (st_hdrs ?t) = hdr_of ?t ` (K - {k})"
    unfolding im using inj_on_image_set_diff [OF ok(3), of K "{k}"] ok(4) assms(2) by auto
  moreover have "\<forall>x \<in> K. x < st_next s" "\<forall>x \<in> dom (st_hdrs ?t). x < st_next s"
    using assms(1) by (simp_all add: heap_ok_def)
  moreover have "dom (st_objs ?t) = K - {k}" "\<forall>x \<in> K - {k}. ho_hist (the (st_objs ?t x)) \<noteq> None"
    using ok(1,2) by auto
  ultimately have "heap_ok (K - {k}) ?t" unfolding heap_ok_def by simp
  moreover have "hist_t_delete k s = Inr ?t" using obj a h by (simp add: hist_t_delete_def close_hdr_def)
  ultimately show ?thesis by simp
qed

lemma reset_ptr_ok:
  assumes "heap_ok K s" "\<And>k. p = Some k \<Longrightarrow> k \<in> K"
  shows "\<exists>t. reset_ptr p s = Inr t \<and> heap_ok (K - set_option p) t \<and> st_vars t = st_vars s \<and> st_next t = st_next s"
  using assms hist_t_delete_ok [OF assms(1)] by (cases p) (auto simp: reset_ptr_def)

lemma store_okE:
  assumes "store_ok s"
  obtains "heap_ok (pointers (st_vars s)) s" "vars_ok (st_vars s)" "st_vars s (st_next s) = None"
    "\<And>v p. st_vars s v = Some p \<Longrightarrow> v < st_next s"
  using assms by (force simp: store_ok_def)

lemma hist_t_new_ok:
  assumes "heap_ok K s" "hdr_init L m = Some h" "hist_t_new L m s = (k, t)"
  shows "heap_ok (insert k K) t" "k \<notin> K" "st_vars t = st_vars s" "k = Suc (st_next s)" "st_next t = Suc k"
    "\<exists>obj. st_objs t k = Some obj \<and> ho_hist obj \<noteq> None"
proof -
  let ?a = "st_next s"
  have t: "k = Suc ?a" "t = s\<lparr>st_hdrs := (st_hdrs s)(?a \<mapsto> h),
      st_objs := (st_objs s)(k \<mapsto> \<lparr>ho_hist = Some ?a, ho_sample_count = 0, ho_sample_sum = 0\<rparr>), st_next := Suc k\<rparr>"
    using assms(2,3) by (auto simp: hist_t_new_def Let_def)
  have lt: "\<forall>x \<in> K. x < ?a" "\<forall>x \<in> hdr_of s ` K. x < ?a" using assms(1) by (simp_all add: heap_ok_def)
  then have fresh: "k \<notin> K" "?a \<notin> hdr_of s ` K" using t(1) by auto
  have hd: "hdr_of t k = ?a" "\<And>x. x \<in> K \<Longrightarrow> hdr_of t x = hdr_of s x" using fresh(1) by (auto simp: t hdr_of_def)
  then have im: "hdr_of t ` insert k K = insert ?a (hdr_of s ` K)" by simp
  have "inj_on (hdr_of t) (insert k K)"
    using assms(1) hd fresh unfolding inj_on_insert by (auto simp: heap_ok_def inj_on_def)
  moreover have "dom (st_objs t) = insert k K" "dom (st_hdrs t) = insert ?a (dom (st_hdrs s))" "st_next t = Suc k"
    using assms(1) by (auto simp: t heap_ok_def)
  moreover have "\<forall>x \<in> insert k K. ho_hist (the (st_objs t x)) \<noteq> None"
    using assms(1) fresh(1) by (auto simp: t heap_ok_def)
  moreover have "dom (st_hdrs s) = hdr_of s ` K" using assms(1) by (simp add: heap_ok_def)
  moreover have "\<forall>x \<in> insert k K. x < Suc k" "\<forall>x \<in> insert ?a (hdr_of s ` K). x < Suc k"
    using lt t(1) by auto
  ultimately show "heap_ok (insert k K) t" unfolding heap_ok_def im by simp
  show "k \<notin> K" by (rule fresh(1))
qed (use assms(2,3) in \<open>auto simp: hist_t_new_def Let_def\<close>)

lemma make_ok:
  assumes "store_ok s" "make_histogram L m s = Inr (v, t)"
  shows "store_ok t"
proof -
  obtain k s1 where k: "hist_t_new L m s = (k, s1)" by fastforce
  obtain h where h: "hdr_init L m = Some h"
    using assms(2) by (cases "hdr_init L m")
      (auto simp: make_histogram_def histogram_new_def hist_t_new_def deref_hist_def Let_def)
  from assms(1) show ?thesis
  proof (rule store_okE)
    assume ok: "heap_ok (pointers (st_vars s)) s" "vars_ok (st_vars s)" "st_vars s (st_next s) = None"
      "\<And>v p. st_vars s v = Some p \<Longrightarrow> v < st_next s"
    note n = hist_t_new_ok [OF ok(1) h k]
    have t: "t = s1\<lparr>st_vars := (st_vars s)(st_next s1 \<mapsto> Some k), st_next := Suc (st_next s1)\<rparr>"
      using assms(2) n(3) by (auto simp: make_histogram_def histogram_new_def k Let_def rbind_Inr_iff split: if_splits)
    have f: "st_vars s (st_next s1) = None" using ok(4) [of "st_next s1"] n(4,5) by (cases "st_vars s (st_next s1)") auto
    then have "pointers (st_vars t) = insert k (pointers (st_vars s))" "vars_ok (st_vars t)"
      using pointers_put [OF ok(2), of "st_next s1" "Some k"] n(2) by (auto simp: t)
    moreover have "heap_ok (insert k (pointers (st_vars s))) t"
      unfolding t using heap_ok_next [OF n(1), of "Suc (st_next s1)"] by simp
    moreover have "\<forall>x \<in> dom (st_vars t). x < st_next t" using ok(4) n(4,5) by (fastforce simp: t)
    ultimately show ?thesis by (simp add: store_ok_def)
  qed
qed

lemma move_ok:
  assumes "store_ok s" "histogram_move v s = Inr (w, t)"
  shows "store_ok t"
  using assms(1)
proof (rule store_okE)
  assume ok: "heap_ok (pointers (st_vars s)) s" "vars_ok (st_vars s)" "st_vars s (st_next s) = None"
    "\<And>v p. st_vars s v = Some p \<Longrightarrow> v < st_next s"
  from assms(2) obtain p where p: "st_vars s v = Some p" "w = st_next s"
    "t = s\<lparr>st_vars := (st_vars s)(v \<mapsto> None, st_next s \<mapsto> p), st_next := Suc (st_next s)\<rparr>"
    by (auto simp: histogram_move_def split: option.splits)
  note d = pointers_drop [OF ok(2) p(1), of "Some None"]
  have "((st_vars s)(v \<mapsto> None)) (st_next s) = None" using ok(3,4) p(1) by auto
  from pointers_put [OF d(2) _ , of "st_next s" p] this d(1) have
    vs: "pointers (st_vars t) = (pointers (st_vars s) - set_option p) \<union> set_option p" "vars_ok (st_vars t)"
    by (auto simp: p(3))
  have "set_option p \<subseteq> pointers (st_vars s)" using p(1) by (auto simp: pointers_def)
  with vs(1) have K: "pointers (st_vars t) = pointers (st_vars s)" by auto
  have "heap_ok (pointers (st_vars s)) t" unfolding p(3) using heap_ok_next [OF ok(1), of "Suc (st_next s)"] by simp
  moreover have "\<forall>x \<in> dom (st_vars t). x < st_next t" using ok(4) p(1) by (auto simp: p(3) intro!: less_SucI)
  ultimately show ?thesis using K vs(2) by (simp add: store_ok_def)
qed

lemma delete_ok:
  assumes "store_ok s" "st_vars s v \<noteq> None"
  shows "\<exists>t. histogram_delete v s = Inr t \<and> store_ok t \<and> st_vars t = (st_vars s)(v := None)"
  using assms(1)
proof (rule store_okE)
  assume ok: "heap_ok (pointers (st_vars s)) s" "vars_ok (st_vars s)" "st_vars s (st_next s) = None"
    "\<And>v p. st_vars s v = Some p \<Longrightarrow> v < st_next s"
  from assms(2) obtain p where p: "st_vars s v = Some p" by auto
  let ?s1 = "s\<lparr>st_vars := (st_vars s)(v := None)\<rparr>"
  have "k \<in> pointers (st_vars s)" if "p = Some k" for k using that p by (auto simp: pointers_def)
  from reset_ptr_ok [of "pointers (st_vars s)" ?s1 p] ok(1) this obtain t where t: "reset_ptr p ?s1 = Inr t"
    "heap_ok (pointers (st_vars s) - set_option p) t" "st_vars t = (st_vars s)(v := None)" "st_next t = st_next s" by auto
  with pointers_drop [OF ok(2) p, of None] ok(4) p show ?thesis
    by (auto simp: store_ok_def histogram_delete_def)
qed

lemma assign_ok:
  assumes "store_ok s" "st_vars s v \<noteq> None" "st_vars s w \<noteq> None"
  shows "\<exists>t. histogram_assign v w s = Inr t \<and> store_ok t"
  using assms(1)
proof (rule store_okE)
  assume ok: "heap_ok (pointers (st_vars s)) s" "vars_ok (st_vars s)" "st_vars s (st_next s) = None"
    "\<And>v p. st_vars s v = Some p \<Longrightarrow> v < st_next s"
  from assms obtain p where p: "st_vars s w = Some p" by auto
  let ?vs = "(st_vars s)(w \<mapsto> None)"
  note d = pointers_drop [OF ok(2) p, of "Some None"]
  obtain old where old: "?vs v = Some old" using assms(2) by (cases "v = w") auto
  have e: "pointers (?vs(v \<mapsto> None)) = pointers ?vs - set_option old" "vars_ok (?vs(v \<mapsto> None))"
    using pointers_drop [OF d(2), of v old "Some None"] old by simp_all
  have n: "k \<notin> pointers (?vs(v \<mapsto> None))" if "p = Some k" for k using that e(1) d(1) by simp
  have f: "pointers (?vs(v \<mapsto> p)) = pointers (?vs(v \<mapsto> None)) \<union> set_option p" "vars_ok (?vs(v \<mapsto> p))"
    using pointers_put [OF e(2), of v p] n by simp_all
  let ?s1 = "s\<lparr>st_vars := ?vs(v \<mapsto> p)\<rparr>" and ?K = "pointers (st_vars s)"
  have sub: "set_option p \<subseteq> ?K" using p by (auto simp: pointers_def)
  have "set_option old \<subseteq> pointers ?vs" using old by (auto simp: pointers_def simp del: fun_upd_apply)
  then have o: "set_option old \<subseteq> ?K - set_option p" using d(1) by simp
  have "\<exists>t. reset_ptr old ?s1 = Inr t \<and> heap_ok (?K - set_option old) t \<and> st_vars t = st_vars ?s1 \<and>
      st_next t = st_next ?s1"
    by (rule reset_ptr_ok) (use ok(1) o in auto)
  then obtain t where t: "reset_ptr old ?s1 = Inr t" "heap_ok (?K - set_option old) t"
    "st_vars t = st_vars ?s1" "st_next t = st_next ?s1" by blast
  have "pointers (st_vars t) = ?K - set_option old" using f(1) e(1) d(1) sub o by (auto simp add: t(3) simp del: fun_upd_apply)
  moreover have "histogram_assign v w s = Inr t"
    using t(1) p old assms(2) unfolding histogram_assign_def Let_def
    by (cases "st_vars s v") (simp_all del: fun_upd_apply)
  moreover have "\<forall>x \<in> dom (st_vars t). x < st_next t" using ok(4) p assms(2) by (auto simp: t)
  ultimately show ?thesis using t f(2) by (simp add: store_ok_def del: fun_upd_apply)
qed

lemma upd_hist_ok:
  assumes "store_ok s" "upd_hist f v s = Inr t"
  shows "store_ok t"
proof -
  from assms(2) obtain k obj a h where d: "st_vars s v = Some (Some k)" "st_objs s k = Some obj"
    "ho_hist obj = Some a" "st_hdrs s a = Some h"
    by (auto simp: upd_hist_def deref_hdr_def deref_hist_def rbind_Inr_iff split: option.splits)
  then obtain h' c m where t: "t = s\<lparr>st_hdrs := (st_hdrs s)(a \<mapsto> h'),
      st_objs := (st_objs s)(k \<mapsto> obj\<lparr>ho_sample_count := c, ho_sample_sum := m\<rparr>)\<rparr>"
    using assms(2) by (auto simp: upd_hist_def deref_hdr_def deref_hist_def Let_def)
  have "hdr_of t = hdr_of s" using d by (auto simp: t hdr_of_def fun_eq_iff)
  moreover have "dom (st_hdrs t) = dom (st_hdrs s)" "dom (st_objs t) = dom (st_objs s)" using d by (auto simp: t)
  moreover have "ho_hist (the (st_objs t x)) = ho_hist (the (st_objs s x))" for x using d by (simp add: t)
  moreover have "st_vars t = st_vars s" "st_next t = st_next s" by (simp_all add: t)
  ultimately show ?thesis using assms(1) by (simp add: store_ok_def heap_ok_def)
qed

interpretation histograms: invariant_system "hist_step L" "\<lambda>s. s = hist_store_empty" "\<lambda>e. True" store_ok
  for L :: "('h, 'it) hdr_lib"
proof unfold_locales
  show "store_ok s" if "s = hist_store_empty" for s :: "'h hist_store"
    by (simp add: that store_ok_def heap_ok_def pointers_def vars_ok_def hist_store_empty_def)
  fix s t :: "'h hist_store" and e
  assume ok: "store_ok s" and "hist_step L s e t"
  from this(2) show "store_ok t"
  proof cases
    case (h_assign v w)
    then have "st_vars s v \<noteq> None" "st_vars s w \<noteq> None"
      by (auto simp: histogram_assign_def split: option.splits)
    with assign_ok [OF ok] h_assign show ?thesis by fastforce
  next
    case (h_delete v)
    then have "st_vars s v \<noteq> None" by (auto simp: histogram_delete_def split: option.splits)
    with delete_ok [OF ok] h_delete show ?thesis by fastforce
  next
    case (h_plus v w)
    then show ?thesis using upd_hist_ok [OF ok] by (auto simp: histogram_plus_def rbind_Inr_iff)
  qed (use ok in \<open>auto intro: make_ok move_ok upd_hist_ok\<close>)
qed

text \<open>
  C38: histograms own their memory. Whatever sequence of constructions, moves, assignments,
  recordings, additions and deletions a program runs, every structure of the library that is
  open belongs to exactly one histogram; deleting any histogram succeeds, also one that was
  moved from, so that nothing is closed twice; and when all histograms are gone nothing is left
  open.
\<close>

theorem histograms_own_their_memory:
  assumes "run (hist_step L) hist_store_empty es s"
  shows "(\<forall>a. st_hdrs s a \<noteq> None \<longrightarrow> (\<exists>!v. \<exists>k obj. st_vars s v = Some (Some k) \<and> st_objs s k = Some obj \<and>
      ho_hist obj = Some a)) \<and>
    (\<forall>v. st_vars s v \<noteq> None \<longrightarrow> (\<exists>t. histogram_delete v s = Inr t)) \<and>
    (st_vars s = Map.empty \<longrightarrow> st_hdrs s = Map.empty \<and> st_objs s = Map.empty)"
proof -
  have ok: "store_ok s" using histograms.inv_run [OF _ assms] by (simp add: list_all_iff)
  let ?K = "pointers (st_vars s)"
  from ok have h: "dom (st_objs s) = ?K" "\<forall>k\<in>?K. ho_hist (the (st_objs s k)) \<noteq> None" "inj_on (hdr_of s) ?K"
    "dom (st_hdrs s) = hdr_of s ` ?K" "vars_ok (st_vars s)" by (simp_all add: store_ok_def heap_ok_def)
  have own: "\<exists>!v. \<exists>k obj. st_vars s v = Some (Some k) \<and> st_objs s k = Some obj \<and> ho_hist obj = Some a"
    if "st_hdrs s a \<noteq> None" for a
  proof -
    from that h(4) obtain k where k: "k \<in> ?K" "a = hdr_of s k" by blast
    from k(1) h(1) obtain obj where obj: "st_objs s k = Some obj" by blast
    with h(2) k have a: "ho_hist obj = Some a" by (force simp: hdr_of_def)
    from k(1) obtain v where v: "st_vars s v = Some (Some k)" by (auto simp: pointers_def)
    show ?thesis
    proof (rule ex1I [of _ v])
      show "\<exists>k obj. st_vars s v = Some (Some k) \<and> st_objs s k = Some obj \<and> ho_hist obj = Some a"
        using v obj a by blast
      fix w assume "\<exists>k obj. st_vars s w = Some (Some k) \<and> st_objs s k = Some obj \<and> ho_hist obj = Some a"
      then obtain k' obj' where w: "st_vars s w = Some (Some k')" "st_objs s k' = Some obj'" "ho_hist obj' = Some a"
        by blast
      then have "hdr_of s k' = hdr_of s k" "k' \<in> ?K" using k(2) by (auto simp: hdr_of_def pointers_def)
      with h(3) k(1) have "k' = k" by (meson inj_onD)
      with w(1) v h(5) show "w = v" by (auto simp: vars_ok_def)
    qed
  qed
  have "st_hdrs s = Map.empty \<and> st_objs s = Map.empty" if "st_vars s = Map.empty"
    using that h(1,4) by (simp add: pointers_def)
  with own delete_ok [OF ok] show ?thesis by blast
qed

text \<open>A histogram that is made, moved, recorded into through the new object, and deleted twice over.\<close>

definition example_histograms :: "int list hist_store" where
  "example_histograms = \<lparr>st_hdrs = [0 \<mapsto> [7]],
     st_objs = [1 \<mapsto> \<lparr>ho_hist = Some 0, ho_sample_count = 1, ho_sample_sum = 7\<rparr>],
     st_vars = [2 \<mapsto> None, 3 \<mapsto> Some 1], st_next = 4\<rparr>"

lemma example_histograms_run:
  "run (hist_step list_hdr) hist_store_empty [H_make 100, H_move 2, H_record 3 7] example_histograms"
proof -
  have init: "hdr_init list_hdr m = Some []" for m by (simp add: list_hdr_def)
  obtain s1 v where s1: "make_histogram list_hdr 100 hist_store_empty = Inr (v, s1)" "v = 2"
    "s1 = \<lparr>st_hdrs = [0 \<mapsto> []], st_objs = [1 \<mapsto> \<lparr>ho_hist = Some 0, ho_sample_count = 0, ho_sample_sum = 0\<rparr>],
       st_vars = [2 \<mapsto> Some 1], st_next = 3\<rparr>"
    by (simp add: make_histogram_def histogram_new_def hist_t_new_def deref_hist_def hist_store_empty_def init
        numeral_2_eq_2 numeral_3_eq_3)
  let ?s2 = "s1\<lparr>st_vars := [2 \<mapsto> None, 3 \<mapsto> Some 1], st_next := 4\<rparr>"
  have s2: "histogram_move 2 s1 = Inr (3, ?s2)" by (simp add: histogram_move_def s1(3) fun_upd_twist)
  have "upd_hist (record_value list_hdr 7) 3 ?s2 = Inr example_histograms"
    by (simp add: upd_hist_def deref_hdr_def deref_hist_def s1(3) record_value_def example_histograms_def list_hdr_def)
  with s1(1) s2 show ?thesis by (auto simp: run_Cons_iff run_Nil_iff intro: hist_step.intros)
qed

theorem histograms_own_their_memory_witness:
  "\<exists>t u. histogram_delete 2 example_histograms = Inr t \<and> histogram_delete 3 example_histograms = Inr u \<and>
     (\<exists>!v. \<exists>k obj. st_vars example_histograms v = Some (Some k) \<and> st_objs example_histograms k = Some obj \<and>
       ho_hist obj = Some 0)"
proof -
  have "st_vars example_histograms 2 \<noteq> None" "st_vars example_histograms 3 \<noteq> None" "st_hdrs example_histograms 0 \<noteq> None"
    by (simp_all add: example_histograms_def)
  with histograms_own_their_memory [OF example_histograms_run] show ?thesis by blast
qed

text \<open>
  The move constructor of \<^verbatim>\<open>hist_t\<close> does not keep this: after it two objects hold the same
  structure, and deleting both closes it twice. The counters of the samples are lost as well.
\<close>

lemma moved_hist_t_closed_twice:
  assumes "st_objs s k = Some obj" "ho_hist obj = Some a" "st_hdrs s a = Some h" "k \<noteq> st_next s"
    "hist_t_move k s = Inr (k', s1)" "hist_t_delete k s1 = Inr s2"
  shows "hist_t_delete k' s2 = Inl (Undefined_behaviour ''histogram closed twice'')"
    "ho_sample_count (the (st_objs s1 k')) = 0"
  using assms by (auto simp: hist_t_move_def hist_t_delete_def close_hdr_def)

section \<open>The scope guard\<close>

text \<open>
  \<^verbatim>\<open>auto_measure\<close> and the move constructor of the guard: the pointer moves, so that only one of the
  two guards records. A guard is the record of Histogram with its pointer.
\<close>

definition auto_measure :: "u64 \<Rightarrow> 'p \<Rightarrow> histogram_measure \<times> 'p option" where
  "auto_measure now this = (histogram_measure_new now, Some this)"

definition histogram_measure_move ::
    "histogram_measure \<times> 'p option \<Rightarrow> (histogram_measure \<times> 'p option) \<times> (histogram_measure \<times> 'p option)" where
  "histogram_measure_move g =
     ((\<lparr>hm_trace = hm_trace (fst g), hm_begin = hm_begin (fst g)\<rparr>, snd g), (fst g, None))"

definition guard_end ::
    "('h, 'it) hdr_lib \<Rightarrow> u64 \<Rightarrow> histogram_measure \<times> nat option \<Rightarrow> 'h hist_store \<Rightarrow> 'h hist_store res" where
  "guard_end L now g s = (case snd g of
       None \<Rightarrow> Inr s
     | Some v \<Rightarrow> if hm_trace (fst g) then upd_hist (record_value L (now - hm_begin (fst g))) v s else Inr s)"

text \<open>However often a guard is moved, ending all of the objects records one measurement.\<close>

fun moved_guards ::
    "nat \<Rightarrow> histogram_measure \<times> 'p option \<Rightarrow> (histogram_measure \<times> 'p option) list" where
  "moved_guards 0 g = [g]"
| "moved_guards (Suc n) g = (let (new, old) = histogram_measure_move g in old # moved_guards n new)"

lemma moved_guards_record_once:
  "foldl (\<lambda>r g. rbind r (guard_end L now g)) (Inr s) (moved_guards n g) = guard_end L now g s"
proof (induction n arbitrary: g)
  case (Suc n)
  from Suc [of "fst (histogram_measure_move g)"] show ?case
    by (cases g) (simp add: histogram_measure_move_def guard_end_def split: option.split)
qed simp

section \<open>Printing\<close>

text \<open>
  The numbers are those of the library; its percentiles are numbers between 0 and 100.
\<close>

definition print_hist :: "('h \<Rightarrow> int \<Rightarrow> string) \<Rightarrow> nat \<Rightarrow> 'h hist_store \<Rightarrow> string res" where
  "print_hist hdr_percentiles_print v s =
     rbind (deref_hdr v s) (\<lambda>(k, obj, a, h). Inr (hdr_percentiles_print h 5))"

text \<open>The operator for streams asks for the percentiles .5, .99 and .999 (in thousandths here).\<close>

definition show_histogram ::
    "(int \<Rightarrow> string) \<Rightarrow> ('h \<Rightarrow> int \<Rightarrow> int) \<Rightarrow> nat \<Rightarrow> 'h hist_store \<Rightarrow> string res" where
  "show_histogram show_int hdr_value_at_thousandths v s =
     rbind (value_at hdr_value_at_thousandths 500 v s) (\<lambda>p50.
     rbind (value_at hdr_value_at_thousandths 990 v s) (\<lambda>p99.
     rbind (value_at hdr_value_at_thousandths 999 v s) (\<lambda>p999.
     Inr (''smf::histogram={p50='' @ show_int p50 @ [CHR 0xCE, CHR 0xBC] @ ''s,p99='' @ show_int p99 @
       [CHR 0xCE, CHR 0xBC] @ ''s,p999='' @ show_int p999 @ [CHR 0xCE, CHR 0xBC] @ ''s}''))))"

section \<open>Writing to a file\<close>

text \<open>
  The steps that may fail, each with the exception it fails with. A file whose use fails is
  closed by \<^verbatim>\<open>with_file_close_on_failure\<close>; the stream is closed by the last continuation only.
\<close>

record hist_io_env =
  io_memstream :: bool
  io_open :: "exn option"
  io_stream :: "exn option"
  io_write :: "exn option"
  io_flush :: "exn option"
  io_close :: "exn option"

datatype hist_io =
    Opened string
  | Stream_made
  | Wrote string
  | Flushed
  | Stream_closed
  | File_closed

definition print_histogram ::
    "hist_io_env \<Rightarrow> ('h \<Rightarrow> int \<Rightarrow> string) \<Rightarrow> nat \<Rightarrow> 'h hist_store \<Rightarrow> string res" where
  "print_histogram E hdr_percentiles_print v s =
     (if \<not> io_memstream E then Inl (Runtime_error ''Failed to allocate filestream'')
      else print_hist hdr_percentiles_print v s)"

definition write_body :: "hist_io_env \<Rightarrow> string res \<Rightarrow> unit res \<times> hist_io list" where
  "write_body E text =
     (case io_stream E of Some ex \<Rightarrow> (Inl ex, []) | None \<Rightarrow>
      case text of Inl ex \<Rightarrow> (Inl ex, [Stream_made]) | Inr buf \<Rightarrow>
      case io_write E of Some ex \<Rightarrow> (Inl ex, [Stream_made]) | None \<Rightarrow>
      case io_flush E of Some ex \<Rightarrow> (Inl ex, [Stream_made, Wrote buf]) | None \<Rightarrow>
      case io_close E of
        Some ex \<Rightarrow> (Inl ex, [Stream_made, Wrote buf, Flushed, Stream_closed])
      | None \<Rightarrow> (Inr (), [Stream_made, Wrote buf, Flushed, Stream_closed]))"

definition write_histogram ::
    "hist_io_env \<Rightarrow> ('h \<Rightarrow> int \<Rightarrow> string) \<Rightarrow> string \<Rightarrow> nat \<Rightarrow> 'h hist_store \<Rightarrow> unit res \<times> hist_io list" where
  "write_histogram E hdr_percentiles_print filename v s =
     (case io_open E of
        Some ex \<Rightarrow> (Inl ex, [])
      | None \<Rightarrow> (case write_body E (print_histogram E hdr_percentiles_print v s) of
            (Inl ex, io) \<Rightarrow> (Inl ex, Opened filename # io @ [File_closed])
          | (Inr u, io) \<Rightarrow> (Inr u, Opened filename # io)))"

text \<open>
  A file that was opened is closed in every case: through its stream when everything succeeds,
  and then it holds what the library printed; by itself when something fails. But a stream that
  was written to is not closed when the write or the flush fails.
\<close>

lemma write_histogram_closes:
  assumes "write_histogram E pr filename v s = (r, io)" "io \<noteq> []"
  shows "r = Inr () \<Longrightarrow> \<exists>text. print_hist pr v s = Inr text \<and>
      io = [Opened filename, Stream_made, Wrote text, Flushed, Stream_closed]"
    "r \<noteq> Inr () \<Longrightarrow> last io = File_closed"
    "io_flush E \<noteq> None \<Longrightarrow> Stream_closed \<notin> set io"
  using assms
  by (auto simp: write_histogram_def write_body_def print_histogram_def
      split: option.splits sum.splits prod.splits if_splits)

end
